(* ===== verification/Ult_Prelude.thy ===== *)
theory Ult_Prelude
  imports
    Main
    "HOL-Library.Word"
    "HOL-Library.Char_ord"
    "HOL-Library.List_Lexorder"
    "HOL-Library.Multiset"
begin

text \<open>
  Shared vocabulary of the development: how a Go function fails, the fixed-width integers the
  sources compute with, Go strings, \<open>sort.Sort\<close>, and the small state-and-error monad in which the
  handlers that touch the database are written.  Nothing here models a file of the repository;
  everything here is used by at least two of the component theories.
\<close>

named_theorems go_simps \<open>unfolding rules of the result and action combinators\<close>
named_theorems width_simps \<open>rules that remove a wrap-around when the value fits\<close>


section \<open>Failures and results\<close>

text \<open>
  A Go function ends in one of four bad ways: it returns a non-nil \<open>error\<close> (the caller looks at it,
  wraps it or drops it), it panics (a nil dereference or an index out of range; nothing in the
  repository recovers), it calls \<open>log.Fatal\<close>, which exits the process, or it waits forever for a lock
  or a channel and never returns.  The text is the message
  of the error; a dereference of nil carries the expression that is nil.  \<open>OutOfFuel\<close> is not an
  outcome of the program: a model of an unbounded recursion returns it when its fuel runs out.
\<close>

datatype failure = Error string | Panic string | Fatal string | Blocked string | OutOfFuel

type_synonym 'a res = "failure + 'a"

text \<open>Only a returned error can be handled by the caller; after the others it does not run on.\<close>

fun is_error :: "failure \<Rightarrow> bool" where
  "is_error (Error _) = True"
| "is_error _ = False"

text \<open>\<open>fmt.Errorf("prefix: %v", err)\<close>: a new error whose text is the prefix and the old text.\<close>

fun wrap_failure :: "string \<Rightarrow> failure \<Rightarrow> failure" where
  "wrap_failure p (Error m) = Error (p @ m)"
| "wrap_failure p f = f"

definition errorf :: "string \<Rightarrow> 'a res \<Rightarrow> 'a res" where
  "errorf p r = (case r of Inl f \<Rightarrow> Inl (wrap_failure p f) | Inr a \<Rightarrow> Inr a)"

definition bindR :: "'a res \<Rightarrow> ('a \<Rightarrow> 'b res) \<Rightarrow> 'b res" where
  "bindR r f = (case r of Inl e \<Rightarrow> Inl e | Inr a \<Rightarrow> f a)"

text \<open>Reading through a pointer: nil panics.\<close>

definition derefR :: "string \<Rightarrow> 'a option \<Rightarrow> 'a res" where
  "derefR what p = (case p of None \<Rightarrow> Inl (Panic what) | Some a \<Rightarrow> Inr a)"

definition isOk :: "'a res \<Rightarrow> bool" where
  "isOk r = (case r of Inl _ \<Rightarrow> False | Inr _ \<Rightarrow> True)"

lemma wrap_failure_is_error [simp]: "is_error (wrap_failure p f) = is_error f"
  by (cases f) auto

lemma errorf_simps [simp, go_simps]:
  "errorf p (Inr a) = Inr a"
  "errorf p (Inl f) = Inl (wrap_failure p f)"
  by (auto simp: errorf_def)

lemma errorf_eq_Inr [simp]: "errorf p r = Inr a \<longleftrightarrow> r = Inr a"
  by (cases r) auto

lemma errorf_eq_Inl: "errorf p r = Inl f \<longleftrightarrow> (\<exists>g. r = Inl g \<and> f = wrap_failure p g)"
  by (cases r) auto

lemma bindR_simps [simp, go_simps]:
  "bindR (Inr a) f = f a"
  "bindR (Inl e) f = Inl e"
  by (auto simp: bindR_def)

lemma bindR_eq_Inr: "bindR r f = Inr b \<longleftrightarrow> (\<exists>a. r = Inr a \<and> f a = Inr b)"
  by (cases r) auto

lemma derefR_simps [simp, go_simps]:
  "derefR w (Some a) = Inr a"
  "derefR w None = Inl (Panic w)"
  by (auto simp: derefR_def)

lemma derefR_eq_Inr [simp]: "derefR w p = Inr a \<longleftrightarrow> p = Some a"
  by (cases p) auto

lemma isOk_simps [simp]: "isOk (Inr a)" "\<not> isOk (Inl f)"
  by (auto simp: isOk_def)


section \<open>Actions: state passing that survives an error\<close>

text \<open>
  A handler that writes to the database and then returns an error leaves its writes behind (the
  caller may or may not roll them back), so an action returns the state also when it fails.
\<close>

type_synonym ('s, 'a) act = "'s \<Rightarrow> 'a res \<times> 's"

definition retA :: "'a \<Rightarrow> ('s, 'a) act" where
  "retA a s = (Inr a, s)"

definition failA :: "failure \<Rightarrow> ('s, 'a) act" where
  "failA f s = (Inl f, s)"

definition bindA :: "('s, 'a) act \<Rightarrow> ('a \<Rightarrow> ('s, 'b) act) \<Rightarrow> ('s, 'b) act" where
  "bindA m f s = (case m s of (Inl e, t) \<Rightarrow> (Inl e, t) | (Inr a, t) \<Rightarrow> f a t)"

definition thenA :: "('s, 'a) act \<Rightarrow> ('s, 'b) act \<Rightarrow> ('s, 'b) act" where
  "thenA m n = bindA m (\<lambda>_. n)"

definition liftA :: "'a res \<Rightarrow> ('s, 'a) act" where
  "liftA r s = (r, s)"

text \<open>A read that depends on the state but does not change it.\<close>

definition readA :: "('s \<Rightarrow> 'a res) \<Rightarrow> ('s, 'a) act" where
  "readA g s = (g s, s)"

definition modifyA :: "('s \<Rightarrow> 's) \<Rightarrow> ('s, unit) act" where
  "modifyA g s = (Inr (), g s)"

definition errorfA :: "string \<Rightarrow> ('s, 'a) act \<Rightarrow> ('s, 'a) act" where
  "errorfA p m s = (case m s of (r, t) \<Rightarrow> (errorf p r, t))"

definition guardA :: "bool \<Rightarrow> string \<Rightarrow> ('s, unit) act" where
  "guardA c msg s = (if c then (Inr (), s) else (Inl (Error msg), s))"

text \<open>A call whose error is dropped: a panic or a fatal exit still goes through.\<close>

definition dropA :: "('s, 'a) act \<Rightarrow> ('s, unit) act" where
  "dropA m s =
     (case m s of
        (Inl f, t) \<Rightarrow> (if is_error f then (Inr (), t) else (Inl f, t))
      | (Inr _, t) \<Rightarrow> (Inr (), t))"

lemmas act_defs = retA_def failA_def bindA_def thenA_def liftA_def readA_def modifyA_def
  errorfA_def guardA_def dropA_def

lemma bindA_Inr: "m s = (Inr a, t) \<Longrightarrow> bindA m f s = f a t"
  by (simp add: bindA_def)

lemma bindA_Inl: "m s = (Inl e, t) \<Longrightarrow> bindA m f s = (Inl e, t)"
  by (simp add: bindA_def)

lemma bindA_eq_Inr:
  "bindA m f s = (Inr b, t) \<longleftrightarrow> (\<exists>a u. m s = (Inr a, u) \<and> f a u = (Inr b, t))"
  by (auto simp: bindA_def split: prod.splits sum.splits)

lemma bindA_eq_Inl:
  "bindA m f s = (Inl e, t) \<longleftrightarrow>
     m s = (Inl e, t) \<or> (\<exists>a u. m s = (Inr a, u) \<and> f a u = (Inl e, t))"
  by (auto simp: bindA_def split: prod.splits sum.splits)

lemma act_simps [simp, go_simps]:
  "retA a s = (Inr a, s)"
  "failA f s = (Inl f, s)"
  "liftA r s = (r, s)"
  "readA g s = (g s, s)"
  "modifyA h s = (Inr (), h s)"
  "guardA True msg s = (Inr (), s)"
  "guardA False msg s = (Inl (Error msg), s)"
  by (auto simp: act_defs)

lemma errorfA_eq_Inr [simp]: "errorfA p m s = (Inr a, t) \<longleftrightarrow> m s = (Inr a, t)"
  by (auto simp: errorfA_def split: prod.splits)

lemma guardA_eq_Inr [simp]: "guardA c msg s = (Inr u, t) \<longleftrightarrow> c \<and> t = s"
  by (auto simp: guardA_def)

lemma thenA_eq_Inr:
  "thenA m n s = (Inr b, t) \<longleftrightarrow> (\<exists>a u. m s = (Inr a, u) \<and> n u = (Inr b, t))"
  by (simp add: thenA_def bindA_eq_Inr)

text \<open>The inversion rules a proof about a successful run uses.\<close>

lemmas act_run = bindA_eq_Inr thenA_eq_Inr bindR_eq_Inr

lemma bindA_runE:
  assumes "bindA m f s = (Inr b, t)"
  obtains a u where "m s = (Inr a, u)" "f a u = (Inr b, t)"
  using assms by (auto simp: bindA_eq_Inr)

lemma thenA_runE:
  assumes "thenA m n s = (Inr b, t)"
  obtains a u where "m s = (Inr a, u)" "n u = (Inr b, t)"
  using assms by (auto simp: thenA_eq_Inr)

text \<open>
  A result that the fuel of a model did not cut off, and an action that ends so from a state.
\<close>

definition ends :: "'a res \<Rightarrow> bool" where
  "ends r \<longleftrightarrow> r \<noteq> Inl OutOfFuel"

definition returns :: "('s, 'a) act \<Rightarrow> 's \<Rightarrow> bool" where
  "returns m s \<longleftrightarrow> ends (fst (m s))"

lemma ends_simps [simp]:
  "ends (Inr a)" "ends (Inl (Error m))" "ends (Inl (Panic m))" "ends (Inl (Fatal m))"
  "ends (Inl (Blocked m))"
  "\<not> ends (Inl OutOfFuel)"
  by (auto simp: ends_def)

lemma ends_errorf [simp]: "ends (errorf p r) = ends r"
proof (cases r)
  case (Inl f)
  then show ?thesis by (cases f) auto
qed simp

lemma ends_bindR [intro]: "ends r \<Longrightarrow> (\<And>a. r = Inr a \<Longrightarrow> ends (f a)) \<Longrightarrow> ends (bindR r f)"
  by (cases r) (auto simp: ends_def)

lemma returns_bind:
  assumes "returns m s" "\<And>a t. m s = (Inr a, t) \<Longrightarrow> returns (f a) t"
  shows "returns (bindA m f) s"
  using assms by (auto simp: returns_def bindA_def ends_def split: prod.splits sum.splits)

lemma returns_then:
  assumes "returns m s" "\<And>a t. m s = (Inr a, t) \<Longrightarrow> returns n t"
  shows "returns (thenA m n) s"
  unfolding thenA_def using assms by (rule returns_bind)

lemma returns_simps [simp]:
  "returns (retA a) s" "returns (modifyA g) s"
  "returns (dropA m) s = returns m s" "returns (errorfA p m) s = returns m s"
proof -
  obtain r t where m: "m s = (r, t)" by (cases "m s")
  show "returns (dropA m) s = returns m s"
  proof (cases r)
    case (Inl f)
    with m show ?thesis by (cases f) (auto simp: returns_def dropA_def)
  qed (use m in \<open>simp add: returns_def dropA_def\<close>)
  show "returns (errorfA p m) s = returns m s"
    using m by (simp add: returns_def errorfA_def)
qed (auto simp: returns_def)

text \<open>
  A relation between the state before and the state after an action, whatever its outcome.
  Reflexive and transitive relations compose: the rules below reduce a handler to its writes.
\<close>

lemma snd_act_simps [simp]:
  "snd (errorfA p m s) = snd (m s)"
  "snd (dropA m s) = snd (m s)"
  by (auto simp: errorfA_def dropA_def split: prod.splits sum.splits)

locale frame =
  fixes R :: "'s \<Rightarrow> 's \<Rightarrow> bool"
  assumes frame_refl [simp]: "R s s"
    and frame_trans: "R s t \<Longrightarrow> R t u \<Longrightarrow> R s u"
begin

lemma frame_bind:
  assumes "R s (snd (m s))" "\<And>a t. m s = (Inr a, t) \<Longrightarrow> R t (snd (f a t))"
  shows "R s (snd (bindA m f s))"
proof -
  obtain x t where x: "m s = (x, t)" by (cases "m s")
  show ?thesis
  proof (cases x)
    case (Inl e)
    with x assms(1) show ?thesis by (simp add: bindA_def)
  next
    case (Inr a)
    with x assms have "R s t" "R t (snd (f a t))" by auto
    then have "R s (snd (f a t))" by (rule frame_trans)
    with x Inr show ?thesis by (simp add: bindA_def)
  qed
qed

lemma frame_then:
  assumes "R s (snd (m s))" "\<And>a t. m s = (Inr a, t) \<Longrightarrow> R t (snd (n t))"
  shows "R s (snd (thenA m n s))"
  unfolding thenA_def using assms by (rule frame_bind)

lemma frame_from: "R s t \<Longrightarrow> R t (snd (m t)) \<Longrightarrow> R s (snd (m t))"
  by (rule frame_trans)

end


section \<open>Fixed-width signed integers\<close>

text \<open>
  \<open>int64\<close> and \<open>int32\<close> are integers kept in range; every arithmetic operation of the sources wraps
  around, and the wrap is written out at each place it happens.
\<close>

definition i64 :: "int \<Rightarrow> int" where
  "i64 x = (x + 2 ^ 63) mod 2 ^ 64 - 2 ^ 63"

definition i32 :: "int \<Rightarrow> int" where
  "i32 x = (x + 2 ^ 31) mod 2 ^ 32 - 2 ^ 31"

definition in64 :: "int \<Rightarrow> bool" where
  "in64 x \<longleftrightarrow> - (2 ^ 63) \<le> x \<and> x < 2 ^ 63"

definition in32 :: "int \<Rightarrow> bool" where
  "in32 x \<longleftrightarrow> - (2 ^ 31) \<le> x \<and> x < 2 ^ 31"

abbreviation MaxInt64 :: int where
  "MaxInt64 \<equiv> 9223372036854775807"

lemma in64_i64 [simp, intro]: "in64 (i64 x)"
proof -
  have "0 \<le> (x + 2 ^ 63) mod 2 ^ 64" and "(x + 2 ^ 63) mod 2 ^ 64 < (2::int) ^ 64"
    by simp_all
  then show ?thesis by (simp add: in64_def i64_def)
qed

lemma in32_i32 [simp, intro]: "in32 (i32 x)"
proof -
  have "0 \<le> (x + 2 ^ 31) mod 2 ^ 32" and "(x + 2 ^ 31) mod 2 ^ 32 < (2::int) ^ 32"
    by simp_all
  then show ?thesis by (simp add: in32_def i32_def)
qed

lemma i64_id [width_simps]: "in64 x \<Longrightarrow> i64 x = x"
  by (simp add: in64_def i64_def)

lemma i32_id [width_simps]: "in32 x \<Longrightarrow> i32 x = x"
  by (simp add: in32_def i32_def)

lemma i64_wrap: "2 ^ 63 \<le> x \<Longrightarrow> x < 3 * 2 ^ 63 \<Longrightarrow> i64 x = x - 2 ^ 64"
proof -
  assume x: "2 ^ 63 \<le> x" "x < 3 * 2 ^ 63"
  have "(x + 2 ^ 63) mod 2 ^ 64 = (x + 2 ^ 63 - 2 ^ 64) mod 2 ^ 64" by (simp only: minus_mod_self2)
  also have "\<dots> = x + 2 ^ 63 - 2 ^ 64" using x by (intro mod_pos_pos_trivial) auto
  finally show ?thesis by (simp add: i64_def)
qed

lemma i64_fix_iff: "i64 x = x \<longleftrightarrow> in64 x"
  by (metis i64_id in64_i64)

lemma in64_nonneg_le: "0 \<le> x \<Longrightarrow> x \<le> y \<Longrightarrow> in64 y \<Longrightarrow> in64 x"
  by (simp add: in64_def)


section \<open>Go strings\<close>

text \<open>
  A Go string is a sequence of bytes; \<open>strings.Compare\<close> orders strings lexicographically by byte.
  \<open>HOL-Library.List_Lexorder\<close> with \<open>Char_ord\<close> is that order on \<open>char list\<close>.
\<close>

definition strings_Compare :: "string \<Rightarrow> string \<Rightarrow> int" where
  "strings_Compare a b = (if a = b then 0 else if a < b then -1 else 1)"

lemma strings_Compare_eq0 [simp]: "strings_Compare a b = 0 \<longleftrightarrow> a = b"
  by (simp add: strings_Compare_def)

lemma strings_Compare_neg [simp]: "strings_Compare a b < 0 \<longleftrightarrow> a < b"
  by (auto simp: strings_Compare_def)

lemma strings_Compare_le0 [simp]: "strings_Compare a b \<le> 0 \<longleftrightarrow> a \<le> b"
  by (auto simp: strings_Compare_def)

lemma strings_Compare_pos [simp]: "0 < strings_Compare a b \<longleftrightarrow> b < a"
  by (auto simp: strings_Compare_def)

lemma strings_Compare_ge0 [simp]: "0 \<le> strings_Compare a b \<longleftrightarrow> b \<le> a"
  by (auto simp: strings_Compare_def)

lemma strings_Compare_antisym: "strings_Compare b a = - strings_Compare a b"
  by (auto simp: strings_Compare_def)


text \<open>A number in decimal, as \<open>%d\<close> and \<open>strconv.FormatUint\<close> print it.\<close>

fun dec :: "nat \<Rightarrow> string" where
  "dec n = (if n < 10 then [char_of (48 + n)] else dec (n div 10) @ [char_of (48 + n mod 10)])"

declare dec.simps [simp del]

lemma dec_nonempty [simp]: "dec n \<noteq> []"
  by (simp add: dec.simps [of n])

lemma set_dec: "c \<in> set (dec n) \<Longrightarrow> (of_char c :: nat) \<in> {48..57}"
proof (induction n rule: dec.induct)
  case (1 n)
  show ?case using 1 by (cases "n < 10") (auto simp: dec.simps [of n] of_char_of)
qed

definition undec :: "string \<Rightarrow> nat" where
  "undec s = fold (\<lambda>c n. 10 * n + (of_char c - 48)) s 0"

lemma undec_dec: "undec (dec n) = n"
proof (induction n rule: dec.induct)
  case (1 n)
  have d: "of_char (char_of (48 + k) :: char) - 48 = k" if "k < 10" for k :: nat
    using that by (simp add: of_char_of)
  show ?case
  proof (cases "n < 10")
    case True
    then show ?thesis by (simp add: dec.simps [of n] undec_def d)
  next
    case False
    then have "fold (\<lambda>c n. 10 * n + (of_char c - 48)) (dec (n div 10)) 0 = n div 10"
      using 1 by (simp add: undec_def)
    then show ?thesis using False d [of "n mod 10"] by (simp add: dec.simps [of n] undec_def)
  qed
qed

lemma dec_inject [simp]: "dec m = dec n \<longleftrightarrow> m = n"
  by (metis undec_dec)


section \<open>sort.Sort\<close>

text \<open>
  The insertion sort that \<open>sort.Sort\<close> runs on the short slices of the repository: the element at the
  right end of the sorted part moves left while \<open>Less\<close> puts it before its left neighbour.  The
  sorted part is kept reversed, so that its last element is at the head.  A \<open>Less\<close> that is not
  strict, such as \<open>QuorumSlice.Less\<close>, moves an element past its equals.
\<close>

fun go_insert :: "('a \<Rightarrow> 'a \<Rightarrow> bool) \<Rightarrow> 'a \<Rightarrow> 'a list \<Rightarrow> 'a list" where
  "go_insert lt x [] = [x]"
| "go_insert lt x (y # ys) = (if lt x y then y # go_insert lt x ys else x # y # ys)"

definition go_sort :: "('a \<Rightarrow> 'a \<Rightarrow> bool) \<Rightarrow> 'a list \<Rightarrow> 'a list" where
  "go_sort lt xs = rev (fold (go_insert lt) xs [])"

lemma mset_go_insert [simp]: "mset (go_insert lt x ys) = add_mset x (mset ys)"
  by (induction ys) auto

lemma mset_fold_go_insert: "mset (fold (go_insert lt) xs acc) = mset xs + mset acc"
  by (induction xs arbitrary: acc) auto

lemma mset_go_sort [simp]: "mset (go_sort lt xs) = mset xs"
  by (simp add: go_sort_def mset_fold_go_insert)

lemma set_go_sort [simp]: "set (go_sort lt xs) = set xs"
  by (metis mset_go_sort set_mset_mset)

lemma length_go_sort [simp]: "length (go_sort lt xs) = length xs"
  by (metis mset_go_sort size_mset)

lemma distinct_go_sort [simp]: "distinct (go_sort lt xs) = distinct xs"
  by (metis mset_go_sort mset_eq_imp_distinct_iff)

lemma go_sort_Nil [simp]: "go_sort lt [] = []"
  by (simp add: go_sort_def)

lemma go_insert_cong:
  "(\<And>y. y \<in> set ys \<Longrightarrow> lt x y = lt' x y) \<Longrightarrow> go_insert lt x ys = go_insert lt' x ys"
  by (induction ys) auto

lemma set_go_insert_eq: "set (go_insert lt x ys) = insert x (set ys)"
  by (metis mset_go_insert set_mset_add_mset_insert set_mset_mset)

lemma fold_go_insert_cong:
  assumes "\<And>x y. x \<in> S \<Longrightarrow> y \<in> S \<Longrightarrow> lt x y = lt' x y"
  shows "set xs \<subseteq> S \<Longrightarrow> set acc \<subseteq> S \<Longrightarrow> fold (go_insert lt) xs acc = fold (go_insert lt') xs acc"
proof (induction xs arbitrary: acc)
  case (Cons x xs)
  have "go_insert lt x acc = go_insert lt' x acc"
    using Cons.prems assms by (intro go_insert_cong) auto
  then show ?case using Cons by (simp add: set_go_insert_eq)
qed simp

lemma go_sort_cong:
  "(\<And>x y. x \<in> set xs \<Longrightarrow> y \<in> set xs \<Longrightarrow> lt x y = lt' x y) \<Longrightarrow> go_sort lt xs = go_sort lt' xs"
  unfolding go_sort_def by (subst fold_go_insert_cong [of "set xs" lt lt']) auto

text \<open>
  The contract of a sort: where the comparison that \<open>Less\<close> decides is total and transitive, the
  result is ordered by it.  \<open>le\<close> is the order meant, \<open>lt\<close> the method the source has.
\<close>

locale sort_order =
  fixes le :: "'a \<Rightarrow> 'a \<Rightarrow> bool" and lt :: "'a \<Rightarrow> 'a \<Rightarrow> bool"
  assumes le_total: "le x y \<or> le y x"
    and le_trans: "le x y \<Longrightarrow> le y z \<Longrightarrow> le x z"
    and lt_imp_le: "lt x y \<Longrightarrow> le x y"
    and not_lt_imp_le: "\<not> lt x y \<Longrightarrow> le y x"
begin

lemma sorted_go_insert:
  "sorted_wrt (\<lambda>a b. le b a) ys \<Longrightarrow> sorted_wrt (\<lambda>a b. le b a) (go_insert lt x ys)"
proof (induction ys)
  case Nil
  then show ?case by simp
next
  case (Cons y ys)
  show ?case
  proof (cases "lt x y")
    case True
    then have "le x y" by (rule lt_imp_le)
    with Cons True show ?thesis by (auto simp: set_go_insert_eq)
  next
    case False
    then have "le y x" by (rule not_lt_imp_le)
    with Cons.prems False show ?thesis by (auto intro: le_trans)
  qed
qed

lemma sorted_fold_go_insert:
  "sorted_wrt (\<lambda>a b. le b a) acc \<Longrightarrow> sorted_wrt (\<lambda>a b. le b a) (fold (go_insert lt) xs acc)"
  by (induction xs arbitrary: acc) (auto intro: sorted_go_insert)

lemma sorted_go_sort: "sorted_wrt le (go_sort lt xs)"
  using sorted_fold_go_insert [of "[]" xs] by (simp add: go_sort_def sorted_wrt_rev)

end

end
