(* ===== verification/Messages.thy ===== *)
theory Messages
  imports Ult_Prelude
begin

text \<open>
  The messages of \<open>ultpb/*.proto\<close> that the ledger is made of.  A message field that is itself a
  message is a pointer in the generated code, so it is an option here: None is nil.  Integers of a
  fixed width that the code computes with are integers in range; unsigned ones are words.
\<close>

section \<open>Assets, accounts, trusts, offers\<close>

text \<open>An enumeration is open: a decoded message can hold a number that has no name.\<close>

datatype AssetType = NATIVE | CUSTOM | AssetTypeN int

datatype asset = Asset (as_Type: AssetType) (as_Name: string) (as_Issuer: string)

datatype liability = Liability (l_Buying: int) (l_Selling: int)

record account =
  a_AccountID :: string
  a_Balance :: int
  a_Signer :: string
  a_SeqNum :: "64 word"
  a_EntryCount :: int
  a_TxKeyList :: "string list"
  a_Liability :: "liability option"

record trust =
  t_AccountID :: string
  t_Asset :: "asset option"
  t_Balance :: int
  t_Limit :: int
  t_Liability :: "liability option"
  t_Authorized :: int

datatype price = Price (pr_Numerator: int) (pr_Denominator: int)

record offer =
  o_AccountID :: string
  o_OfferID :: string
  o_SellAsset :: "asset option"
  o_BuyAsset :: "asset option"
  o_Amount :: int
  o_Price :: "price option"
  o_Passive :: int


section \<open>Transactions\<close>

record createAccountOp =
  ca_AccountID :: string
  ca_Balance :: int

record paymentOp =
  pa_AccountID :: string
  pa_Asset :: "asset option"
  pa_Amount :: int

record pathPaymentOp =
  pp_SrcAsset :: "asset option"
  pp_SrcAmount :: int
  pp_AccountID :: string
  pp_DstAsset :: "asset option"
  pp_Path :: "asset list"

record trustOp =
  to_Asset :: "asset option"
  to_Limit :: int

text \<open>
  An operation is a type tag and one of the payloads; the tag of the message and the payload are
  independent fields.
\<close>

datatype OpType = CREATE_ACCOUNT | PAYMENT | PATH_PAYMENT | TRUST | OpTypeN int

datatype op_payload =
    PCreateAccount createAccountOp
  | PPayment paymentOp
  | PPathPayment pathPaymentOp
  | PTrust trustOp

datatype op = Op (op_Type: OpType) (op_Op: "op_payload option")

record tx =
  tx_AccountID :: string
  tx_Fee :: int
  tx_Note :: string
  tx_SeqNum :: "64 word"
  tx_OpList :: "op list"

datatype txset = TxSet (ts_PrevLedgerHash: string) (ts_TxList: "tx list")


section \<open>Ledgers\<close>

record ledger_header =
  lh_Version :: "32 word"
  lh_PrevLedgerHash :: string
  lh_TxSetHash :: string
  lh_ConsensusValue :: string
  lh_MaxTxListSize :: "32 word"
  lh_SeqNum :: "64 word"
  lh_TotalTokens :: int
  lh_BaseFee :: int
  lh_BaseReserve :: int

text \<open>A ledger as peers send it, and the state of the ledger manager that is stored after every close.\<close>

datatype ledger = Ledger (le_LedgerHeader: "ledger_header option") (le_TxSet: "txset option")

record ledger_checkpoint =
  lc_LastCloseTime :: int
  lc_LedgerHeaderCount :: int
  lc_LargestConsensusIndex :: "64 word"
  lc_PrevLedgerHeader :: "ledger_header option"
  lc_PrevLedgerHeaderHash :: string
  lc_CurrLedgerHeader :: "ledger_header option"
  lc_CurrLedgerHeaderHash :: string

datatype TxStatusCode = NOTEXIST | REJECTED | ACCEPTED | CONFIRMED | FAILED | TxStatusCodeN int

datatype tx_status = TxStatus (st_StatusCode: TxStatusCode) (st_ErrorMessage: string) (st_Data: string)

datatype consensus_value = ConsensusValue (TxSetHash: string) (ProposeTime: int)

end
