(* ===== verification/Wire.thy ===== *)
theory Wire
  imports Messages
begin

text \<open>
  The wire format in which \<open>ultpb.Encode\<close> and the decoders of \<open>ultpb/codec.go\<close> store messages:
  protocol buffers, version 3, as the vendored package reads and writes them.  A message is a
  sequence of fields; a field is a tag and a value; a field with its default value is left out.
  Strings must be valid UTF-8.  Unknown fields, and fields of another wire type than expected, are
  skipped.  Groups, which nothing here writes, are rejected.
\<close>

section \<open>Varints\<close>

text \<open>Seven bits per byte, low bits first; also \<open>binary.PutUvarint\<close> writes this.\<close>

function uvarint :: "nat \<Rightarrow> string" where
  "uvarint x = (if x < 128 then [char_of x] else char_of (x mod 128 + 128) # uvarint (x div 128))"
  by auto
termination by (relation "measure id") auto

declare uvarint.simps [simp del]

text \<open>The argument counts the bytes still allowed; the tenth byte has one bit left.\<close>

fun decodeVarint :: "nat \<Rightarrow> string \<Rightarrow> (nat \<times> string) option" where
  "decodeVarint 0 cs = None"
| "decodeVarint (Suc n) [] = None"
| "decodeVarint (Suc n) (c # cs) =
     (let b = of_char c in
      if b < 128 then (if n = 0 \<and> b \<ge> 2 then None else Some (b, cs))
      else case decodeVarint n cs of None \<Rightarrow> None | Some (v, r) \<Rightarrow> Some (b - 128 + 128 * v, r))"

lemma uvarint_nonempty [simp]: "uvarint x \<noteq> []"
  by (subst uvarint.simps) simp

lemma decodeVarint_uvarint:
  "x < 128 ^ n \<Longrightarrow> x < 2 * 128 ^ (m - 1) \<Longrightarrow> n \<le> m \<Longrightarrow> 0 < n \<Longrightarrow>
     decodeVarint m (uvarint x @ r) = Some (x, r)"
proof (induction n arbitrary: x m)
  case 0
  then show ?case by simp
next
  case (Suc n)
  then obtain m' where m: "m = Suc m'" by (cases m) auto
  show ?case
  proof (cases "x < 128")
    case True
    then have u: "uvarint x = [char_of x]" by (subst uvarint.simps) simp
    have "of_char (char_of x :: char) = x" using True by (simp add: of_char_of)
    with True Suc.prems(2) show ?thesis by (auto simp: u m)
  next
    case False
    then have u: "uvarint x = char_of (x mod 128 + 128) # uvarint (x div 128)"
      by (subst uvarint.simps) simp
    have b: "of_char (char_of (x mod 128 + 128) :: char) = x mod 128 + 128"
      by (simp add: of_char_of)
    have n0: "0 < n" using False Suc.prems(1) by (cases n) auto
    have m0: "0 < m'" using n0 Suc.prems(3) m by simp
    have "x div 128 < 128 ^ n" using Suc.prems(1) by (simp add: div_less_iff_less_mult mult.commute)
    moreover have "x div 128 < 2 * 128 ^ (m' - 1)"
      using Suc.prems(2) m m0 by (cases m') (auto simp: div_less_iff_less_mult)
    ultimately have "decodeVarint m' (uvarint (x div 128) @ r) = Some (x div 128, r)"
      using n0 Suc.prems(3) m by (intro Suc.IH) auto
    then show ?thesis by (simp add: u m b Let_def)
  qed
qed

lemma decodeVarint_64: "x < 2 ^ 64 \<Longrightarrow> decodeVarint 10 (uvarint x @ r) = Some (x, r)"
  by (rule decodeVarint_uvarint [of x 10]) auto

lemma decodeVarint_shorter: "decodeVarint n cs = Some (v, r) \<Longrightarrow> length r < length cs"
  by (induction n cs arbitrary: v r rule: decodeVarint.induct)
    (fastforce simp: Let_def split: if_splits option.splits)+


section \<open>Fields\<close>

datatype wval = WVarint nat | WFixed64 string | WLen string | WFixed32 string

type_synonym field = "nat \<times> wval"

fun wire_type :: "wval \<Rightarrow> nat" where
  "wire_type (WVarint _) = 0"
| "wire_type (WFixed64 _) = 1"
| "wire_type (WLen _) = 2"
| "wire_type (WFixed32 _) = 5"

definition put_field :: "field \<Rightarrow> string" where
  "put_field f = uvarint (8 * fst f + wire_type (snd f)) @
     (case snd f of
        WVarint v \<Rightarrow> uvarint v
      | WFixed64 s \<Rightarrow> s
      | WLen s \<Rightarrow> uvarint (length s) @ s
      | WFixed32 s \<Rightarrow> s)"

definition put_fields :: "field list \<Rightarrow> string" where
  "put_fields fs = concat (map put_field fs)"

definition get_value :: "nat \<Rightarrow> string \<Rightarrow> (wval \<times> string) option" where
  "get_value wire b =
     (if wire = 0 then map_option (\<lambda>(v, r). (WVarint v, r)) (decodeVarint 10 b)
      else if wire = 1 then (if length b < 8 then None else Some (WFixed64 (take 8 b), drop 8 b))
      else if wire = 2 then
        (case decodeVarint 10 b of
           None \<Rightarrow> None
         | Some (m, r) \<Rightarrow> if length r < m then None else Some (WLen (take m r), drop m r))
      else if wire = 5 then (if length b < 4 then None else Some (WFixed32 (take 4 b), drop 4 b))
      else None)"

lemma get_value_shorter: "get_value w b = Some (v, r) \<Longrightarrow> length r \<le> length b"
  by (fastforce simp: get_value_def dest: decodeVarint_shorter split: if_splits option.splits)

text \<open>The fields of a message; None where the bytes are not a message.\<close>

function get_fields :: "string \<Rightarrow> field list option" where
  "get_fields b =
     (if b = [] then Some []
      else case decodeVarint 10 b of
             None \<Rightarrow> None
           | Some (x, r) \<Rightarrow>
               (case get_value (x mod 8) r of
                  None \<Rightarrow> None
                | Some (v, r') \<Rightarrow> map_option (\<lambda>fs. (x div 8, v) # fs) (get_fields r')))"
  by pat_completeness auto
termination
  by (relation "measure length") (auto dest!: decodeVarint_shorter get_value_shorter)

declare get_fields.simps [simp del]

definition wf_field :: "field \<Rightarrow> bool" where
  "wf_field f \<longleftrightarrow> fst f < 2 ^ 29 \<and>
     (case snd f of
        WVarint v \<Rightarrow> v < 2 ^ 64
      | WFixed64 s \<Rightarrow> length s = 8
      | WLen s \<Rightarrow> length s < 2 ^ 64
      | WFixed32 s \<Rightarrow> length s = 4)"

lemma get_value_put:
  assumes "wf_field (n, v)"
  shows "get_value (wire_type v)
    ((case v of WVarint x \<Rightarrow> uvarint x | WFixed64 s \<Rightarrow> s | WLen s \<Rightarrow> uvarint (length s) @ s | WFixed32 s \<Rightarrow> s) @ r)
    = Some (v, r)"
  using assms by (cases v) (auto simp: get_value_def wf_field_def decodeVarint_64)

lemma tag_bound: "wf_field (n, v) \<Longrightarrow> 8 * n + wire_type v < 2 ^ 64"
  by (cases v) (auto simp: wf_field_def)

lemma tag_split: "(8 * n + wire_type v) mod 8 = wire_type v" "(8 * n + wire_type v) div 8 = n"
proof -
  have "wire_type v < 8" by (cases v) simp_all
  then show "(8 * n + wire_type v) mod 8 = wire_type v" "(8 * n + wire_type v) div 8 = n"
    by (simp_all add: mod_less div_less)
qed

lemma get_fields_step:
  assumes "decodeVarint 10 b = Some (x, r)" and "get_value (x mod 8) r = Some (v, r')"
  shows "get_fields b = map_option (\<lambda>fs. (x div 8, v) # fs) (get_fields r')"
proof -
  have "b \<noteq> []" using assms(1) by (auto simp: eval_nat_numeral)
  with assms show ?thesis by (subst get_fields.simps) simp
qed

lemma get_fields_put:
  assumes "wf_field f"
  shows "get_fields (put_field f @ r) = map_option (\<lambda>fs. f # fs) (get_fields r)"
proof (cases f)
  case (Pair n v)
  note wf = assms [unfolded Pair]
  show ?thesis
    unfolding put_field_def Pair fst_conv snd_conv append_assoc
    by (subst get_fields_step [OF decodeVarint_64 [OF tag_bound [OF wf]]])
      (simp_all only: tag_split get_value_put [OF wf])
qed

lemma get_put_fields: "\<forall>f \<in> set fs. wf_field f \<Longrightarrow> get_fields (put_fields fs) = Some fs"
proof (induction fs)
  case Nil
  then show ?case by (simp add: put_fields_def get_fields.simps)
next
  case (Cons f fs)
  then show ?case using get_fields_put [of f "put_fields fs"] by (simp add: put_fields_def)
qed


section \<open>Messages\<close>

text \<open>\<open>utf8.ValidString\<close>: no overlong forms, no surrogates, nothing above U+10FFFF.\<close>

definition cont :: "nat \<Rightarrow> nat \<Rightarrow> char \<Rightarrow> bool" where
  "cont lo hi c \<longleftrightarrow> lo \<le> of_char c \<and> of_char c \<le> hi"

fun utf8_valid :: "string \<Rightarrow> bool" where
  "utf8_valid [] = True"
| "utf8_valid (c # cs) =
     (let b = of_char c :: nat in
      if b < 128 then utf8_valid cs
      else if 194 \<le> b \<and> b \<le> 223 then
        (case cs of c1 # cs1 \<Rightarrow> cont 128 191 c1 \<and> utf8_valid cs1 | _ \<Rightarrow> False)
      else if 224 \<le> b \<and> b \<le> 239 then
        (case cs of
           c1 # c2 # cs2 \<Rightarrow>
             cont (if b = 224 then 160 else 128) (if b = 237 then 159 else 191) c1 \<and> cont 128 191 c2 \<and> utf8_valid cs2
         | _ \<Rightarrow> False)
      else if 240 \<le> b \<and> b \<le> 244 then
        (case cs of
           c1 # c2 # c3 # cs3 \<Rightarrow>
             cont (if b = 240 then 144 else 128) (if b = 244 then 143 else 191) c1 \<and>
             cont 128 191 c2 \<and> cont 128 191 c3 \<and> utf8_valid cs3
         | _ \<Rightarrow> False)
      else False)"

lemma pred_option_code [code]: "pred_option P None = True" "pred_option P (Some a) = P a"
  by simp_all

text \<open>A message is read by updating it field by field; None is a field that cannot be read.\<close>

fun upd_all :: "(field \<Rightarrow> 'm \<Rightarrow> 'm option) \<Rightarrow> field list \<Rightarrow> 'm \<Rightarrow> 'm option" where
  "upd_all upd [] m = Some m"
| "upd_all upd (f # fs) m = (case upd f m of None \<Rightarrow> None | Some m' \<Rightarrow> upd_all upd fs m')"

definition merge :: "(field \<Rightarrow> 'm \<Rightarrow> 'm option) \<Rightarrow> string \<Rightarrow> 'm \<Rightarrow> 'm option" where
  "merge upd b m = (case get_fields b of None \<Rightarrow> None | Some fs \<Rightarrow> upd_all upd fs m)"

definition unmarshal :: "(field \<Rightarrow> 'm \<Rightarrow> 'm option) \<Rightarrow> 'm \<Rightarrow> string \<Rightarrow> 'm res" where
  "unmarshal upd zero b =
     (case merge upd b zero of None \<Rightarrow> Inl (Error ''proto.Unmarshal'') | Some m \<Rightarrow> Inr m)"

definition marshal :: "('m \<Rightarrow> field list) \<Rightarrow> ('m \<Rightarrow> bool) \<Rightarrow> 'm \<Rightarrow> string res" where
  "marshal flds utf8 m =
     (if utf8 m then Inr (put_fields (flds m)) else Inl (Error ''proto: invalid UTF-8 string''))"

text \<open>Reading one field.\<close>

definition read_str :: "string \<Rightarrow> (string \<Rightarrow> 'm) \<Rightarrow> 'm option" where
  "read_str s k = (if utf8_valid s then Some (k s) else None)"

definition read_msg ::
  "(field \<Rightarrow> 'n \<Rightarrow> 'n option) \<Rightarrow> 'n \<Rightarrow> 'n option \<Rightarrow> string \<Rightarrow> ('n option \<Rightarrow> 'm) \<Rightarrow> 'm option" where
  "read_msg upd zero cur s k =
     map_option (\<lambda>n. k (Some n)) (merge upd s (case cur of None \<Rightarrow> zero | Some n \<Rightarrow> n))"

text \<open>Writing one field; default values are left out.\<close>

definition str_field :: "nat \<Rightarrow> string \<Rightarrow> field list" where
  "str_field n s = (if s = [] then [] else [(n, WLen s)])"

definition int_bits :: "int \<Rightarrow> nat" where
  "int_bits x = nat (x mod 2 ^ 64)"

definition int_field :: "nat \<Rightarrow> int \<Rightarrow> field list" where
  "int_field n x = (if x = 0 then [] else [(n, WVarint (int_bits x))])"

definition word_field :: "nat \<Rightarrow> 'w::len word \<Rightarrow> field list" where
  "word_field n x = (if x = 0 then [] else [(n, WVarint (unat x))])"

definition msg_field :: "nat \<Rightarrow> ('n \<Rightarrow> field list) \<Rightarrow> 'n option \<Rightarrow> field list" where
  "msg_field n flds x = (case x of None \<Rightarrow> [] | Some m \<Rightarrow> [(n, WLen (put_fields (flds m)))])"

definition strs_field :: "nat \<Rightarrow> string list \<Rightarrow> field list" where
  "strs_field n ss = map (\<lambda>s. (n, WLen s)) ss"

definition msgs_field :: "nat \<Rightarrow> ('n \<Rightarrow> field list) \<Rightarrow> 'n list \<Rightarrow> field list" where
  "msgs_field n flds ms = map (\<lambda>m. (n, WLen (put_fields (flds m)))) ms"

lemma upd_all_append:
  "upd_all upd (xs @ ys) m = (case upd_all upd xs m of None \<Rightarrow> None | Some m' \<Rightarrow> upd_all upd ys m')"
  by (induction xs arbitrary: m) (auto split: option.splits)

lemma put_fields_append [simp]: "put_fields (xs @ ys) = put_fields xs @ put_fields ys"
  by (simp add: put_fields_def)

text \<open>Lengths are written as 64-bit numbers.\<close>

definition wire_max :: nat where
  "wire_max = 2 ^ 64"

text \<open>A field list whose numbers fit; lengths fit because the whole message does.\<close>

definition num_ok :: "field \<Rightarrow> bool" where
  "num_ok f \<longleftrightarrow> fst f < 2 ^ 29 \<and>
     (case snd f of WVarint v \<Rightarrow> v < 2 ^ 64 | WLen s \<Rightarrow> True | WFixed64 s \<Rightarrow> False | WFixed32 s \<Rightarrow> False)"

lemma field_length:
  "(n, WLen s) \<in> set fs \<Longrightarrow> length s \<le> length (put_fields fs)"
  by (induction fs) (auto simp: put_fields_def put_field_def)

lemma num_ok_wf:
  assumes "list_all num_ok fs" "length (put_fields fs) < wire_max"
  shows "\<forall>f \<in> set fs. wf_field f"
proof
  fix f assume f: "f \<in> set fs"
  obtain n v where p: "f = (n, v)" by (cases f)
  have "num_ok f" using f assms(1) by (simp add: list_all_iff)
  moreover have "length s < 2 ^ 64" if "v = WLen s" for s
    using field_length [of n s fs] f p that assms(2) by (simp add: wire_max_def)
  ultimately show "wf_field f" using p by (auto simp: num_ok_def wf_field_def split: wval.splits)
qed

lemma num_ok_fields [simp]:
  "n < 2 ^ 29 \<Longrightarrow> list_all num_ok (str_field n s)"
  "n < 2 ^ 29 \<Longrightarrow> list_all num_ok (int_field n x)"
  "n < 2 ^ 29 \<Longrightarrow> list_all num_ok (msg_field n flds m)"
  "n < 2 ^ 29 \<Longrightarrow> list_all num_ok (strs_field n ss)"
  "n < 2 ^ 29 \<Longrightarrow> list_all num_ok (msgs_field n flds ms)"
  by (auto simp: num_ok_def str_field_def int_field_def msg_field_def strs_field_def msgs_field_def
      list_all_iff int_bits_def nat_less_iff split: option.splits)

lemma num_ok_word [simp]:
  "n < 2 ^ 29 \<Longrightarrow> LENGTH('w::len) \<le> 64 \<Longrightarrow> list_all num_ok (word_field n (x :: 'w word))"
proof -
  assume n: "n < 2 ^ 29" and l: "LENGTH('w) \<le> 64"
  have "unat x < 2 ^ LENGTH('w)" by (rule unsigned_less)
  also have "\<dots> \<le> 2 ^ 64" using l by (rule power_increasing) simp
  finally show ?thesis using n by (simp add: word_field_def num_ok_def)
qed

text \<open>
  What one message type promises: its numbers fit, and reading the fields of a message back, one by
  one, gives the message.
\<close>

locale message =
  fixes flds :: "'m \<Rightarrow> field list"
    and upd :: "field \<Rightarrow> 'm \<Rightarrow> 'm option"
    and zero :: 'm
    and utf8 :: "'m \<Rightarrow> bool"
    and fits :: "'m \<Rightarrow> bool"
  assumes nums: "list_all num_ok (flds m)"
    and reads: "utf8 m \<Longrightarrow> fits m \<Longrightarrow> length (put_fields (flds m)) < wire_max \<Longrightarrow> upd_all upd (flds m) zero = Some m"
begin

lemma merge_put:
  "utf8 m \<Longrightarrow> fits m \<Longrightarrow> length (put_fields (flds m)) < wire_max \<Longrightarrow> merge upd (put_fields (flds m)) zero = Some m"
  using num_ok_wf [OF nums] by (simp add: merge_def get_put_fields reads)

lemma round_trip:
  assumes "marshal flds utf8 m = Inr b" "fits m" "length b < wire_max"
  shows "unmarshal upd zero b = Inr m"
  using assms by (auto simp: marshal_def unmarshal_def merge_put split: if_splits)

lemma read_put:
  "utf8 m \<Longrightarrow> fits m \<Longrightarrow> length (put_fields (flds m)) < wire_max \<Longrightarrow>
     read_msg upd zero None (put_fields (flds m)) k = Some (k (Some m))"
  by (simp add: read_msg_def merge_put)

end


section \<open>Sizes\<close>

lemma uvarint_length: "x < 128 ^ n \<Longrightarrow> 0 < n \<Longrightarrow> length (uvarint x) \<le> n"
proof (induction n arbitrary: x)
  case (Suc n)
  show ?case
  proof (cases "x < 128")
    case False
    then have "0 < n" using Suc.prems(1) by (cases n) auto
    moreover have "x div 128 < 128 ^ n" using Suc.prems(1) by (simp add: div_less_iff_less_mult mult.commute)
    ultimately show ?thesis using Suc.IH [of "x div 128"] False by (subst uvarint.simps) simp
  qed (subst uvarint.simps, simp)
qed simp

lemma uvarint_length_Suc: "length (uvarint x) \<le> Suc x"
proof (induction x rule: uvarint.induct)
  case (1 x)
  show ?case
  proof (cases "x < 128")
    case False
    then have "length (uvarint (x div 128)) \<le> Suc (x div 128)" using 1 by blast
    moreover have "Suc (x div 128) \<le> x" using False by simp
    ultimately show ?thesis using False by (subst uvarint.simps) simp
  qed (subst uvarint.simps, simp)
qed

text \<open>An upper bound of the encoded length that does not depend on the numbers in the message.\<close>

definition field_size :: "field \<Rightarrow> nat" where
  "field_size f = 20 + (case snd f of WLen s \<Rightarrow> 2 * length s | _ \<Rightarrow> 0)"

lemma put_field_length:
  assumes "num_ok f"
  shows "length (put_field f) \<le> field_size f"
proof -
  have t: "length (uvarint (8 * fst f + wire_type (snd f))) \<le> 5"
  proof (rule uvarint_length)
    have "wire_type (snd f) < 8" by (cases "snd f") simp_all
    then show "8 * fst f + wire_type (snd f) < 128 ^ 5" using assms by (simp add: num_ok_def)
  qed simp
  show ?thesis
  proof (cases "snd f")
    case (WVarint v)
    then have "length (uvarint v) \<le> 10" using assms by (intro uvarint_length) (auto simp: num_ok_def)
    with t WVarint show ?thesis by (simp add: put_field_def field_size_def)
  next
    case (WLen s)
    with t uvarint_length_Suc [of "length s"] show ?thesis by (simp add: put_field_def field_size_def)
  qed (use assms in \<open>simp_all add: num_ok_def\<close>)
qed

definition fsize :: "field list \<Rightarrow> nat" where
  "fsize fs = sum_list (map field_size fs)"

lemma put_fields_length: "list_all num_ok fs \<Longrightarrow> length (put_fields fs) \<le> fsize fs"
proof (induction fs)
  case (Cons f fs)
  then show ?case using put_field_length [of f] by (simp add: put_fields_def fsize_def)
qed (simp add: put_fields_def)

lemma fsize_append [simp]: "fsize (xs @ ys) = fsize xs + fsize ys"
  by (simp add: fsize_def)

lemma fsize_str: "fsize (str_field n s) \<le> 20 + 2 * length s"
  by (simp add: str_field_def fsize_def field_size_def)

lemma fsize_int: "fsize (int_field n x) \<le> 20"
  by (simp add: int_field_def fsize_def field_size_def)

lemma fsize_word: "fsize (word_field n w) \<le> 20"
  by (simp add: word_field_def fsize_def field_size_def)

lemma fsize_strs: "fsize (strs_field n ss) = 2 * sum_list (map (\<lambda>s. 10 + length s) ss)"
  by (induction ss) (simp_all add: strs_field_def fsize_def field_size_def)

context message
begin

lemma fsize_msg: "fsize (msg_field n flds x) \<le> (case x of None \<Rightarrow> 0 | Some m \<Rightarrow> 20 + 2 * fsize (flds m))"
proof (cases x)
  case (Some m)
  then show ?thesis using put_fields_length [OF nums, of m] by (simp add: msg_field_def fsize_def field_size_def)
qed (simp add: msg_field_def fsize_def)

end

end
