(* ===== verification/Codec.thy ===== *)
theory Codec
  imports Wire
begin

text \<open>
  The messages of \<open>ultpb/*.proto\<close> that are stored or hashed, field by field, and the encoders and
  decoders of \<open>ultpb/codec.go\<close> over them.  Every message type is an instance of the interface
  \<open>message\<close>, from which its round trip follows.
\<close>

section \<open>Steps shared by the message types\<close>

lemma read_i64 [simp]: "in64 x \<Longrightarrow> i64 (int (int_bits x)) = x"
proof -
  assume "in64 x"
  have "i64 (int (int_bits x)) = i64 x" by (simp add: i64_def int_bits_def mod_simps)
  with \<open>in64 x\<close> show ?thesis by (simp add: i64_id)
qed

lemma read_i32 [simp]: "in32 x \<Longrightarrow> i32 (int (int_bits x)) = x"
proof -
  assume "in32 x"
  have "(x mod 2 ^ 64) mod 2 ^ 32 = x mod 2 ^ 32" by (rule mod_mod_cancel) simp
  then have "(x mod 2 ^ 64 + 2 ^ 31) mod 2 ^ 32 = (x + 2 ^ 31) mod 2 ^ 32" by (metis mod_add_left_eq)
  then have "i32 (int (int_bits x)) = i32 x" by (simp add: i32_def int_bits_def)
  with \<open>in32 x\<close> show ?thesis by (simp add: i32_id)
qed

lemmas field_steps = str_field_def int_field_def word_field_def read_str_def

definition AssetType_num :: "AssetType \<Rightarrow> int" where
  "AssetType_num t = (case t of NATIVE \<Rightarrow> 0 | CUSTOM \<Rightarrow> 1 | AssetTypeN n \<Rightarrow> n)"

definition AssetType_of :: "int \<Rightarrow> AssetType" where
  "AssetType_of n = (if n = 0 then NATIVE else if n = 1 then CUSTOM else AssetTypeN n)"

definition AssetType_fits :: "AssetType \<Rightarrow> bool" where
  "AssetType_fits t \<longleftrightarrow> in32 (AssetType_num t) \<and> AssetType_of (AssetType_num t) = t"

lemma AssetType_step [simp]:
  "AssetType_fits t \<Longrightarrow> AssetType_of (i32 (int (int_bits (AssetType_num t)))) = t"
  "AssetType_fits t \<Longrightarrow> AssetType_num t = 0 \<longleftrightarrow> t = NATIVE"
   apply (simp add: AssetType_fits_def)
  apply (auto simp: AssetType_fits_def AssetType_of_def AssetType_num_def)
  done

definition OpType_num :: "OpType \<Rightarrow> int" where
  "OpType_num t =
     (case t of CREATE_ACCOUNT \<Rightarrow> 0 | PAYMENT \<Rightarrow> 1 | PATH_PAYMENT \<Rightarrow> 2 | TRUST \<Rightarrow> 3 | OpTypeN n \<Rightarrow> n)"

definition OpType_of :: "int \<Rightarrow> OpType" where
  "OpType_of n =
     (if n = 0 then CREATE_ACCOUNT else if n = 1 then PAYMENT else if n = 2 then PATH_PAYMENT
      else if n = 3 then TRUST else OpTypeN n)"

definition OpType_fits :: "OpType \<Rightarrow> bool" where
  "OpType_fits t \<longleftrightarrow> in32 (OpType_num t) \<and> OpType_of (OpType_num t) = t"

lemma OpType_step [simp]:
  "OpType_fits t \<Longrightarrow> OpType_of (i32 (int (int_bits (OpType_num t)))) = t"
  "OpType_fits t \<Longrightarrow> OpType_num t = 0 \<longleftrightarrow> t = CREATE_ACCOUNT"
   apply (simp add: OpType_fits_def)
  apply (auto simp: OpType_fits_def OpType_of_def OpType_num_def)
  done

definition TxStatusCode_num :: "TxStatusCode \<Rightarrow> int" where
  "TxStatusCode_num t =
     (case t of NOTEXIST \<Rightarrow> 0 | REJECTED \<Rightarrow> 1 | ACCEPTED \<Rightarrow> 2 | CONFIRMED \<Rightarrow> 3 | FAILED \<Rightarrow> 4 | TxStatusCodeN n \<Rightarrow> n)"

definition TxStatusCode_of :: "int \<Rightarrow> TxStatusCode" where
  "TxStatusCode_of n =
     (if n = 0 then NOTEXIST else if n = 1 then REJECTED else if n = 2 then ACCEPTED
      else if n = 3 then CONFIRMED else if n = 4 then FAILED else TxStatusCodeN n)"

definition TxStatusCode_fits :: "TxStatusCode \<Rightarrow> bool" where
  "TxStatusCode_fits t \<longleftrightarrow> in32 (TxStatusCode_num t) \<and> TxStatusCode_of (TxStatusCode_num t) = t"

lemma TxStatusCode_step [simp]:
  "TxStatusCode_fits t \<Longrightarrow> TxStatusCode_of (i32 (int (int_bits (TxStatusCode_num t)))) = t"
  "TxStatusCode_fits t \<Longrightarrow> TxStatusCode_num t = 0 \<longleftrightarrow> t = NOTEXIST"
   apply (simp add: TxStatusCode_fits_def)
  apply (auto simp: TxStatusCode_fits_def TxStatusCode_of_def TxStatusCode_num_def)
  done

lemma msg_field_length: "length (put_fields (flds m)) \<le> length (put_fields (msg_field n flds (Some m)))"
  using field_length [of n "put_fields (flds m)"] by (simp add: msg_field_def)

context message
begin

lemma opt_field:
  assumes "pred_option utf8 x" "pred_option fits x" "length (put_fields (msg_field n flds x)) < wire_max"
    and "\<And>s. outer (n, WLen s) z = read_msg upd zero None s k" and "k None = z"
  shows "upd_all outer (msg_field n flds x) z = Some (k x)"
proof (cases x)
  case None
  then show ?thesis using assms(5) by (simp add: msg_field_def)
next
  case (Some m)
  have "length (put_fields (flds m)) < wire_max"
    using msg_field_length [of flds m n] assms(3) Some by simp
  then show ?thesis using assms(1,2,4) Some by (simp add: msg_field_def read_put)
qed

lemma list_field:
  assumes "list_all utf8 ms" "list_all fits ms" "length (put_fields (msgs_field n flds ms)) < wire_max"
    and outer: "\<And>s z. outer (n, WLen s) z = map_option (add z) (merge upd s zero)"
  shows "upd_all outer (msgs_field n flds ms) z = Some (foldl add z ms)"
  using assms(1-3)
proof (induction ms arbitrary: z)
  case Nil
  then show ?case by (simp add: msgs_field_def)
next
  case (Cons m ms)
  have l: "length (put_fields (msgs_field n flds (m # ms))) =
      length (put_fields (msg_field n flds (Some m))) + length (put_fields (msgs_field n flds ms))"
    by (simp add: msgs_field_def msg_field_def put_fields_def)
  then have "length (put_fields (flds m)) < wire_max" and "length (put_fields (msgs_field n flds ms)) < wire_max"
    using msg_field_length [of flds m n] Cons.prems(3) by linarith+
  then show ?case using Cons by (simp add: msgs_field_def outer merge_put)
qed

end


section \<open>The messages\<close>

subsection \<open>Liability\<close>

definition zero_Liability :: liability where
  "zero_Liability = Liability 0 0"

definition Liability_fields :: "liability \<Rightarrow> field list" where
  "Liability_fields m =
     int_field 1 (l_Buying m) @
     int_field 2 (l_Selling m)"

definition Liability_upd :: "field \<Rightarrow> liability \<Rightarrow> liability option" where
  "Liability_upd f m =
     (case f of
        (n, WVarint v) \<Rightarrow> Some
          (if n = 1 then Liability (i64 (int v)) (l_Selling m)
           else if n = 2 then Liability (l_Buying m) (i64 (int v))
           else m)
      | _ \<Rightarrow> Some m)"

definition Liability_utf8 :: "liability \<Rightarrow> bool" where
  "Liability_utf8 m \<longleftrightarrow> True"

definition Liability_fits :: "liability \<Rightarrow> bool" where
  "Liability_fits m \<longleftrightarrow> in64 (l_Buying m) \<and> in64 (l_Selling m)"

lemma Liability_step:
  "l_Buying m = 0 \<Longrightarrow> in64 i \<Longrightarrow>
     upd_all Liability_upd (int_field 1 i) m = Some (Liability i (l_Selling m))"
  "l_Selling m = 0 \<Longrightarrow> in64 i \<Longrightarrow>
     upd_all Liability_upd (int_field 2 i) m = Some (Liability (l_Buying m) i)"
  by (cases m; auto simp: Liability_upd_def field_steps)+

interpretation Liability: message Liability_fields Liability_upd zero_Liability Liability_utf8 Liability_fits
proof
  fix m
  show "list_all num_ok (Liability_fields m)" by (simp add: Liability_fields_def)
  assume "Liability_utf8 m" "Liability_fits m" "length (put_fields (Liability_fields m)) < wire_max"
  then show "upd_all Liability_upd (Liability_fields m) zero_Liability = Some m"
    by (simp add: Liability_fields_def Liability_utf8_def Liability_fits_def zero_Liability_def upd_all_append Liability_step del: One_nat_def)
qed

subsection \<open>Asset\<close>

definition zero_Asset :: asset where
  "zero_Asset = Asset NATIVE [] []"

definition Asset_fields :: "asset \<Rightarrow> field list" where
  "Asset_fields m =
     int_field 1 (AssetType_num (as_Type m)) @
     str_field 2 (as_Name m) @
     str_field 3 (as_Issuer m)"

definition Asset_upd :: "field \<Rightarrow> asset \<Rightarrow> asset option" where
  "Asset_upd f m =
     (case f of
        (n, WVarint v) \<Rightarrow> Some
          (if n = 1 then Asset (AssetType_of (i32 (int v))) (as_Name m) (as_Issuer m)
           else m)
      | (n, WLen s) \<Rightarrow>
          (if n = 2 then read_str s (\<lambda>x. Asset (as_Type m) x (as_Issuer m))
           else if n = 3 then read_str s (\<lambda>x. Asset (as_Type m) (as_Name m) x)
           else Some m)
      | _ \<Rightarrow> Some m)"

definition Asset_utf8 :: "asset \<Rightarrow> bool" where
  "Asset_utf8 m \<longleftrightarrow> utf8_valid (as_Name m) \<and> utf8_valid (as_Issuer m)"

definition Asset_fits :: "asset \<Rightarrow> bool" where
  "Asset_fits m \<longleftrightarrow> AssetType_fits (as_Type m)"

definition EncodeAsset :: "asset \<Rightarrow> string res" where
  "EncodeAsset m = marshal Asset_fields Asset_utf8 m"

definition DecodeAsset :: "string \<Rightarrow> asset res" where
  "DecodeAsset b = unmarshal Asset_upd zero_Asset b"

lemma Asset_step:
  "as_Type m = NATIVE \<Longrightarrow> AssetType_fits e \<Longrightarrow>
     upd_all Asset_upd (int_field 1 (AssetType_num e)) m = Some (Asset e (as_Name m) (as_Issuer m))"
  "as_Name m = [] \<Longrightarrow> utf8_valid x \<Longrightarrow>
     upd_all Asset_upd (str_field 2 x) m = Some (Asset (as_Type m) x (as_Issuer m))"
  "as_Issuer m = [] \<Longrightarrow> utf8_valid x \<Longrightarrow>
     upd_all Asset_upd (str_field 3 x) m = Some (Asset (as_Type m) (as_Name m) x)"
  by (cases m; auto simp: Asset_upd_def field_steps)+

interpretation Asset: message Asset_fields Asset_upd zero_Asset Asset_utf8 Asset_fits
proof
  fix m
  show "list_all num_ok (Asset_fields m)" by (simp add: Asset_fields_def)
  assume "Asset_utf8 m" "Asset_fits m" "length (put_fields (Asset_fields m)) < wire_max"
  then show "upd_all Asset_upd (Asset_fields m) zero_Asset = Some m"
    by (simp add: Asset_fields_def Asset_utf8_def Asset_fits_def zero_Asset_def upd_all_append Asset_step del: One_nat_def)
qed

subsection \<open>Account\<close>

definition zero_Account :: account where
  "zero_Account = \<lparr>a_AccountID = [], a_Balance = 0, a_Signer = [], a_SeqNum = 0, a_EntryCount = 0, a_TxKeyList = [], a_Liability = None\<rparr>"

definition Account_fields :: "account \<Rightarrow> field list" where
  "Account_fields m =
     str_field 1 (a_AccountID m) @
     int_field 2 (a_Balance m) @
     str_field 3 (a_Signer m) @
     word_field 4 (a_SeqNum m) @
     int_field 5 (a_EntryCount m) @
     strs_field 6 (a_TxKeyList m) @
     msg_field 7 Liability_fields (a_Liability m)"

definition Account_upd :: "field \<Rightarrow> account \<Rightarrow> account option" where
  "Account_upd f m =
     (case f of
        (n, WVarint v) \<Rightarrow> Some
          (if n = 2 then m\<lparr>a_Balance := i64 (int v)\<rparr>
           else if n = 4 then m\<lparr>a_SeqNum := word_of_nat v\<rparr>
           else if n = 5 then m\<lparr>a_EntryCount := i32 (int v)\<rparr>
           else m)
      | (n, WLen s) \<Rightarrow>
          (if n = 1 then read_str s (\<lambda>x. m\<lparr>a_AccountID := x\<rparr>)
           else if n = 3 then read_str s (\<lambda>x. m\<lparr>a_Signer := x\<rparr>)
           else if n = 6 then read_str s (\<lambda>x. m\<lparr>a_TxKeyList := a_TxKeyList m @ [x]\<rparr>)
           else if n = 7 then read_msg Liability_upd zero_Liability (a_Liability m) s (\<lambda>x. m\<lparr>a_Liability := x\<rparr>)
           else Some m)
      | _ \<Rightarrow> Some m)"

definition Account_utf8 :: "account \<Rightarrow> bool" where
  "Account_utf8 m \<longleftrightarrow> utf8_valid (a_AccountID m) \<and> utf8_valid (a_Signer m) \<and> list_all utf8_valid (a_TxKeyList m) \<and> pred_option Liability_utf8 (a_Liability m)"

definition Account_fits :: "account \<Rightarrow> bool" where
  "Account_fits m \<longleftrightarrow> in64 (a_Balance m) \<and> in32 (a_EntryCount m) \<and> pred_option Liability_fits (a_Liability m)"

definition EncodeAccount :: "account \<Rightarrow> string res" where
  "EncodeAccount m = marshal Account_fields Account_utf8 m"

definition DecodeAccount :: "string \<Rightarrow> account res" where
  "DecodeAccount b = unmarshal Account_upd zero_Account b"

lemma Account_step:
  "a_AccountID m = [] \<Longrightarrow> utf8_valid x \<Longrightarrow>
     upd_all Account_upd (str_field 1 x) m = Some (m\<lparr>a_AccountID := x\<rparr>)"
  "a_Balance m = 0 \<Longrightarrow> in64 i \<Longrightarrow>
     upd_all Account_upd (int_field 2 i) m = Some (m\<lparr>a_Balance := i\<rparr>)"
  "a_Signer m = [] \<Longrightarrow> utf8_valid x \<Longrightarrow>
     upd_all Account_upd (str_field 3 x) m = Some (m\<lparr>a_Signer := x\<rparr>)"
  "a_SeqNum m = 0 \<Longrightarrow> 
     upd_all Account_upd (word_field 4 w4) m = Some (m\<lparr>a_SeqNum := w4\<rparr>)"
  "a_EntryCount m = 0 \<Longrightarrow> in32 i \<Longrightarrow>
     upd_all Account_upd (int_field 5 i) m = Some (m\<lparr>a_EntryCount := i\<rparr>)"
  by (cases m; auto simp: Account_upd_def field_steps)+

lemma Account_step_list:
  "list_all utf8_valid xs \<Longrightarrow>
     upd_all Account_upd (strs_field 6 xs) m = Some (m\<lparr>a_TxKeyList := a_TxKeyList m @ xs\<rparr>)"
  by (induction xs arbitrary: m) (auto simp: Account_upd_def field_steps strs_field_def)

lemma Account_step_7:
  "a_Liability m = None \<Longrightarrow> pred_option Liability_utf8 x \<Longrightarrow> pred_option Liability_fits x \<Longrightarrow>
     length (put_fields (msg_field 7 Liability_fields x)) < wire_max \<Longrightarrow>
     upd_all Account_upd (msg_field 7 Liability_fields x) m = Some (m\<lparr>a_Liability := x\<rparr>)"
  by (rule Liability.opt_field) (simp_all add: Account_upd_def)

interpretation Account: message Account_fields Account_upd zero_Account Account_utf8 Account_fits
proof
  fix m
  show "list_all num_ok (Account_fields m)" by (simp add: Account_fields_def)
  assume "Account_utf8 m" "Account_fits m" "length (put_fields (Account_fields m)) < wire_max"
  then show "upd_all Account_upd (Account_fields m) zero_Account = Some m"
    by (simp add: Account_fields_def Account_utf8_def Account_fits_def zero_Account_def upd_all_append Account_step Account_step_list Account_step_7 del: One_nat_def)
qed

subsection \<open>Trust\<close>

definition zero_Trust :: trust where
  "zero_Trust = \<lparr>t_AccountID = [], t_Asset = None, t_Balance = 0, t_Limit = 0, t_Liability = None, t_Authorized = 0\<rparr>"

definition Trust_fields :: "trust \<Rightarrow> field list" where
  "Trust_fields m =
     str_field 1 (t_AccountID m) @
     msg_field 2 Asset_fields (t_Asset m) @
     int_field 3 (t_Balance m) @
     int_field 4 (t_Limit m) @
     msg_field 5 Liability_fields (t_Liability m) @
     int_field 6 (t_Authorized m)"

definition Trust_upd :: "field \<Rightarrow> trust \<Rightarrow> trust option" where
  "Trust_upd f m =
     (case f of
        (n, WVarint v) \<Rightarrow> Some
          (if n = 3 then m\<lparr>t_Balance := i64 (int v)\<rparr>
           else if n = 4 then m\<lparr>t_Limit := i64 (int v)\<rparr>
           else if n = 6 then m\<lparr>t_Authorized := i32 (int v)\<rparr>
           else m)
      | (n, WLen s) \<Rightarrow>
          (if n = 1 then read_str s (\<lambda>x. m\<lparr>t_AccountID := x\<rparr>)
           else if n = 2 then read_msg Asset_upd zero_Asset (t_Asset m) s (\<lambda>x. m\<lparr>t_Asset := x\<rparr>)
           else if n = 5 then read_msg Liability_upd zero_Liability (t_Liability m) s (\<lambda>x. m\<lparr>t_Liability := x\<rparr>)
           else Some m)
      | _ \<Rightarrow> Some m)"

definition Trust_utf8 :: "trust \<Rightarrow> bool" where
  "Trust_utf8 m \<longleftrightarrow> utf8_valid (t_AccountID m) \<and> pred_option Asset_utf8 (t_Asset m) \<and> pred_option Liability_utf8 (t_Liability m)"

definition Trust_fits :: "trust \<Rightarrow> bool" where
  "Trust_fits m \<longleftrightarrow> pred_option Asset_fits (t_Asset m) \<and> in64 (t_Balance m) \<and> in64 (t_Limit m) \<and> pred_option Liability_fits (t_Liability m) \<and> in32 (t_Authorized m)"

definition EncodeTrust :: "trust \<Rightarrow> string res" where
  "EncodeTrust m = marshal Trust_fields Trust_utf8 m"

definition DecodeTrust :: "string \<Rightarrow> trust res" where
  "DecodeTrust b = unmarshal Trust_upd zero_Trust b"

lemma Trust_step:
  "t_AccountID m = [] \<Longrightarrow> utf8_valid x \<Longrightarrow>
     upd_all Trust_upd (str_field 1 x) m = Some (m\<lparr>t_AccountID := x\<rparr>)"
  "t_Balance m = 0 \<Longrightarrow> in64 i \<Longrightarrow>
     upd_all Trust_upd (int_field 3 i) m = Some (m\<lparr>t_Balance := i\<rparr>)"
  "t_Limit m = 0 \<Longrightarrow> in64 i \<Longrightarrow>
     upd_all Trust_upd (int_field 4 i) m = Some (m\<lparr>t_Limit := i\<rparr>)"
  "t_Authorized m = 0 \<Longrightarrow> in32 i \<Longrightarrow>
     upd_all Trust_upd (int_field 6 i) m = Some (m\<lparr>t_Authorized := i\<rparr>)"
  by (cases m; auto simp: Trust_upd_def field_steps)+

lemma Trust_step_2:
  "t_Asset m = None \<Longrightarrow> pred_option Asset_utf8 x \<Longrightarrow> pred_option Asset_fits x \<Longrightarrow>
     length (put_fields (msg_field 2 Asset_fields x)) < wire_max \<Longrightarrow>
     upd_all Trust_upd (msg_field 2 Asset_fields x) m = Some (m\<lparr>t_Asset := x\<rparr>)"
  by (rule Asset.opt_field) (simp_all add: Trust_upd_def)

lemma Trust_step_5:
  "t_Liability m = None \<Longrightarrow> pred_option Liability_utf8 x \<Longrightarrow> pred_option Liability_fits x \<Longrightarrow>
     length (put_fields (msg_field 5 Liability_fields x)) < wire_max \<Longrightarrow>
     upd_all Trust_upd (msg_field 5 Liability_fields x) m = Some (m\<lparr>t_Liability := x\<rparr>)"
  by (rule Liability.opt_field) (simp_all add: Trust_upd_def)

interpretation Trust: message Trust_fields Trust_upd zero_Trust Trust_utf8 Trust_fits
proof
  fix m
  show "list_all num_ok (Trust_fields m)" by (simp add: Trust_fields_def)
  assume "Trust_utf8 m" "Trust_fits m" "length (put_fields (Trust_fields m)) < wire_max"
  then show "upd_all Trust_upd (Trust_fields m) zero_Trust = Some m"
    by (simp add: Trust_fields_def Trust_utf8_def Trust_fits_def zero_Trust_def upd_all_append Trust_step Trust_step_2 Trust_step_5 del: One_nat_def)
qed

subsection \<open>Price\<close>

definition zero_Price :: price where
  "zero_Price = Price 0 0"

definition Price_fields :: "price \<Rightarrow> field list" where
  "Price_fields m =
     int_field 1 (pr_Numerator m) @
     int_field 2 (pr_Denominator m)"

definition Price_upd :: "field \<Rightarrow> price \<Rightarrow> price option" where
  "Price_upd f m =
     (case f of
        (n, WVarint v) \<Rightarrow> Some
          (if n = 1 then Price (i64 (int v)) (pr_Denominator m)
           else if n = 2 then Price (pr_Numerator m) (i64 (int v))
           else m)
      | _ \<Rightarrow> Some m)"

definition Price_utf8 :: "price \<Rightarrow> bool" where
  "Price_utf8 m \<longleftrightarrow> True"

definition Price_fits :: "price \<Rightarrow> bool" where
  "Price_fits m \<longleftrightarrow> in64 (pr_Numerator m) \<and> in64 (pr_Denominator m)"

lemma Price_step:
  "pr_Numerator m = 0 \<Longrightarrow> in64 i \<Longrightarrow>
     upd_all Price_upd (int_field 1 i) m = Some (Price i (pr_Denominator m))"
  "pr_Denominator m = 0 \<Longrightarrow> in64 i \<Longrightarrow>
     upd_all Price_upd (int_field 2 i) m = Some (Price (pr_Numerator m) i)"
  by (cases m; auto simp: Price_upd_def field_steps)+

interpretation Price: message Price_fields Price_upd zero_Price Price_utf8 Price_fits
proof
  fix m
  show "list_all num_ok (Price_fields m)" by (simp add: Price_fields_def)
  assume "Price_utf8 m" "Price_fits m" "length (put_fields (Price_fields m)) < wire_max"
  then show "upd_all Price_upd (Price_fields m) zero_Price = Some m"
    by (simp add: Price_fields_def Price_utf8_def Price_fits_def zero_Price_def upd_all_append Price_step del: One_nat_def)
qed

subsection \<open>Offer\<close>

definition zero_Offer :: offer where
  "zero_Offer = \<lparr>o_AccountID = [], o_OfferID = [], o_SellAsset = None, o_BuyAsset = None, o_Amount = 0, o_Price = None, o_Passive = 0\<rparr>"

definition Offer_fields :: "offer \<Rightarrow> field list" where
  "Offer_fields m =
     str_field 1 (o_AccountID m) @
     str_field 2 (o_OfferID m) @
     msg_field 3 Asset_fields (o_SellAsset m) @
     msg_field 4 Asset_fields (o_BuyAsset m) @
     int_field 5 (o_Amount m) @
     msg_field 6 Price_fields (o_Price m) @
     int_field 7 (o_Passive m)"

definition Offer_upd :: "field \<Rightarrow> offer \<Rightarrow> offer option" where
  "Offer_upd f m =
     (case f of
        (n, WVarint v) \<Rightarrow> Some
          (if n = 5 then m\<lparr>o_Amount := i64 (int v)\<rparr>
           else if n = 7 then m\<lparr>o_Passive := i32 (int v)\<rparr>
           else m)
      | (n, WLen s) \<Rightarrow>
          (if n = 1 then read_str s (\<lambda>x. m\<lparr>o_AccountID := x\<rparr>)
           else if n = 2 then read_str s (\<lambda>x. m\<lparr>o_OfferID := x\<rparr>)
           else if n = 3 then read_msg Asset_upd zero_Asset (o_SellAsset m) s (\<lambda>x. m\<lparr>o_SellAsset := x\<rparr>)
           else if n = 4 then read_msg Asset_upd zero_Asset (o_BuyAsset m) s (\<lambda>x. m\<lparr>o_BuyAsset := x\<rparr>)
           else if n = 6 then read_msg Price_upd zero_Price (o_Price m) s (\<lambda>x. m\<lparr>o_Price := x\<rparr>)
           else Some m)
      | _ \<Rightarrow> Some m)"

definition Offer_utf8 :: "offer \<Rightarrow> bool" where
  "Offer_utf8 m \<longleftrightarrow> utf8_valid (o_AccountID m) \<and> utf8_valid (o_OfferID m) \<and> pred_option Asset_utf8 (o_SellAsset m) \<and> pred_option Asset_utf8 (o_BuyAsset m) \<and> pred_option Price_utf8 (o_Price m)"

definition Offer_fits :: "offer \<Rightarrow> bool" where
  "Offer_fits m \<longleftrightarrow> pred_option Asset_fits (o_SellAsset m) \<and> pred_option Asset_fits (o_BuyAsset m) \<and> in64 (o_Amount m) \<and> pred_option Price_fits (o_Price m) \<and> in32 (o_Passive m)"

definition EncodeOffer :: "offer \<Rightarrow> string res" where
  "EncodeOffer m = marshal Offer_fields Offer_utf8 m"

definition DecodeOffer :: "string \<Rightarrow> offer res" where
  "DecodeOffer b = unmarshal Offer_upd zero_Offer b"

lemma Offer_step:
  "o_AccountID m = [] \<Longrightarrow> utf8_valid x \<Longrightarrow>
     upd_all Offer_upd (str_field 1 x) m = Some (m\<lparr>o_AccountID := x\<rparr>)"
  "o_OfferID m = [] \<Longrightarrow> utf8_valid x \<Longrightarrow>
     upd_all Offer_upd (str_field 2 x) m = Some (m\<lparr>o_OfferID := x\<rparr>)"
  "o_Amount m = 0 \<Longrightarrow> in64 i \<Longrightarrow>
     upd_all Offer_upd (int_field 5 i) m = Some (m\<lparr>o_Amount := i\<rparr>)"
  "o_Passive m = 0 \<Longrightarrow> in32 i \<Longrightarrow>
     upd_all Offer_upd (int_field 7 i) m = Some (m\<lparr>o_Passive := i\<rparr>)"
  by (cases m; auto simp: Offer_upd_def field_steps)+

lemma Offer_step_3:
  "o_SellAsset m = None \<Longrightarrow> pred_option Asset_utf8 x \<Longrightarrow> pred_option Asset_fits x \<Longrightarrow>
     length (put_fields (msg_field 3 Asset_fields x)) < wire_max \<Longrightarrow>
     upd_all Offer_upd (msg_field 3 Asset_fields x) m = Some (m\<lparr>o_SellAsset := x\<rparr>)"
  by (rule Asset.opt_field) (simp_all add: Offer_upd_def)

lemma Offer_step_4:
  "o_BuyAsset m = None \<Longrightarrow> pred_option Asset_utf8 x \<Longrightarrow> pred_option Asset_fits x \<Longrightarrow>
     length (put_fields (msg_field 4 Asset_fields x)) < wire_max \<Longrightarrow>
     upd_all Offer_upd (msg_field 4 Asset_fields x) m = Some (m\<lparr>o_BuyAsset := x\<rparr>)"
  by (rule Asset.opt_field) (simp_all add: Offer_upd_def)

lemma Offer_step_6:
  "o_Price m = None \<Longrightarrow> pred_option Price_utf8 x \<Longrightarrow> pred_option Price_fits x \<Longrightarrow>
     length (put_fields (msg_field 6 Price_fields x)) < wire_max \<Longrightarrow>
     upd_all Offer_upd (msg_field 6 Price_fields x) m = Some (m\<lparr>o_Price := x\<rparr>)"
  by (rule Price.opt_field) (simp_all add: Offer_upd_def)

interpretation Offer: message Offer_fields Offer_upd zero_Offer Offer_utf8 Offer_fits
proof
  fix m
  show "list_all num_ok (Offer_fields m)" by (simp add: Offer_fields_def)
  assume "Offer_utf8 m" "Offer_fits m" "length (put_fields (Offer_fields m)) < wire_max"
  then show "upd_all Offer_upd (Offer_fields m) zero_Offer = Some m"
    by (simp add: Offer_fields_def Offer_utf8_def Offer_fits_def zero_Offer_def upd_all_append Offer_step Offer_step_3 Offer_step_4 Offer_step_6 del: One_nat_def)
qed

subsection \<open>CreateAccountOp\<close>

definition zero_CreateAccountOp :: createAccountOp where
  "zero_CreateAccountOp = \<lparr>ca_AccountID = [], ca_Balance = 0\<rparr>"

definition CreateAccountOp_fields :: "createAccountOp \<Rightarrow> field list" where
  "CreateAccountOp_fields m =
     str_field 1 (ca_AccountID m) @
     int_field 2 (ca_Balance m)"

definition CreateAccountOp_upd :: "field \<Rightarrow> createAccountOp \<Rightarrow> createAccountOp option" where
  "CreateAccountOp_upd f m =
     (case f of
        (n, WVarint v) \<Rightarrow> Some
          (if n = 2 then m\<lparr>ca_Balance := i64 (int v)\<rparr>
           else m)
      | (n, WLen s) \<Rightarrow>
          (if n = 1 then read_str s (\<lambda>x. m\<lparr>ca_AccountID := x\<rparr>)
           else Some m)
      | _ \<Rightarrow> Some m)"

definition CreateAccountOp_utf8 :: "createAccountOp \<Rightarrow> bool" where
  "CreateAccountOp_utf8 m \<longleftrightarrow> utf8_valid (ca_AccountID m)"

definition CreateAccountOp_fits :: "createAccountOp \<Rightarrow> bool" where
  "CreateAccountOp_fits m \<longleftrightarrow> in64 (ca_Balance m)"

definition EncodeCreateAccountOp :: "createAccountOp \<Rightarrow> string res" where
  "EncodeCreateAccountOp m = marshal CreateAccountOp_fields CreateAccountOp_utf8 m"

definition DecodeCreateAccountOp :: "string \<Rightarrow> createAccountOp res" where
  "DecodeCreateAccountOp b = unmarshal CreateAccountOp_upd zero_CreateAccountOp b"

lemma CreateAccountOp_step:
  "ca_AccountID m = [] \<Longrightarrow> utf8_valid x \<Longrightarrow>
     upd_all CreateAccountOp_upd (str_field 1 x) m = Some (m\<lparr>ca_AccountID := x\<rparr>)"
  "ca_Balance m = 0 \<Longrightarrow> in64 i \<Longrightarrow>
     upd_all CreateAccountOp_upd (int_field 2 i) m = Some (m\<lparr>ca_Balance := i\<rparr>)"
  by (cases m; auto simp: CreateAccountOp_upd_def field_steps)+

interpretation CreateAccountOp: message CreateAccountOp_fields CreateAccountOp_upd zero_CreateAccountOp CreateAccountOp_utf8 CreateAccountOp_fits
proof
  fix m
  show "list_all num_ok (CreateAccountOp_fields m)" by (simp add: CreateAccountOp_fields_def)
  assume "CreateAccountOp_utf8 m" "CreateAccountOp_fits m" "length (put_fields (CreateAccountOp_fields m)) < wire_max"
  then show "upd_all CreateAccountOp_upd (CreateAccountOp_fields m) zero_CreateAccountOp = Some m"
    by (simp add: CreateAccountOp_fields_def CreateAccountOp_utf8_def CreateAccountOp_fits_def zero_CreateAccountOp_def upd_all_append CreateAccountOp_step del: One_nat_def)
qed

subsection \<open>PaymentOp\<close>

definition zero_PaymentOp :: paymentOp where
  "zero_PaymentOp = \<lparr>pa_AccountID = [], pa_Asset = None, pa_Amount = 0\<rparr>"

definition PaymentOp_fields :: "paymentOp \<Rightarrow> field list" where
  "PaymentOp_fields m =
     str_field 1 (pa_AccountID m) @
     msg_field 2 Asset_fields (pa_Asset m) @
     int_field 3 (pa_Amount m)"

definition PaymentOp_upd :: "field \<Rightarrow> paymentOp \<Rightarrow> paymentOp option" where
  "PaymentOp_upd f m =
     (case f of
        (n, WVarint v) \<Rightarrow> Some
          (if n = 3 then m\<lparr>pa_Amount := i64 (int v)\<rparr>
           else m)
      | (n, WLen s) \<Rightarrow>
          (if n = 1 then read_str s (\<lambda>x. m\<lparr>pa_AccountID := x\<rparr>)
           else if n = 2 then read_msg Asset_upd zero_Asset (pa_Asset m) s (\<lambda>x. m\<lparr>pa_Asset := x\<rparr>)
           else Some m)
      | _ \<Rightarrow> Some m)"

definition PaymentOp_utf8 :: "paymentOp \<Rightarrow> bool" where
  "PaymentOp_utf8 m \<longleftrightarrow> utf8_valid (pa_AccountID m) \<and> pred_option Asset_utf8 (pa_Asset m)"

definition PaymentOp_fits :: "paymentOp \<Rightarrow> bool" where
  "PaymentOp_fits m \<longleftrightarrow> pred_option Asset_fits (pa_Asset m) \<and> in64 (pa_Amount m)"

definition EncodePaymentOp :: "paymentOp \<Rightarrow> string res" where
  "EncodePaymentOp m = marshal PaymentOp_fields PaymentOp_utf8 m"

definition DecodePaymentOp :: "string \<Rightarrow> paymentOp res" where
  "DecodePaymentOp b = unmarshal PaymentOp_upd zero_PaymentOp b"

lemma PaymentOp_step:
  "pa_AccountID m = [] \<Longrightarrow> utf8_valid x \<Longrightarrow>
     upd_all PaymentOp_upd (str_field 1 x) m = Some (m\<lparr>pa_AccountID := x\<rparr>)"
  "pa_Amount m = 0 \<Longrightarrow> in64 i \<Longrightarrow>
     upd_all PaymentOp_upd (int_field 3 i) m = Some (m\<lparr>pa_Amount := i\<rparr>)"
  by (cases m; auto simp: PaymentOp_upd_def field_steps)+

lemma PaymentOp_step_2:
  "pa_Asset m = None \<Longrightarrow> pred_option Asset_utf8 x \<Longrightarrow> pred_option Asset_fits x \<Longrightarrow>
     length (put_fields (msg_field 2 Asset_fields x)) < wire_max \<Longrightarrow>
     upd_all PaymentOp_upd (msg_field 2 Asset_fields x) m = Some (m\<lparr>pa_Asset := x\<rparr>)"
  by (rule Asset.opt_field) (simp_all add: PaymentOp_upd_def)

interpretation PaymentOp: message PaymentOp_fields PaymentOp_upd zero_PaymentOp PaymentOp_utf8 PaymentOp_fits
proof
  fix m
  show "list_all num_ok (PaymentOp_fields m)" by (simp add: PaymentOp_fields_def)
  assume "PaymentOp_utf8 m" "PaymentOp_fits m" "length (put_fields (PaymentOp_fields m)) < wire_max"
  then show "upd_all PaymentOp_upd (PaymentOp_fields m) zero_PaymentOp = Some m"
    by (simp add: PaymentOp_fields_def PaymentOp_utf8_def PaymentOp_fits_def zero_PaymentOp_def upd_all_append PaymentOp_step PaymentOp_step_2 del: One_nat_def)
qed

subsection \<open>PathPaymentOp\<close>

definition zero_PathPaymentOp :: pathPaymentOp where
  "zero_PathPaymentOp = \<lparr>pp_SrcAsset = None, pp_SrcAmount = 0, pp_AccountID = [], pp_DstAsset = None, pp_Path = []\<rparr>"

definition PathPaymentOp_fields :: "pathPaymentOp \<Rightarrow> field list" where
  "PathPaymentOp_fields m =
     msg_field 1 Asset_fields (pp_SrcAsset m) @
     int_field 2 (pp_SrcAmount m) @
     str_field 3 (pp_AccountID m) @
     msg_field 4 Asset_fields (pp_DstAsset m) @
     msgs_field 5 Asset_fields (pp_Path m)"

definition PathPaymentOp_upd :: "field \<Rightarrow> pathPaymentOp \<Rightarrow> pathPaymentOp option" where
  "PathPaymentOp_upd f m =
     (case f of
        (n, WVarint v) \<Rightarrow> Some
          (if n = 2 then m\<lparr>pp_SrcAmount := i64 (int v)\<rparr>
           else m)
      | (n, WLen s) \<Rightarrow>
          (if n = 1 then read_msg Asset_upd zero_Asset (pp_SrcAsset m) s (\<lambda>x. m\<lparr>pp_SrcAsset := x\<rparr>)
           else if n = 3 then read_str s (\<lambda>x. m\<lparr>pp_AccountID := x\<rparr>)
           else if n = 4 then read_msg Asset_upd zero_Asset (pp_DstAsset m) s (\<lambda>x. m\<lparr>pp_DstAsset := x\<rparr>)
           else if n = 5 then map_option (\<lambda>x. m\<lparr>pp_Path := pp_Path m @ [x]\<rparr>) (merge Asset_upd s zero_Asset)
           else Some m)
      | _ \<Rightarrow> Some m)"

definition PathPaymentOp_utf8 :: "pathPaymentOp \<Rightarrow> bool" where
  "PathPaymentOp_utf8 m \<longleftrightarrow> pred_option Asset_utf8 (pp_SrcAsset m) \<and> utf8_valid (pp_AccountID m) \<and> pred_option Asset_utf8 (pp_DstAsset m) \<and> list_all Asset_utf8 (pp_Path m)"

definition PathPaymentOp_fits :: "pathPaymentOp \<Rightarrow> bool" where
  "PathPaymentOp_fits m \<longleftrightarrow> pred_option Asset_fits (pp_SrcAsset m) \<and> in64 (pp_SrcAmount m) \<and> pred_option Asset_fits (pp_DstAsset m) \<and> list_all Asset_fits (pp_Path m)"

lemma PathPaymentOp_step:
  "pp_SrcAmount m = 0 \<Longrightarrow> in64 i \<Longrightarrow>
     upd_all PathPaymentOp_upd (int_field 2 i) m = Some (m\<lparr>pp_SrcAmount := i\<rparr>)"
  "pp_AccountID m = [] \<Longrightarrow> utf8_valid x \<Longrightarrow>
     upd_all PathPaymentOp_upd (str_field 3 x) m = Some (m\<lparr>pp_AccountID := x\<rparr>)"
  by (cases m; auto simp: PathPaymentOp_upd_def field_steps)+

lemma PathPaymentOp_step_1:
  "pp_SrcAsset m = None \<Longrightarrow> pred_option Asset_utf8 x \<Longrightarrow> pred_option Asset_fits x \<Longrightarrow>
     length (put_fields (msg_field 1 Asset_fields x)) < wire_max \<Longrightarrow>
     upd_all PathPaymentOp_upd (msg_field 1 Asset_fields x) m = Some (m\<lparr>pp_SrcAsset := x\<rparr>)"
  by (rule Asset.opt_field) (simp_all add: PathPaymentOp_upd_def)

lemma PathPaymentOp_step_4:
  "pp_DstAsset m = None \<Longrightarrow> pred_option Asset_utf8 x \<Longrightarrow> pred_option Asset_fits x \<Longrightarrow>
     length (put_fields (msg_field 4 Asset_fields x)) < wire_max \<Longrightarrow>
     upd_all PathPaymentOp_upd (msg_field 4 Asset_fields x) m = Some (m\<lparr>pp_DstAsset := x\<rparr>)"
  by (rule Asset.opt_field) (simp_all add: PathPaymentOp_upd_def)

lemma PathPaymentOp_step_5:
  assumes "list_all Asset_utf8 xs" "list_all Asset_fits xs" "length (put_fields (msgs_field 5 Asset_fields xs)) < wire_max"
  shows "upd_all PathPaymentOp_upd (msgs_field 5 Asset_fields xs) m = Some (m\<lparr>pp_Path := pp_Path m @ xs\<rparr>)"
proof -
  have "foldl (\<lambda>m x. m\<lparr>pp_Path := pp_Path m @ [x]\<rparr>) m xs = m\<lparr>pp_Path := pp_Path m @ xs\<rparr>"
    by (induction xs arbitrary: m) simp_all
  then show ?thesis
    using Asset.list_field [OF assms, of PathPaymentOp_upd "\<lambda>m x. m\<lparr>pp_Path := pp_Path m @ [x]\<rparr>" m]
    by (simp add: PathPaymentOp_upd_def)
qed

interpretation PathPaymentOp: message PathPaymentOp_fields PathPaymentOp_upd zero_PathPaymentOp PathPaymentOp_utf8 PathPaymentOp_fits
proof
  fix m
  show "list_all num_ok (PathPaymentOp_fields m)" by (simp add: PathPaymentOp_fields_def)
  assume "PathPaymentOp_utf8 m" "PathPaymentOp_fits m" "length (put_fields (PathPaymentOp_fields m)) < wire_max"
  then show "upd_all PathPaymentOp_upd (PathPaymentOp_fields m) zero_PathPaymentOp = Some m"
    by (simp add: PathPaymentOp_fields_def PathPaymentOp_utf8_def PathPaymentOp_fits_def zero_PathPaymentOp_def upd_all_append PathPaymentOp_step PathPaymentOp_step_1 PathPaymentOp_step_4 PathPaymentOp_step_5 del: One_nat_def)
qed

subsection \<open>TrustOp\<close>

definition zero_TrustOp :: trustOp where
  "zero_TrustOp = \<lparr>to_Asset = None, to_Limit = 0\<rparr>"

definition TrustOp_fields :: "trustOp \<Rightarrow> field list" where
  "TrustOp_fields m =
     msg_field 2 Asset_fields (to_Asset m) @
     int_field 3 (to_Limit m)"

definition TrustOp_upd :: "field \<Rightarrow> trustOp \<Rightarrow> trustOp option" where
  "TrustOp_upd f m =
     (case f of
        (n, WVarint v) \<Rightarrow> Some
          (if n = 3 then m\<lparr>to_Limit := i64 (int v)\<rparr>
           else m)
      | (n, WLen s) \<Rightarrow>
          (if n = 2 then read_msg Asset_upd zero_Asset (to_Asset m) s (\<lambda>x. m\<lparr>to_Asset := x\<rparr>)
           else Some m)
      | _ \<Rightarrow> Some m)"

definition TrustOp_utf8 :: "trustOp \<Rightarrow> bool" where
  "TrustOp_utf8 m \<longleftrightarrow> pred_option Asset_utf8 (to_Asset m)"

definition TrustOp_fits :: "trustOp \<Rightarrow> bool" where
  "TrustOp_fits m \<longleftrightarrow> pred_option Asset_fits (to_Asset m) \<and> in64 (to_Limit m)"

lemma TrustOp_step:
  "to_Limit m = 0 \<Longrightarrow> in64 i \<Longrightarrow>
     upd_all TrustOp_upd (int_field 3 i) m = Some (m\<lparr>to_Limit := i\<rparr>)"
  by (cases m; auto simp: TrustOp_upd_def field_steps)+

lemma TrustOp_step_2:
  "to_Asset m = None \<Longrightarrow> pred_option Asset_utf8 x \<Longrightarrow> pred_option Asset_fits x \<Longrightarrow>
     length (put_fields (msg_field 2 Asset_fields x)) < wire_max \<Longrightarrow>
     upd_all TrustOp_upd (msg_field 2 Asset_fields x) m = Some (m\<lparr>to_Asset := x\<rparr>)"
  by (rule Asset.opt_field) (simp_all add: TrustOp_upd_def)

interpretation TrustOp: message TrustOp_fields TrustOp_upd zero_TrustOp TrustOp_utf8 TrustOp_fits
proof
  fix m
  show "list_all num_ok (TrustOp_fields m)" by (simp add: TrustOp_fields_def)
  assume "TrustOp_utf8 m" "TrustOp_fits m" "length (put_fields (TrustOp_fields m)) < wire_max"
  then show "upd_all TrustOp_upd (TrustOp_fields m) zero_TrustOp = Some m"
    by (simp add: TrustOp_fields_def TrustOp_utf8_def TrustOp_fits_def zero_TrustOp_def upd_all_append TrustOp_step TrustOp_step_2 del: One_nat_def)
qed

subsection \<open>Op\<close>

text \<open>The operation is a oneof: every field of it that is read replaces the one before.\<close>

definition zero_Op :: op where
  "zero_Op = Op CREATE_ACCOUNT None"

definition payload_fields :: "op_payload \<Rightarrow> field list" where
  "payload_fields p =
     (case p of
        PCreateAccount x \<Rightarrow> msg_field 2 CreateAccountOp_fields (Some x)
      | PPayment x \<Rightarrow> msg_field 3 PaymentOp_fields (Some x)
      | PPathPayment x \<Rightarrow> msg_field 4 PathPaymentOp_fields (Some x)
      | PTrust x \<Rightarrow> msg_field 5 TrustOp_fields (Some x))"

definition Op_fields :: "op \<Rightarrow> field list" where
  "Op_fields m =
     int_field 1 (OpType_num (op_Type m)) @
     (case op_Op m of None \<Rightarrow> [] | Some p \<Rightarrow> payload_fields p)"

definition Op_upd :: "field \<Rightarrow> op \<Rightarrow> op option" where
  "Op_upd f m =
     (case f of
        (n, WVarint v) \<Rightarrow> Some (if n = 1 then Op (OpType_of (i32 (int v))) (op_Op m) else m)
      | (n, WLen s) \<Rightarrow>
          (let put = (\<lambda>p. Op (op_Type m) (Some p)) in
           if n = 2 then map_option (\<lambda>x. put (PCreateAccount x)) (merge CreateAccountOp_upd s zero_CreateAccountOp)
           else if n = 3 then map_option (\<lambda>x. put (PPayment x)) (merge PaymentOp_upd s zero_PaymentOp)
           else if n = 4 then map_option (\<lambda>x. put (PPathPayment x)) (merge PathPaymentOp_upd s zero_PathPaymentOp)
           else if n = 5 then map_option (\<lambda>x. put (PTrust x)) (merge TrustOp_upd s zero_TrustOp)
           else Some m)
      | _ \<Rightarrow> Some m)"

definition payload_utf8 :: "op_payload \<Rightarrow> bool" where
  "payload_utf8 p =
     (case p of
        PCreateAccount x \<Rightarrow> CreateAccountOp_utf8 x
      | PPayment x \<Rightarrow> PaymentOp_utf8 x
      | PPathPayment x \<Rightarrow> PathPaymentOp_utf8 x
      | PTrust x \<Rightarrow> TrustOp_utf8 x)"

definition payload_fits :: "op_payload \<Rightarrow> bool" where
  "payload_fits p =
     (case p of
        PCreateAccount x \<Rightarrow> CreateAccountOp_fits x
      | PPayment x \<Rightarrow> PaymentOp_fits x
      | PPathPayment x \<Rightarrow> PathPaymentOp_fits x
      | PTrust x \<Rightarrow> TrustOp_fits x)"

definition Op_utf8 :: "op \<Rightarrow> bool" where
  "Op_utf8 m \<longleftrightarrow> pred_option payload_utf8 (op_Op m)"

definition Op_fits :: "op \<Rightarrow> bool" where
  "Op_fits m \<longleftrightarrow> OpType_fits (op_Type m) \<and> pred_option payload_fits (op_Op m)"

lemma Op_step:
  "op_Type m = CREATE_ACCOUNT \<Longrightarrow> OpType_fits e \<Longrightarrow>
     upd_all Op_upd (int_field 1 (OpType_num e)) m = Some (Op e (op_Op m))"
  by (cases m) (auto simp: Op_upd_def field_steps)

lemma payload_step:
  assumes "payload_utf8 p" "payload_fits p" "length (put_fields (payload_fields p)) < wire_max"
  shows "upd_all Op_upd (payload_fields p) m = Some (Op (op_Type m) (Some p))"
proof -
  note r = msg_field_length [of _ _ _, THEN le_less_trans]
  show ?thesis
    using assms
    by (cases p)
      (auto simp: payload_utf8_def payload_fits_def payload_fields_def msg_field_def Op_upd_def
        field_length [of _ _ "[_]", THEN le_less_trans]
        CreateAccountOp.merge_put PaymentOp.merge_put PathPaymentOp.merge_put TrustOp.merge_put)
qed

interpretation Op: message Op_fields Op_upd zero_Op Op_utf8 Op_fits
proof
  fix m
  show "list_all num_ok (Op_fields m)"
    by (auto simp: Op_fields_def payload_fields_def split: option.splits op_payload.splits)
  assume "Op_utf8 m" "Op_fits m" "length (put_fields (Op_fields m)) < wire_max"
  then show "upd_all Op_upd (Op_fields m) zero_Op = Some m"
    by (cases m)
      (auto simp: Op_fields_def Op_utf8_def Op_fits_def zero_Op_def upd_all_append Op_step payload_step
        simp del: One_nat_def
        split: option.splits)
qed

subsection \<open>Tx\<close>

definition zero_Tx :: tx where
  "zero_Tx = \<lparr>tx_AccountID = [], tx_Fee = 0, tx_Note = [], tx_SeqNum = 0, tx_OpList = []\<rparr>"

definition Tx_fields :: "tx \<Rightarrow> field list" where
  "Tx_fields m =
     str_field 1 (tx_AccountID m) @
     int_field 2 (tx_Fee m) @
     str_field 3 (tx_Note m) @
     word_field 4 (tx_SeqNum m) @
     msgs_field 5 Op_fields (tx_OpList m)"

definition Tx_upd :: "field \<Rightarrow> tx \<Rightarrow> tx option" where
  "Tx_upd f m =
     (case f of
        (n, WVarint v) \<Rightarrow> Some
          (if n = 2 then m\<lparr>tx_Fee := i64 (int v)\<rparr>
           else if n = 4 then m\<lparr>tx_SeqNum := word_of_nat v\<rparr>
           else m)
      | (n, WLen s) \<Rightarrow>
          (if n = 1 then read_str s (\<lambda>x. m\<lparr>tx_AccountID := x\<rparr>)
           else if n = 3 then read_str s (\<lambda>x. m\<lparr>tx_Note := x\<rparr>)
           else if n = 5 then map_option (\<lambda>x. m\<lparr>tx_OpList := tx_OpList m @ [x]\<rparr>) (merge Op_upd s zero_Op)
           else Some m)
      | _ \<Rightarrow> Some m)"

definition Tx_utf8 :: "tx \<Rightarrow> bool" where
  "Tx_utf8 m \<longleftrightarrow> utf8_valid (tx_AccountID m) \<and> utf8_valid (tx_Note m) \<and> list_all Op_utf8 (tx_OpList m)"

definition Tx_fits :: "tx \<Rightarrow> bool" where
  "Tx_fits m \<longleftrightarrow> in64 (tx_Fee m) \<and> list_all Op_fits (tx_OpList m)"

definition EncodeTx :: "tx \<Rightarrow> string res" where
  "EncodeTx m = marshal Tx_fields Tx_utf8 m"

definition DecodeTx :: "string \<Rightarrow> tx res" where
  "DecodeTx b = unmarshal Tx_upd zero_Tx b"

lemma Tx_step:
  "tx_AccountID m = [] \<Longrightarrow> utf8_valid x \<Longrightarrow>
     upd_all Tx_upd (str_field 1 x) m = Some (m\<lparr>tx_AccountID := x\<rparr>)"
  "tx_Fee m = 0 \<Longrightarrow> in64 i \<Longrightarrow>
     upd_all Tx_upd (int_field 2 i) m = Some (m\<lparr>tx_Fee := i\<rparr>)"
  "tx_Note m = [] \<Longrightarrow> utf8_valid x \<Longrightarrow>
     upd_all Tx_upd (str_field 3 x) m = Some (m\<lparr>tx_Note := x\<rparr>)"
  "tx_SeqNum m = 0 \<Longrightarrow> 
     upd_all Tx_upd (word_field 4 w4) m = Some (m\<lparr>tx_SeqNum := w4\<rparr>)"
  by (cases m; auto simp: Tx_upd_def field_steps)+

lemma Tx_step_5:
  assumes "list_all Op_utf8 xs" "list_all Op_fits xs" "length (put_fields (msgs_field 5 Op_fields xs)) < wire_max"
  shows "upd_all Tx_upd (msgs_field 5 Op_fields xs) m = Some (m\<lparr>tx_OpList := tx_OpList m @ xs\<rparr>)"
proof -
  have "foldl (\<lambda>m x. m\<lparr>tx_OpList := tx_OpList m @ [x]\<rparr>) m xs = m\<lparr>tx_OpList := tx_OpList m @ xs\<rparr>"
    by (induction xs arbitrary: m) simp_all
  then show ?thesis
    using Op.list_field [OF assms, of Tx_upd "\<lambda>m x. m\<lparr>tx_OpList := tx_OpList m @ [x]\<rparr>" m]
    by (simp add: Tx_upd_def)
qed

interpretation Tx: message Tx_fields Tx_upd zero_Tx Tx_utf8 Tx_fits
proof
  fix m
  show "list_all num_ok (Tx_fields m)" by (simp add: Tx_fields_def)
  assume "Tx_utf8 m" "Tx_fits m" "length (put_fields (Tx_fields m)) < wire_max"
  then show "upd_all Tx_upd (Tx_fields m) zero_Tx = Some m"
    by (simp add: Tx_fields_def Tx_utf8_def Tx_fits_def zero_Tx_def upd_all_append Tx_step Tx_step_5 del: One_nat_def)
qed

subsection \<open>TxSet\<close>

definition zero_TxSet :: txset where
  "zero_TxSet = TxSet [] []"

definition TxSet_fields :: "txset \<Rightarrow> field list" where
  "TxSet_fields m =
     str_field 1 (ts_PrevLedgerHash m) @
     msgs_field 2 Tx_fields (ts_TxList m)"

definition TxSet_upd :: "field \<Rightarrow> txset \<Rightarrow> txset option" where
  "TxSet_upd f m =
     (case f of
        (n, WLen s) \<Rightarrow>
          (if n = 1 then read_str s (\<lambda>x. TxSet x (ts_TxList m))
           else if n = 2 then map_option (\<lambda>x. TxSet (ts_PrevLedgerHash m) (ts_TxList m @ [x])) (merge Tx_upd s zero_Tx)
           else Some m)
      | _ \<Rightarrow> Some m)"

definition TxSet_utf8 :: "txset \<Rightarrow> bool" where
  "TxSet_utf8 m \<longleftrightarrow> utf8_valid (ts_PrevLedgerHash m) \<and> list_all Tx_utf8 (ts_TxList m)"

definition TxSet_fits :: "txset \<Rightarrow> bool" where
  "TxSet_fits m \<longleftrightarrow> list_all Tx_fits (ts_TxList m)"

definition EncodeTxSet :: "txset \<Rightarrow> string res" where
  "EncodeTxSet m = marshal TxSet_fields TxSet_utf8 m"

definition DecodeTxSet :: "string \<Rightarrow> txset res" where
  "DecodeTxSet b = unmarshal TxSet_upd zero_TxSet b"

lemma TxSet_step:
  "ts_PrevLedgerHash m = [] \<Longrightarrow> utf8_valid x \<Longrightarrow>
     upd_all TxSet_upd (str_field 1 x) m = Some (TxSet x (ts_TxList m))"
  by (cases m; auto simp: TxSet_upd_def field_steps)+

lemma TxSet_step_2:
  assumes "list_all Tx_utf8 xs" "list_all Tx_fits xs" "length (put_fields (msgs_field 2 Tx_fields xs)) < wire_max"
  shows "upd_all TxSet_upd (msgs_field 2 Tx_fields xs) m = Some (TxSet (ts_PrevLedgerHash m) (ts_TxList m @ xs))"
proof -
  have "foldl (\<lambda>m x. TxSet (ts_PrevLedgerHash m) (ts_TxList m @ [x])) m xs = TxSet (ts_PrevLedgerHash m) (ts_TxList m @ xs)"
    by (induction xs arbitrary: m) simp_all
  then show ?thesis
    using Tx.list_field [OF assms, of TxSet_upd "\<lambda>m x. TxSet (ts_PrevLedgerHash m) (ts_TxList m @ [x])" m]
    by (simp add: TxSet_upd_def)
qed

interpretation TxSet: message TxSet_fields TxSet_upd zero_TxSet TxSet_utf8 TxSet_fits
proof
  fix m
  show "list_all num_ok (TxSet_fields m)" by (simp add: TxSet_fields_def)
  assume "TxSet_utf8 m" "TxSet_fits m" "length (put_fields (TxSet_fields m)) < wire_max"
  then show "upd_all TxSet_upd (TxSet_fields m) zero_TxSet = Some m"
    by (simp add: TxSet_fields_def TxSet_utf8_def TxSet_fits_def zero_TxSet_def upd_all_append TxSet_step TxSet_step_2 del: One_nat_def)
qed

subsection \<open>LedgerHeader\<close>

definition zero_LedgerHeader :: ledger_header where
  "zero_LedgerHeader = \<lparr>lh_Version = 0, lh_PrevLedgerHash = [], lh_TxSetHash = [], lh_ConsensusValue = [], lh_MaxTxListSize = 0, lh_SeqNum = 0, lh_TotalTokens = 0, lh_BaseFee = 0, lh_BaseReserve = 0\<rparr>"

definition LedgerHeader_fields :: "ledger_header \<Rightarrow> field list" where
  "LedgerHeader_fields m =
     word_field 1 (lh_Version m) @
     str_field 2 (lh_PrevLedgerHash m) @
     str_field 3 (lh_TxSetHash m) @
     str_field 4 (lh_ConsensusValue m) @
     word_field 5 (lh_MaxTxListSize m) @
     word_field 6 (lh_SeqNum m) @
     int_field 7 (lh_TotalTokens m) @
     int_field 8 (lh_BaseFee m) @
     int_field 9 (lh_BaseReserve m)"

definition LedgerHeader_upd :: "field \<Rightarrow> ledger_header \<Rightarrow> ledger_header option" where
  "LedgerHeader_upd f m =
     (case f of
        (n, WVarint v) \<Rightarrow> Some
          (if n = 1 then m\<lparr>lh_Version := word_of_nat v\<rparr>
           else if n = 5 then m\<lparr>lh_MaxTxListSize := word_of_nat v\<rparr>
           else if n = 6 then m\<lparr>lh_SeqNum := word_of_nat v\<rparr>
           else if n = 7 then m\<lparr>lh_TotalTokens := i64 (int v)\<rparr>
           else if n = 8 then m\<lparr>lh_BaseFee := i64 (int v)\<rparr>
           else if n = 9 then m\<lparr>lh_BaseReserve := i64 (int v)\<rparr>
           else m)
      | (n, WLen s) \<Rightarrow>
          (if n = 2 then read_str s (\<lambda>x. m\<lparr>lh_PrevLedgerHash := x\<rparr>)
           else if n = 3 then read_str s (\<lambda>x. m\<lparr>lh_TxSetHash := x\<rparr>)
           else if n = 4 then read_str s (\<lambda>x. m\<lparr>lh_ConsensusValue := x\<rparr>)
           else Some m)
      | _ \<Rightarrow> Some m)"

definition LedgerHeader_utf8 :: "ledger_header \<Rightarrow> bool" where
  "LedgerHeader_utf8 m \<longleftrightarrow> utf8_valid (lh_PrevLedgerHash m) \<and> utf8_valid (lh_TxSetHash m) \<and> utf8_valid (lh_ConsensusValue m)"

definition LedgerHeader_fits :: "ledger_header \<Rightarrow> bool" where
  "LedgerHeader_fits m \<longleftrightarrow> in64 (lh_TotalTokens m) \<and> in64 (lh_BaseFee m) \<and> in64 (lh_BaseReserve m)"

definition EncodeLedgerHeader :: "ledger_header \<Rightarrow> string res" where
  "EncodeLedgerHeader m = marshal LedgerHeader_fields LedgerHeader_utf8 m"

definition DecodeLedgerHeader :: "string \<Rightarrow> ledger_header res" where
  "DecodeLedgerHeader b = unmarshal LedgerHeader_upd zero_LedgerHeader b"

lemma LedgerHeader_step:
  "lh_Version m = 0 \<Longrightarrow> 
     upd_all LedgerHeader_upd (word_field 1 w1) m = Some (m\<lparr>lh_Version := w1\<rparr>)"
  "lh_PrevLedgerHash m = [] \<Longrightarrow> utf8_valid x \<Longrightarrow>
     upd_all LedgerHeader_upd (str_field 2 x) m = Some (m\<lparr>lh_PrevLedgerHash := x\<rparr>)"
  "lh_TxSetHash m = [] \<Longrightarrow> utf8_valid x \<Longrightarrow>
     upd_all LedgerHeader_upd (str_field 3 x) m = Some (m\<lparr>lh_TxSetHash := x\<rparr>)"
  "lh_ConsensusValue m = [] \<Longrightarrow> utf8_valid x \<Longrightarrow>
     upd_all LedgerHeader_upd (str_field 4 x) m = Some (m\<lparr>lh_ConsensusValue := x\<rparr>)"
  "lh_MaxTxListSize m = 0 \<Longrightarrow> 
     upd_all LedgerHeader_upd (word_field 5 w5) m = Some (m\<lparr>lh_MaxTxListSize := w5\<rparr>)"
  "lh_SeqNum m = 0 \<Longrightarrow> 
     upd_all LedgerHeader_upd (word_field 6 w6) m = Some (m\<lparr>lh_SeqNum := w6\<rparr>)"
  "lh_TotalTokens m = 0 \<Longrightarrow> in64 i \<Longrightarrow>
     upd_all LedgerHeader_upd (int_field 7 i) m = Some (m\<lparr>lh_TotalTokens := i\<rparr>)"
  "lh_BaseFee m = 0 \<Longrightarrow> in64 i \<Longrightarrow>
     upd_all LedgerHeader_upd (int_field 8 i) m = Some (m\<lparr>lh_BaseFee := i\<rparr>)"
  "lh_BaseReserve m = 0 \<Longrightarrow> in64 i \<Longrightarrow>
     upd_all LedgerHeader_upd (int_field 9 i) m = Some (m\<lparr>lh_BaseReserve := i\<rparr>)"
  by (cases m; auto simp: LedgerHeader_upd_def field_steps)+

interpretation LedgerHeader: message LedgerHeader_fields LedgerHeader_upd zero_LedgerHeader LedgerHeader_utf8 LedgerHeader_fits
proof
  fix m
  show "list_all num_ok (LedgerHeader_fields m)" by (simp add: LedgerHeader_fields_def)
  assume "LedgerHeader_utf8 m" "LedgerHeader_fits m" "length (put_fields (LedgerHeader_fields m)) < wire_max"
  then show "upd_all LedgerHeader_upd (LedgerHeader_fields m) zero_LedgerHeader = Some m"
    by (simp add: LedgerHeader_fields_def LedgerHeader_utf8_def LedgerHeader_fits_def zero_LedgerHeader_def upd_all_append LedgerHeader_step del: One_nat_def)
qed

subsection \<open>Ledger\<close>

definition zero_Ledger :: ledger where
  "zero_Ledger = Ledger None None"

definition Ledger_fields :: "ledger \<Rightarrow> field list" where
  "Ledger_fields m =
     msg_field 1 LedgerHeader_fields (le_LedgerHeader m) @
     msg_field 2 TxSet_fields (le_TxSet m)"

definition Ledger_upd :: "field \<Rightarrow> ledger \<Rightarrow> ledger option" where
  "Ledger_upd f m =
     (case f of
        (n, WLen s) \<Rightarrow>
          (if n = 1 then read_msg LedgerHeader_upd zero_LedgerHeader (le_LedgerHeader m) s (\<lambda>x. Ledger x (le_TxSet m))
           else if n = 2 then read_msg TxSet_upd zero_TxSet (le_TxSet m) s (\<lambda>x. Ledger (le_LedgerHeader m) x)
           else Some m)
      | _ \<Rightarrow> Some m)"

definition Ledger_utf8 :: "ledger \<Rightarrow> bool" where
  "Ledger_utf8 m \<longleftrightarrow> pred_option LedgerHeader_utf8 (le_LedgerHeader m) \<and> pred_option TxSet_utf8 (le_TxSet m)"

definition Ledger_fits :: "ledger \<Rightarrow> bool" where
  "Ledger_fits m \<longleftrightarrow> pred_option LedgerHeader_fits (le_LedgerHeader m) \<and> pred_option TxSet_fits (le_TxSet m)"

definition EncodeLedger :: "ledger \<Rightarrow> string res" where
  "EncodeLedger m = marshal Ledger_fields Ledger_utf8 m"

definition DecodeLedger :: "string \<Rightarrow> ledger res" where
  "DecodeLedger b = unmarshal Ledger_upd zero_Ledger b"

lemma Ledger_step_1:
  "le_LedgerHeader m = None \<Longrightarrow> pred_option LedgerHeader_utf8 x \<Longrightarrow> pred_option LedgerHeader_fits x \<Longrightarrow>
     length (put_fields (msg_field 1 LedgerHeader_fields x)) < wire_max \<Longrightarrow>
     upd_all Ledger_upd (msg_field 1 LedgerHeader_fields x) m = Some (Ledger x (le_TxSet m))"
  by (rule LedgerHeader.opt_field; cases m; simp add: Ledger_upd_def)

lemma Ledger_step_2:
  "le_TxSet m = None \<Longrightarrow> pred_option TxSet_utf8 x \<Longrightarrow> pred_option TxSet_fits x \<Longrightarrow>
     length (put_fields (msg_field 2 TxSet_fields x)) < wire_max \<Longrightarrow>
     upd_all Ledger_upd (msg_field 2 TxSet_fields x) m = Some (Ledger (le_LedgerHeader m) x)"
  by (rule TxSet.opt_field; cases m; simp add: Ledger_upd_def)

interpretation Ledger: message Ledger_fields Ledger_upd zero_Ledger Ledger_utf8 Ledger_fits
proof
  fix m
  show "list_all num_ok (Ledger_fields m)" by (simp add: Ledger_fields_def)
  assume "Ledger_utf8 m" "Ledger_fits m" "length (put_fields (Ledger_fields m)) < wire_max"
  then show "upd_all Ledger_upd (Ledger_fields m) zero_Ledger = Some m"
    by (simp add: Ledger_fields_def Ledger_utf8_def Ledger_fits_def zero_Ledger_def upd_all_append Ledger_step_1 Ledger_step_2 del: One_nat_def)
qed

subsection \<open>LedgerCheckpoint\<close>

definition zero_LedgerCheckpoint :: ledger_checkpoint where
  "zero_LedgerCheckpoint = \<lparr>lc_LastCloseTime = 0, lc_LedgerHeaderCount = 0, lc_LargestConsensusIndex = 0, lc_PrevLedgerHeader = None, lc_PrevLedgerHeaderHash = [], lc_CurrLedgerHeader = None, lc_CurrLedgerHeaderHash = []\<rparr>"

definition LedgerCheckpoint_fields :: "ledger_checkpoint \<Rightarrow> field list" where
  "LedgerCheckpoint_fields m =
     int_field 1 (lc_LastCloseTime m) @
     int_field 2 (lc_LedgerHeaderCount m) @
     word_field 3 (lc_LargestConsensusIndex m) @
     msg_field 4 LedgerHeader_fields (lc_PrevLedgerHeader m) @
     str_field 5 (lc_PrevLedgerHeaderHash m) @
     msg_field 6 LedgerHeader_fields (lc_CurrLedgerHeader m) @
     str_field 7 (lc_CurrLedgerHeaderHash m)"

definition LedgerCheckpoint_upd :: "field \<Rightarrow> ledger_checkpoint \<Rightarrow> ledger_checkpoint option" where
  "LedgerCheckpoint_upd f m =
     (case f of
        (n, WVarint v) \<Rightarrow> Some
          (if n = 1 then m\<lparr>lc_LastCloseTime := i64 (int v)\<rparr>
           else if n = 2 then m\<lparr>lc_LedgerHeaderCount := i64 (int v)\<rparr>
           else if n = 3 then m\<lparr>lc_LargestConsensusIndex := word_of_nat v\<rparr>
           else m)
      | (n, WLen s) \<Rightarrow>
          (if n = 4 then read_msg LedgerHeader_upd zero_LedgerHeader (lc_PrevLedgerHeader m) s (\<lambda>x. m\<lparr>lc_PrevLedgerHeader := x\<rparr>)
           else if n = 5 then read_str s (\<lambda>x. m\<lparr>lc_PrevLedgerHeaderHash := x\<rparr>)
           else if n = 6 then read_msg LedgerHeader_upd zero_LedgerHeader (lc_CurrLedgerHeader m) s (\<lambda>x. m\<lparr>lc_CurrLedgerHeader := x\<rparr>)
           else if n = 7 then read_str s (\<lambda>x. m\<lparr>lc_CurrLedgerHeaderHash := x\<rparr>)
           else Some m)
      | _ \<Rightarrow> Some m)"

definition LedgerCheckpoint_utf8 :: "ledger_checkpoint \<Rightarrow> bool" where
  "LedgerCheckpoint_utf8 m \<longleftrightarrow> pred_option LedgerHeader_utf8 (lc_PrevLedgerHeader m) \<and> utf8_valid (lc_PrevLedgerHeaderHash m) \<and> pred_option LedgerHeader_utf8 (lc_CurrLedgerHeader m) \<and> utf8_valid (lc_CurrLedgerHeaderHash m)"

definition LedgerCheckpoint_fits :: "ledger_checkpoint \<Rightarrow> bool" where
  "LedgerCheckpoint_fits m \<longleftrightarrow> in64 (lc_LastCloseTime m) \<and> in64 (lc_LedgerHeaderCount m) \<and> pred_option LedgerHeader_fits (lc_PrevLedgerHeader m) \<and> pred_option LedgerHeader_fits (lc_CurrLedgerHeader m)"

definition EncodeLedgerCheckpoint :: "ledger_checkpoint \<Rightarrow> string res" where
  "EncodeLedgerCheckpoint m = marshal LedgerCheckpoint_fields LedgerCheckpoint_utf8 m"

definition DecodeLedgerCheckpoint :: "string \<Rightarrow> ledger_checkpoint res" where
  "DecodeLedgerCheckpoint b = unmarshal LedgerCheckpoint_upd zero_LedgerCheckpoint b"

lemma LedgerCheckpoint_step:
  "lc_LastCloseTime m = 0 \<Longrightarrow> in64 i \<Longrightarrow>
     upd_all LedgerCheckpoint_upd (int_field 1 i) m = Some (m\<lparr>lc_LastCloseTime := i\<rparr>)"
  "lc_LedgerHeaderCount m = 0 \<Longrightarrow> in64 i \<Longrightarrow>
     upd_all LedgerCheckpoint_upd (int_field 2 i) m = Some (m\<lparr>lc_LedgerHeaderCount := i\<rparr>)"
  "lc_LargestConsensusIndex m = 0 \<Longrightarrow> 
     upd_all LedgerCheckpoint_upd (word_field 3 w3) m = Some (m\<lparr>lc_LargestConsensusIndex := w3\<rparr>)"
  "lc_PrevLedgerHeaderHash m = [] \<Longrightarrow> utf8_valid x \<Longrightarrow>
     upd_all LedgerCheckpoint_upd (str_field 5 x) m = Some (m\<lparr>lc_PrevLedgerHeaderHash := x\<rparr>)"
  "lc_CurrLedgerHeaderHash m = [] \<Longrightarrow> utf8_valid x \<Longrightarrow>
     upd_all LedgerCheckpoint_upd (str_field 7 x) m = Some (m\<lparr>lc_CurrLedgerHeaderHash := x\<rparr>)"
  by (cases m; auto simp: LedgerCheckpoint_upd_def field_steps)+

lemma LedgerCheckpoint_step_4:
  "lc_PrevLedgerHeader m = None \<Longrightarrow> pred_option LedgerHeader_utf8 x \<Longrightarrow> pred_option LedgerHeader_fits x \<Longrightarrow>
     length (put_fields (msg_field 4 LedgerHeader_fields x)) < wire_max \<Longrightarrow>
     upd_all LedgerCheckpoint_upd (msg_field 4 LedgerHeader_fields x) m = Some (m\<lparr>lc_PrevLedgerHeader := x\<rparr>)"
  by (rule LedgerHeader.opt_field) (simp_all add: LedgerCheckpoint_upd_def)

lemma LedgerCheckpoint_step_6:
  "lc_CurrLedgerHeader m = None \<Longrightarrow> pred_option LedgerHeader_utf8 x \<Longrightarrow> pred_option LedgerHeader_fits x \<Longrightarrow>
     length (put_fields (msg_field 6 LedgerHeader_fields x)) < wire_max \<Longrightarrow>
     upd_all LedgerCheckpoint_upd (msg_field 6 LedgerHeader_fields x) m = Some (m\<lparr>lc_CurrLedgerHeader := x\<rparr>)"
  by (rule LedgerHeader.opt_field) (simp_all add: LedgerCheckpoint_upd_def)

interpretation LedgerCheckpoint: message LedgerCheckpoint_fields LedgerCheckpoint_upd zero_LedgerCheckpoint LedgerCheckpoint_utf8 LedgerCheckpoint_fits
proof
  fix m
  show "list_all num_ok (LedgerCheckpoint_fields m)" by (simp add: LedgerCheckpoint_fields_def)
  assume "LedgerCheckpoint_utf8 m" "LedgerCheckpoint_fits m" "length (put_fields (LedgerCheckpoint_fields m)) < wire_max"
  then show "upd_all LedgerCheckpoint_upd (LedgerCheckpoint_fields m) zero_LedgerCheckpoint = Some m"
    by (simp add: LedgerCheckpoint_fields_def LedgerCheckpoint_utf8_def LedgerCheckpoint_fits_def zero_LedgerCheckpoint_def upd_all_append LedgerCheckpoint_step LedgerCheckpoint_step_4 LedgerCheckpoint_step_6 del: One_nat_def)
qed

subsection \<open>TxStatus\<close>

definition zero_TxStatus :: tx_status where
  "zero_TxStatus = TxStatus NOTEXIST [] []"

definition TxStatus_fields :: "tx_status \<Rightarrow> field list" where
  "TxStatus_fields m =
     int_field 1 (TxStatusCode_num (st_StatusCode m)) @
     str_field 2 (st_ErrorMessage m) @
     str_field 3 (st_Data m)"

definition TxStatus_upd :: "field \<Rightarrow> tx_status \<Rightarrow> tx_status option" where
  "TxStatus_upd f m =
     (case f of
        (n, WVarint v) \<Rightarrow> Some
          (if n = 1 then TxStatus (TxStatusCode_of (i32 (int v))) (st_ErrorMessage m) (st_Data m)
           else m)
      | (n, WLen s) \<Rightarrow>
          (if n = 2 then read_str s (\<lambda>x. TxStatus (st_StatusCode m) x (st_Data m))
           else if n = 3 then Some (TxStatus (st_StatusCode m) (st_ErrorMessage m) s)
           else Some m)
      | _ \<Rightarrow> Some m)"

definition TxStatus_utf8 :: "tx_status \<Rightarrow> bool" where
  "TxStatus_utf8 m \<longleftrightarrow> utf8_valid (st_ErrorMessage m)"

definition TxStatus_fits :: "tx_status \<Rightarrow> bool" where
  "TxStatus_fits m \<longleftrightarrow> TxStatusCode_fits (st_StatusCode m)"

definition EncodeTxStatus :: "tx_status \<Rightarrow> string res" where
  "EncodeTxStatus m = marshal TxStatus_fields TxStatus_utf8 m"

definition DecodeTxStatus :: "string \<Rightarrow> tx_status res" where
  "DecodeTxStatus b = unmarshal TxStatus_upd zero_TxStatus b"

lemma TxStatus_step:
  "st_StatusCode m = NOTEXIST \<Longrightarrow> TxStatusCode_fits e \<Longrightarrow>
     upd_all TxStatus_upd (int_field 1 (TxStatusCode_num e)) m = Some (TxStatus e (st_ErrorMessage m) (st_Data m))"
  "st_ErrorMessage m = [] \<Longrightarrow> utf8_valid x \<Longrightarrow>
     upd_all TxStatus_upd (str_field 2 x) m = Some (TxStatus (st_StatusCode m) x (st_Data m))"
  "st_Data m = [] \<Longrightarrow> 
     upd_all TxStatus_upd (str_field 3 x) m = Some (TxStatus (st_StatusCode m) (st_ErrorMessage m) x)"
  by (cases m; auto simp: TxStatus_upd_def field_steps)+

interpretation TxStatus: message TxStatus_fields TxStatus_upd zero_TxStatus TxStatus_utf8 TxStatus_fits
proof
  fix m
  show "list_all num_ok (TxStatus_fields m)" by (simp add: TxStatus_fields_def)
  assume "TxStatus_utf8 m" "TxStatus_fits m" "length (put_fields (TxStatus_fields m)) < wire_max"
  then show "upd_all TxStatus_upd (TxStatus_fields m) zero_TxStatus = Some m"
    by (simp add: TxStatus_fields_def TxStatus_utf8_def TxStatus_fits_def zero_TxStatus_def upd_all_append TxStatus_step del: One_nat_def)
qed

subsection \<open>ConsensusValue\<close>

definition zero_ConsensusValue :: consensus_value where
  "zero_ConsensusValue = ConsensusValue [] 0"

definition ConsensusValue_fields :: "consensus_value \<Rightarrow> field list" where
  "ConsensusValue_fields m =
     str_field 1 (TxSetHash m) @
     int_field 2 (ProposeTime m)"

definition ConsensusValue_upd :: "field \<Rightarrow> consensus_value \<Rightarrow> consensus_value option" where
  "ConsensusValue_upd f m =
     (case f of
        (n, WVarint v) \<Rightarrow> Some
          (if n = 2 then ConsensusValue (TxSetHash m) (i64 (int v))
           else m)
      | (n, WLen s) \<Rightarrow>
          (if n = 1 then read_str s (\<lambda>x. ConsensusValue x (ProposeTime m))
           else Some m)
      | _ \<Rightarrow> Some m)"

definition ConsensusValue_utf8 :: "consensus_value \<Rightarrow> bool" where
  "ConsensusValue_utf8 m \<longleftrightarrow> utf8_valid (TxSetHash m)"

definition ConsensusValue_fits :: "consensus_value \<Rightarrow> bool" where
  "ConsensusValue_fits m \<longleftrightarrow> in64 (ProposeTime m)"

definition EncodeConsensusValue :: "consensus_value \<Rightarrow> string res" where
  "EncodeConsensusValue m = marshal ConsensusValue_fields ConsensusValue_utf8 m"

definition DecodeConsensusValue :: "string \<Rightarrow> consensus_value res" where
  "DecodeConsensusValue b = unmarshal ConsensusValue_upd zero_ConsensusValue b"

lemma ConsensusValue_step:
  "TxSetHash m = [] \<Longrightarrow> utf8_valid x \<Longrightarrow>
     upd_all ConsensusValue_upd (str_field 1 x) m = Some (ConsensusValue x (ProposeTime m))"
  "ProposeTime m = 0 \<Longrightarrow> in64 i \<Longrightarrow>
     upd_all ConsensusValue_upd (int_field 2 i) m = Some (ConsensusValue (TxSetHash m) i)"
  by (cases m; auto simp: ConsensusValue_upd_def field_steps)+

interpretation ConsensusValue: message ConsensusValue_fields ConsensusValue_upd zero_ConsensusValue ConsensusValue_utf8 ConsensusValue_fits
proof
  fix m
  show "list_all num_ok (ConsensusValue_fields m)" by (simp add: ConsensusValue_fields_def)
  assume "ConsensusValue_utf8 m" "ConsensusValue_fits m" "length (put_fields (ConsensusValue_fields m)) < wire_max"
  then show "upd_all ConsensusValue_upd (ConsensusValue_fields m) zero_ConsensusValue = Some m"
    by (simp add: ConsensusValue_fields_def ConsensusValue_utf8_def ConsensusValue_fits_def zero_ConsensusValue_def upd_all_append ConsensusValue_step del: One_nat_def)
qed

section \<open>Round trips\<close>

lemmas encode_defs = EncodeAccount_def EncodeAsset_def EncodeTrust_def EncodeOffer_def EncodeTx_def
  EncodeTxSet_def EncodeLedgerHeader_def EncodeConsensusValue_def EncodeCreateAccountOp_def
  EncodePaymentOp_def EncodeLedger_def EncodeLedgerCheckpoint_def EncodeTxStatus_def

lemmas decode_defs = DecodeAccount_def DecodeAsset_def DecodeTrust_def DecodeOffer_def DecodeTx_def
  DecodeTxSet_def DecodeLedgerHeader_def DecodeConsensusValue_def DecodeCreateAccountOp_def
  DecodePaymentOp_def DecodeLedger_def DecodeLedgerCheckpoint_def DecodeTxStatus_def

lemma EncodeAccount_decodes:
  "EncodeAccount m = Inr b \<Longrightarrow> Account_fits m \<Longrightarrow> length b < wire_max \<Longrightarrow> DecodeAccount b = Inr m"
  unfolding encode_defs decode_defs by (rule Account.round_trip)

lemma EncodeTrust_decodes:
  "EncodeTrust m = Inr b \<Longrightarrow> Trust_fits m \<Longrightarrow> length b < wire_max \<Longrightarrow> DecodeTrust b = Inr m"
  unfolding encode_defs decode_defs by (rule Trust.round_trip)

lemma EncodeOffer_decodes:
  "EncodeOffer m = Inr b \<Longrightarrow> Offer_fits m \<Longrightarrow> length b < wire_max \<Longrightarrow> DecodeOffer b = Inr m"
  unfolding encode_defs decode_defs by (rule Offer.round_trip)

lemma EncodeTx_decodes:
  "EncodeTx m = Inr b \<Longrightarrow> Tx_fits m \<Longrightarrow> length b < wire_max \<Longrightarrow> DecodeTx b = Inr m"
  unfolding encode_defs decode_defs by (rule Tx.round_trip)

text \<open>
  C38.  Reading back what was stored: a transaction set that the encoder accepts, with its numbers in
  the range of their types, is what the decoder returns for the encoded bytes, down to the assets in
  the operations of its transactions.
\<close>

theorem txset_round_trip:
  assumes "EncodeTxSet m = Inr b" "TxSet_fits m" "length b < wire_max"
  shows "DecodeTxSet b = Inr m"
  using assms unfolding encode_defs decode_defs by (rule TxSet.round_trip)

definition sample_tx :: tx where
  "sample_tx =
     \<lparr>tx_AccountID = ''alice'', tx_Fee = 10, tx_Note = [], tx_SeqNum = 7,
      tx_OpList = [Op PAYMENT (Some (PPayment \<lparr>pa_AccountID = ''bob'', pa_Asset = Some (Asset NATIVE ''ULU'' []), pa_Amount = 5\<rparr>))]\<rparr>"

lemmas sample_tx_eval = sample_tx_def Tx_utf8_def Tx_fits_def Op_utf8_def Op_fits_def payload_utf8_def
  payload_fits_def PaymentOp_utf8_def PaymentOp_fits_def Asset_utf8_def Asset_fits_def
  AssetType_fits_def AssetType_of_def AssetType_num_def OpType_fits_def OpType_of_def OpType_num_def
  in64_def in32_def

theorem txset_round_trip_witness:
  "DecodeTxSet (put_fields (TxSet_fields (TxSet ''prev'' [sample_tx]))) = Inr (TxSet ''prev'' [sample_tx])"
proof (rule txset_round_trip)
  show "EncodeTxSet (TxSet ''prev'' [sample_tx]) = Inr (put_fields (TxSet_fields (TxSet ''prev'' [sample_tx])))"
    by (simp add: EncodeTxSet_def marshal_def TxSet_utf8_def sample_tx_eval)
  show "TxSet_fits (TxSet ''prev'' [sample_tx])"
    by (simp add: TxSet_fits_def sample_tx_eval)
  have "length (put_fields (TxSet_fields (TxSet ''prev'' [sample_tx]))) < 1000" by code_simp
  then show "length (put_fields (TxSet_fields (TxSet ''prev'' [sample_tx]))) < wire_max"
    by (simp add: wire_max_def)
qed

text \<open>
  A hash identifies a transaction as well as the hash function identifies bytes: two transactions
  with the same encoding are the same transaction.
\<close>

theorem tx_encoding_injective:
  assumes "EncodeTx m = Inr b" "EncodeTx m' = Inr b" "Tx_fits m" "Tx_fits m'" "length b < wire_max"
  shows "m = m'"
  using EncodeTx_decodes [of m b] EncodeTx_decodes [of m' b] assms by simp

theorem tx_encoding_injective_witness:
  "EncodeTx sample_tx = EncodeTx (sample_tx\<lparr>tx_Note := []\<rparr>) \<and> sample_tx = sample_tx\<lparr>tx_Note := []\<rparr>"
proof -
  have e: "EncodeTx sample_tx = Inr (put_fields (Tx_fields sample_tx))"
    "EncodeTx (sample_tx\<lparr>tx_Note := []\<rparr>) = Inr (put_fields (Tx_fields sample_tx))"
    by (simp_all add: EncodeTx_def marshal_def sample_tx_eval)
  have "length (put_fields (Tx_fields sample_tx)) < 1000" by code_simp
  then have "length (put_fields (Tx_fields sample_tx)) < wire_max" by (simp add: wire_max_def)
  moreover have "Tx_fits sample_tx" "Tx_fits (sample_tx\<lparr>tx_Note := []\<rparr>)"
    by (simp_all add: sample_tx_eval)
  ultimately have "sample_tx = sample_tx\<lparr>tx_Note := []\<rparr>"
    using tx_encoding_injective [OF e] by blast
  then show ?thesis using e by simp
qed

end
