(* ===== verification/Db.thy ===== *)
theory Db
  imports Codec "HOL-Library.AList" "HOL-Library.Sublist"
begin

text \<open>
  The key-value store behind the ledger: the interface of \<open>db/db.go\<close> and its implementation in
  memory, \<open>db/memdb/memdb.go\<close>.  The values of all buckets share one map; the key of a value is the
  bucket, a hash sign and the key in the bucket.  A closed store has a nil map.
\<close>

section \<open>The store in memory\<close>

type_synonym db = "(string \<times> string) list option"

definition closed_error :: failure where
  "closed_error = Error ''Memdb is closed.''"

definition memdb_New :: db where
  "memdb_New = Some []"

definition NewBucket :: "string \<Rightarrow> (db, unit) act" where
  "NewBucket name = retA ()"

text \<open>The managers exit the process when a bucket cannot be created.\<close>

definition mustBucket :: "string \<Rightarrow> (db, unit) act" where
  "mustBucket name d =
     (case NewBucket name d of
        (Inr _, d') \<Rightarrow> (Inr (), d')
      | (Inl f, d') \<Rightarrow> (Inl (Fatal (''create db bucket '' @ name @ '' failed'')), d'))"

definition db_key :: "string \<Rightarrow> string \<Rightarrow> string" where
  "db_key bucket key = bucket @ ''#'' @ key"

definition Put :: "string \<Rightarrow> string \<Rightarrow> string \<Rightarrow> (db, unit) act" where
  "Put bucket key value d =
     (case d of
        None \<Rightarrow> (Inl closed_error, d)
      | Some m \<Rightarrow> (Inr (), Some (AList.update (db_key bucket key) value m)))"

definition Delete :: "string \<Rightarrow> string \<Rightarrow> (db, unit) act" where
  "Delete bucket key d =
     (case d of
        None \<Rightarrow> (Inl closed_error, d)
      | Some m \<Rightarrow> (Inr (), Some (AList.delete (db_key bucket key) m)))"

definition Get :: "string \<Rightarrow> string \<Rightarrow> db \<Rightarrow> string option res" where
  "Get bucket key d =
     (case d of None \<Rightarrow> Inl closed_error | Some m \<Rightarrow> Inr (map_of m (db_key bucket key)))"

text \<open>The order in which a Go map is ranged over is not fixed: \<open>iter\<close> is the order this time.\<close>

definition GetAll ::
  "((string \<times> string) list \<Rightarrow> (string \<times> string) list) \<Rightarrow> string \<Rightarrow> string \<Rightarrow> db \<Rightarrow> string list res" where
  "GetAll iter bucket keyPrefix d =
     (case d of
        None \<Rightarrow> Inl closed_error
      | Some m \<Rightarrow> Inr (map snd (filter (\<lambda>(k, v). prefix (db_key bucket keyPrefix) k) (iter m))))"

definition Close :: "(db, unit) act" where
  "Close d = (Inr (), None)"

text \<open>A transaction of the store in memory writes through; rolling it back does nothing.\<close>

definition Begin :: "(db, unit) act" where
  "Begin = retA ()"

definition Rollback :: "(db, unit) act" where
  "Rollback = retA ()"

definition Commit :: "(db, unit) act" where
  "Commit = retA ()"


section \<open>What the managers rely on\<close>

text \<open>
  A store that is open accepts writes, and a read returns the last value written under the same
  bucket and key.  A store that is closed answers every call with an error.
\<close>

locale kv =
  fixes opened :: "'d \<Rightarrow> bool"
    and get :: "string \<Rightarrow> string \<Rightarrow> 'd \<Rightarrow> string option res"
    and put :: "string \<Rightarrow> string \<Rightarrow> string \<Rightarrow> ('d, unit) act"
    and del :: "string \<Rightarrow> string \<Rightarrow> ('d, unit) act"
    and bucket_ok :: "string \<Rightarrow> bool"
  assumes put_ok: "opened d \<Longrightarrow> put b k v d = (Inr (), snd (put b k v d)) \<and> opened (snd (put b k v d))"
    and del_ok: "opened d \<Longrightarrow> del b k d = (Inr (), snd (del b k d)) \<and> opened (snd (del b k d))"
    and get_put: "opened d \<Longrightarrow> bucket_ok b \<Longrightarrow> bucket_ok b' \<Longrightarrow>
      get b' k' (snd (put b k v d)) = (if b' = b \<and> k' = k then Inr (Some v) else get b' k' d)"
    and get_del: "opened d \<Longrightarrow> bucket_ok b \<Longrightarrow> bucket_ok b' \<Longrightarrow>
      get b' k' (snd (del b k d)) = (if b' = b \<and> k' = k then Inr None else get b' k' d)"
    and get_opened: "isOk (get b k d) \<longleftrightarrow> opened d"
    and closed_write: "\<not> opened d \<Longrightarrow> \<exists>e. put b k v d = (Inl (Error e), d)"
begin

lemma put_commutes:
  assumes "opened d" "bucket_ok b" "bucket_ok b'" "bucket_ok c" "(b, k) \<noteq> (b', k')"
  shows "get c j (snd (put b k v (snd (put b' k' v' d)))) = get c j (snd (put b' k' v' (snd (put b k v d))))"
  using assms put_ok [OF assms(1)] by (auto simp: get_put)

lemma put_del:
  assumes "opened d" "bucket_ok b" "bucket_ok c"
  shows "get c j (snd (del b k (snd (put b k v d)))) = get c j (snd (del b k d))"
  using assms put_ok [OF assms(1)] by (auto simp: get_put get_del)

end

definition bucket_ok :: "string \<Rightarrow> bool" where
  "bucket_ok b \<longleftrightarrow> CHR ''#'' \<notin> set b"

definition opened :: "db \<Rightarrow> bool" where
  "opened d \<longleftrightarrow> d \<noteq> None"

lemma db_key_inject:
  assumes "bucket_ok b" "bucket_ok b'"
  shows "db_key b k = db_key b' k' \<longleftrightarrow> b = b' \<and> k = k'"
  using assms
proof (induction b arbitrary: b')
  case Nil
  then show ?case by (cases b') (auto simp: db_key_def bucket_ok_def)
next
  case (Cons c b)
  then show ?case by (cases b') (auto simp: db_key_def bucket_ok_def)
qed

interpretation mem: kv opened Get Put Delete bucket_ok
proof
  fix d :: db and b b' k k' v
  show "opened d \<Longrightarrow> Put b k v d = (Inr (), snd (Put b k v d)) \<and> opened (snd (Put b k v d))"
    by (auto simp: opened_def Put_def)
  show "opened d \<Longrightarrow> Delete b k d = (Inr (), snd (Delete b k d)) \<and> opened (snd (Delete b k d))"
    by (auto simp: opened_def Delete_def)
  show "opened d \<Longrightarrow> bucket_ok b \<Longrightarrow> bucket_ok b' \<Longrightarrow>
      Get b' k' (snd (Put b k v d)) = (if b' = b \<and> k' = k then Inr (Some v) else Get b' k' d)"
    by (auto simp: opened_def Put_def Get_def AList.update_conv' db_key_inject)
  show "opened d \<Longrightarrow> bucket_ok b \<Longrightarrow> bucket_ok b' \<Longrightarrow>
      Get b' k' (snd (Delete b k d)) = (if b' = b \<and> k' = k then Inr None else Get b' k' d)"
    by (auto simp: opened_def Delete_def Get_def AList.delete_conv' db_key_inject)
  show "isOk (Get b k d) \<longleftrightarrow> opened d"
    by (auto simp: opened_def Get_def split: option.splits)
  show "\<not> opened d \<Longrightarrow> \<exists>e. Put b k v d = (Inl (Error e), d)"
    by (auto simp: opened_def Put_def closed_error_def)
qed

lemma Put_cases:
  "opened d \<Longrightarrow> (\<And>d'. Put b k v d = (Inr (), d') \<Longrightarrow> opened d' \<Longrightarrow> d' = snd (Put b k v d) \<Longrightarrow> P) \<Longrightarrow> P"
  using mem.put_ok by blast

text \<open>
  Why a failed transaction is not undone here: a transaction of the store in memory that writes, is
  rolled back and is read again still shows the write.
\<close>

lemma rollback_keeps_writes:
  "Get b k (snd (thenA Begin (thenA (Put b k v) Rollback) (Some m))) = Inr (Some v)"
  by (simp add: Begin_def Rollback_def Put_def Get_def thenA_def bindA_def AList.update_conv')


section \<open>Tables\<close>

text \<open>
  A table keeps messages of one type in a bucket, each under a key of its own: what the account and
  exchange managers build on the store.  \<open>storable\<close> messages are those the encoder accepts and the
  decoder gives back.
\<close>

locale table =
  fixes bucket :: string
    and enc :: "'m \<Rightarrow> string res"
    and dec :: "string \<Rightarrow> 'm res"
    and storable :: "'m \<Rightarrow> bool"
  assumes bucket: "bucket_ok bucket"
    and stores: "storable m \<Longrightarrow> \<exists>b. enc m = Inr b \<and> dec b = Inr m"
begin

definition load :: "string \<Rightarrow> db \<Rightarrow> 'm option" where
  "load k d =
     (case Get bucket k d of Inr (Some b) \<Rightarrow> (case dec b of Inr m \<Rightarrow> Some m | Inl _ \<Rightarrow> None) | _ \<Rightarrow> None)"

lemma load_put_same:
  assumes "opened d" "storable m" "enc m = Inr b"
  shows "load k (snd (Put bucket k b d)) = Some m"
  using assms stores [OF assms(2)] bucket by (auto simp: load_def mem.get_put)

lemma load_put_other:
  assumes "opened d" "bucket_ok c" "(c, j) \<noteq> (bucket, k)"
  shows "load k (snd (Put c j b d)) = load k d"
  using assms bucket by (auto simp: load_def mem.get_put)

lemma load_delete:
  assumes "opened d" "bucket_ok c"
  shows "load k (snd (Delete c j d)) = (if (c, j) = (bucket, k) then None else load k d)"
  using assms bucket by (auto simp: load_def mem.get_del)

end

end
