(* ===== verification/AccountMgr.thy ===== *)
theory AccountMgr
  imports Db
begin

text \<open>
  The account manager, \<open>account/manager.go\<close>: accounts and trusts in the bucket ACCOUNT, balances,
  liabilities and the number of entries an account has to reserve for.  A pointer that may be nil is
  an option; a method that changes what its argument points to returns the new value.  The manager
  itself is its base reserve.
\<close>


section \<open>Accounts\<close>

definition ACCOUNT :: string where
  "ACCOUNT = ''ACCOUNT''"

text \<open>Encoding through a pointer: a nil message is an error.\<close>

definition encodePtr :: "('m \<Rightarrow> string res) \<Rightarrow> 'm option \<Rightarrow> string res" where
  "encodePtr enc p =
     (case p of None \<Rightarrow> Inl (Error ''proto: Marshal called with nil'') | Some m \<Rightarrow> enc m)"

definition NewManager :: "(db, unit) act" where
  "NewManager = mustBucket ACCOUNT"

definition CreateAccount ::
  "int \<Rightarrow> string \<Rightarrow> int \<Rightarrow> string \<Rightarrow> 64 word \<Rightarrow> (db, unit) act" where
  "CreateAccount baseReserve accountID balance signer seqNum =
     thenA (guardA (\<not> balance < baseReserve) ''init balance lower than base reserve'')
    (let acc = \<lparr>a_AccountID = accountID, a_Balance = balance, a_Signer = signer, a_SeqNum = seqNum,
           a_EntryCount = 0, a_TxKeyList = [], a_Liability = Some (Liability 0 0)\<rparr>
     in bindA (liftA (errorf ''encode account failed: '' (EncodeAccount acc))) (\<lambda>accb.
        errorfA ''save account in db failed: '' (Put ACCOUNT (a_AccountID acc) accb)))"

definition GetAccount :: "string \<Rightarrow> db \<Rightarrow> account option res" where
  "GetAccount accountID d =
     bindR (errorf (''get account '' @ accountID @ '' failed: '') (Get ACCOUNT accountID d)) (\<lambda>b.
     case b of
       None \<Rightarrow> Inr None
     | Some b \<Rightarrow>
         bindR (errorf (''account '' @ accountID @ '' decode failed: '') (DecodeAccount b)) (\<lambda>acc.
         Inr (Some acc)))"

definition SaveAccount :: "account option \<Rightarrow> (db, unit) act" where
  "SaveAccount acc =
     bindA (liftA (errorf ''encode account failed: '' (encodePtr EncodeAccount acc))) (\<lambda>accb.
     bindA (liftA (derefR ''acc'' acc)) (\<lambda>a.
     errorfA ''save account in db failed: '' (Put ACCOUNT (a_AccountID a) accb)))"

text \<open>\<open>keypair\<close> stands for \<open>crypto.GetAccountKeypairFromSeed\<close>.\<close>

definition CreateMasterAccount ::
  "int \<Rightarrow> (string \<Rightarrow> (string \<times> string) res) \<Rightarrow> string \<Rightarrow> int \<Rightarrow> 64 word \<Rightarrow> (db, account option) act" where
  "CreateMasterAccount baseReserve keypair networkID balance seqNum =
     bindA (liftA (keypair networkID)) (\<lambda>(pubKey, privKey).
     thenA (errorfA ''create master account failed: '' (CreateAccount baseReserve pubKey balance pubKey seqNum))
     (errorfA ''get master account failed: '' (readA (GetAccount pubKey))))"

definition a_liability :: "account \<Rightarrow> liability res" where
  "a_liability acc = derefR ''acc.Liability'' (a_Liability acc)"

definition GetRestLimit :: "account option \<Rightarrow> int res" where
  "GetRestLimit acc =
     bindR (derefR ''acc'' acc) (\<lambda>a. bindR (a_liability a) (\<lambda>l.
     Inr (i64 (i64 (MaxInt64 - a_Balance a) - l_Buying l))))"

definition GetBalance :: "int \<Rightarrow> account option \<Rightarrow> int res" where
  "GetBalance baseReserve acc =
     bindR (derefR ''acc'' acc) (\<lambda>a. bindR (a_liability a) (\<lambda>l.
     let minBalance = i64 (a_EntryCount a * baseReserve)
     in Inr (i64 (i64 (a_Balance a - minBalance) - l_Selling l))))"

definition UpdateBalance :: "account option \<Rightarrow> int \<Rightarrow> account option res" where
  "UpdateBalance acc balance =
     bindR (derefR ''acc'' acc) (\<lambda>a.
     if balance > 0 \<and> a_Balance a > i64 (MaxInt64 - balance) then Inl (Error ''account balance overflow'')
     else if balance < 0 \<and> a_Balance a < balance then Inl (Error ''account balance underflow'')
     else Inr (Some (a\<lparr>a_Balance := i64 (a_Balance a + balance)\<rparr>)))"

text \<open>The bounds check and the update that accounts and trusts share.\<close>

definition updLiability :: "liability \<Rightarrow> int \<Rightarrow> bool \<Rightarrow> liability res" where
  "updLiability l amount buy =
     (let old = (if buy then l_Buying l else l_Selling l)
      in if amount > i64 (MaxInt64 - old) \<or> amount < i64 (- old) then Inl (Error ''account update invalid'')
         else Inr (if buy then Liability (i64 (old + amount)) (l_Selling l)
                   else Liability (l_Buying l) (i64 (old + amount))))"

definition UpdateLiability :: "account option \<Rightarrow> int \<Rightarrow> bool \<Rightarrow> account option res" where
  "UpdateLiability acc amount buy =
     (if amount = 0 then Inr acc
      else bindR (derefR ''acc'' acc) (\<lambda>a. bindR (a_liability a) (\<lambda>l.
           bindR (updLiability l amount buy) (\<lambda>l'. Inr (Some (a\<lparr>a_Liability := Some l'\<rparr>))))))"

definition UpdateEntryCount :: "int \<Rightarrow> account option \<Rightarrow> int \<Rightarrow> account option res" where
  "UpdateEntryCount baseReserve acc n =
     (if n = 0 then Inr acc
      else bindR (derefR ''acc'' acc) (\<lambda>a. bindR (a_liability a) (\<lambda>l.
           let totalEntry = i32 (a_EntryCount a + n);
               balance = i64 (i64 (totalEntry * baseReserve) + l_Selling l)
           in if balance > a_Balance a then Inl (Error ''account balance underfund'')
              else Inr (Some (a\<lparr>a_EntryCount := totalEntry\<rparr>)))))"


section \<open>Trusts\<close>

text \<open>The key of a trust is the account followed by the encoded asset, in the bucket of the accounts.\<close>

definition trustKey :: "string \<Rightarrow> asset option \<Rightarrow> string res" where
  "trustKey accountID ass =
     bindR (errorf ''encode asset failed: '' (encodePtr EncodeAsset ass)) (\<lambda>assetb.
     Inr (accountID @ assetb))"

definition CreateTrust :: "string \<Rightarrow> asset option \<Rightarrow> int \<Rightarrow> (db, unit) act" where
  "CreateTrust accountID ass limit =
     bindA (liftA (derefR ''asset'' ass)) (\<lambda>as.
     if accountID = as_Issuer as then retA ()
     else
       (let trust = \<lparr>t_AccountID = accountID, t_Asset = ass, t_Balance = 0, t_Limit = limit,
              t_Liability = Some (Liability 0 0), t_Authorized = 1\<rparr>
        in bindA (liftA (errorf ''encode trust failed: '' (EncodeTrust trust))) (\<lambda>trustb.
           bindA (liftA (trustKey accountID ass)) (\<lambda>key.
           errorfA ''save trust in db failed: '' (Put ACCOUNT key trustb)))))"

text \<open>The issuer of an asset needs no trust; the trust it gets has no liability.\<close>

definition issuerTrust :: "string \<Rightarrow> asset option \<Rightarrow> trust" where
  "issuerTrust accountID ass =
     \<lparr>t_AccountID = accountID, t_Asset = ass, t_Balance = MaxInt64, t_Limit = MaxInt64,
      t_Liability = None, t_Authorized = 1\<rparr>"

definition GetTrust :: "string \<Rightarrow> asset option \<Rightarrow> db \<Rightarrow> trust option res" where
  "GetTrust accountID ass d =
     bindR (derefR ''asset'' ass) (\<lambda>as.
     if accountID = as_Issuer as then Inr (Some (issuerTrust accountID ass))
     else
       bindR (trustKey accountID ass) (\<lambda>key.
       bindR (errorf ''get trust from db failed: '' (Get ACCOUNT key d)) (\<lambda>b.
       case b of
         None \<Rightarrow> Inr None
       | Some b \<Rightarrow>
           bindR (errorf ''decode trust failed: '' (DecodeTrust b)) (\<lambda>trust. Inr (Some trust)))))"

definition SaveTrust :: "trust option \<Rightarrow> (db, unit) act" where
  "SaveTrust trust =
     bindA (liftA (errorf ''encode account failed: '' (encodePtr EncodeTrust trust))) (\<lambda>trustb.
     bindA (liftA (derefR ''trust'' trust)) (\<lambda>t.
     bindA (liftA (trustKey (t_AccountID t) (t_Asset t))) (\<lambda>key.
     errorfA ''save account in db failed: '' (Put ACCOUNT key trustb))))"

definition DeleteTrust :: "string \<Rightarrow> asset option \<Rightarrow> (db, unit) act" where
  "DeleteTrust accountID ass =
     bindA (liftA (trustKey accountID ass)) (\<lambda>key.
     errorfA ''delete trust from db failed: '' (Delete ACCOUNT key))"

definition t_liability :: "trust \<Rightarrow> liability res" where
  "t_liability t = derefR ''trust.Liability'' (t_Liability t)"

definition GetTrustRestLimit :: "trust option \<Rightarrow> int res" where
  "GetTrustRestLimit trust =
     bindR (derefR ''trust'' trust) (\<lambda>t. bindR (t_liability t) (\<lambda>l.
     Inr (i64 (i64 (MaxInt64 - t_Balance t) - l_Buying l))))"

definition GetTrustBalance :: "trust option \<Rightarrow> int res" where
  "GetTrustBalance trust =
     bindR (derefR ''trust'' trust) (\<lambda>t. bindR (t_liability t) (\<lambda>l.
     Inr (i64 (t_Balance t - l_Selling l))))"

definition UpdateTrustBalance :: "trust option \<Rightarrow> int \<Rightarrow> trust option res" where
  "UpdateTrustBalance trust balance =
     bindR (derefR ''trust'' trust) (\<lambda>t.
     if balance > 0 \<and> i64 (t_Balance t + balance) > t_Limit t then Inl (Error ''trust balance over limit'')
     else if balance < 0 \<and> t_Balance t < balance then Inl (Error ''trust balance underflow'')
     else Inr (Some (t\<lparr>t_Balance := i64 (t_Balance t + balance)\<rparr>)))"

definition UpdateTrustLiability :: "trust option \<Rightarrow> int \<Rightarrow> bool \<Rightarrow> trust option res" where
  "UpdateTrustLiability trust amount buy =
     (if amount = 0 then Inr trust
      else bindR (derefR ''trust'' trust) (\<lambda>t. bindR (t_liability t) (\<lambda>l.
           bindR (updLiability l amount buy) (\<lambda>l'. Inr (Some (t\<lparr>t_Liability := Some l'\<rparr>))))))"


section \<open>Storing and loading\<close>

definition asset_size :: "asset option \<Rightarrow> nat" where
  "asset_size x = (case x of None \<Rightarrow> 0 | Some a \<Rightarrow> length (as_Name a) + length (as_Issuer a))"

definition account_size :: "account \<Rightarrow> nat" where
  "account_size a =
     length (a_AccountID a) + length (a_Signer a) + sum_list (map (\<lambda>k. 10 + length k) (a_TxKeyList a))"

definition trust_size :: "trust \<Rightarrow> nat" where
  "trust_size t = length (t_AccountID t) + asset_size (t_Asset t)"

lemma Liability_size: "fsize (msg_field n Liability_fields x) \<le> 100"
proof (cases x)
  case (Some l)
  then show ?thesis
    using Liability.fsize_msg [of n x] fsize_int [of 1 "l_Buying l"] fsize_int [of 2 "l_Selling l"]
    by (simp add: Liability_fields_def del: One_nat_def)
qed (simp add: msg_field_def fsize_def)

lemma Asset_fields_size: "fsize (Asset_fields a) \<le> 60 + 2 * asset_size (Some a)"
  using fsize_int [of 1 "AssetType_num (as_Type a)"] fsize_str [of 2 "as_Name a"] fsize_str [of 3 "as_Issuer a"]
  by (simp add: Asset_fields_def asset_size_def del: One_nat_def)

lemma Asset_size: "fsize (msg_field n Asset_fields x) \<le> 140 + 4 * asset_size x"
proof (cases x)
  case (Some a)
  then show ?thesis using Asset.fsize_msg [of n x] Asset_fields_size [of a] by simp
qed (simp add: msg_field_def fsize_def)

lemma Account_length: "length (put_fields (Account_fields a)) \<le> 300 + 2 * account_size a"
  using put_fields_length [OF Account.nums, of a] fsize_str [of 1 "a_AccountID a"]
    fsize_int [of 2 "a_Balance a"] fsize_str [of 3 "a_Signer a"] fsize_word [of 4 "a_SeqNum a"]
    fsize_int [of 5 "a_EntryCount a"] fsize_strs [of 6 "a_TxKeyList a"] Liability_size [of 7 "a_Liability a"]
  by (simp add: Account_fields_def account_size_def del: One_nat_def)

lemma Trust_length: "length (put_fields (Trust_fields t)) \<le> 400 + 4 * trust_size t"
  using put_fields_length [OF Trust.nums, of t] fsize_str [of 1 "t_AccountID t"]
    Asset_size [of 2 "t_Asset t"] fsize_int [of 3 "t_Balance t"] fsize_int [of 4 "t_Limit t"]
    Liability_size [of 5 "t_Liability t"] fsize_int [of 6 "t_Authorized t"]
  by (simp add: Trust_fields_def trust_size_def del: One_nat_def)

text \<open>
  Messages that survive storing: valid strings, numbers in range, strings of at most 4 GB in all.
\<close>

definition storable_account :: "account \<Rightarrow> bool" where
  "storable_account a \<longleftrightarrow> Account_utf8 a \<and> Account_fits a \<and> account_size a < 2 ^ 32"

definition storable_trust :: "trust \<Rightarrow> bool" where
  "storable_trust t \<longleftrightarrow> Trust_utf8 t \<and> Trust_fits t \<and> trust_size t < 2 ^ 32"

lemma bucket_ok_ACCOUNT [simp]: "bucket_ok ACCOUNT"
  by (simp add: bucket_ok_def ACCOUNT_def)

interpretation accounts: table ACCOUNT EncodeAccount DecodeAccount storable_account
proof
  fix a assume "storable_account a"
  then show "\<exists>b. EncodeAccount a = Inr b \<and> DecodeAccount b = Inr a"
    using Account_length [of a] EncodeAccount_decodes [of a "put_fields (Account_fields a)"]
    by (auto simp: storable_account_def EncodeAccount_def marshal_def wire_max_def)
qed simp

interpretation trusts: table ACCOUNT EncodeTrust DecodeTrust storable_trust
proof
  fix t assume "storable_trust t"
  then show "\<exists>b. EncodeTrust t = Inr b \<and> DecodeTrust b = Inr t"
    using Trust_length [of t] EncodeTrust_decodes [of t "put_fields (Trust_fields t)"]
    by (auto simp: storable_trust_def EncodeTrust_def marshal_def wire_max_def)
qed simp


subsection \<open>Accounts\<close>

lemma GetAccount_iff: "GetAccount aid d = Inr (Some a) \<longleftrightarrow> accounts.load aid d = Some a"
  by (auto simp: GetAccount_def accounts.load_def bindR_def errorf_def split: sum.splits option.splits)

lemma GetAccount_opened: "GetAccount aid d = Inr x \<Longrightarrow> opened d"
  using mem.get_opened [of ACCOUNT aid d]
  by (cases "Get ACCOUNT aid d") (auto simp: GetAccount_def)

lemma GetAccount_Get: "Get ACCOUNT aid d' = Get ACCOUNT aid d \<Longrightarrow> GetAccount aid d' = GetAccount aid d"
  by (simp add: GetAccount_def)

text \<open>What a save does, seen through every later read.\<close>

definition wrote :: "string \<Rightarrow> string \<Rightarrow> db \<Rightarrow> db \<Rightarrow> bool" where
  "wrote b k d d' \<longleftrightarrow>
     opened d' \<and> (\<forall>c j. bucket_ok c \<longrightarrow> (c, j) \<noteq> (b, k) \<longrightarrow> Get c j d' = Get c j d)"

lemma Put_wrote: "opened d \<Longrightarrow> bucket_ok b \<Longrightarrow> wrote b k d (snd (Put b k v d))"
  using mem.put_ok [of d b k v] by (auto simp: wrote_def mem.get_put)

lemma SaveAccount_ok:
  assumes "opened d" "storable_account a"
  obtains d' where "SaveAccount (Some a) d = (Inr (), d')" "wrote ACCOUNT (a_AccountID a) d d'"
    "GetAccount (a_AccountID a) d' = Inr (Some a)"
proof -
  obtain b where b: "EncodeAccount a = Inr b" using accounts.stores [OF assms(2)] by blast
  obtain d' where p: "Put ACCOUNT (a_AccountID a) b d = (Inr (), d')" using mem.put_ok [OF assms(1)] by metis
  have "SaveAccount (Some a) d = (Inr (), d')"
    using p by (simp add: SaveAccount_def encodePtr_def b bindA_def errorfA_def)
  moreover have "wrote ACCOUNT (a_AccountID a) d d'" using Put_wrote [OF assms(1)] p by (metis bucket_ok_ACCOUNT snd_conv)
  moreover have "GetAccount (a_AccountID a) d' = Inr (Some a)"
    using accounts.load_put_same [OF assms b, of "a_AccountID a"] p by (simp add: GetAccount_iff)
  ultimately show ?thesis by (rule that)
qed

lemma wrote_GetAccount: "wrote b k d d' \<Longrightarrow> (ACCOUNT, aid) \<noteq> (b, k) \<Longrightarrow> GetAccount aid d' = GetAccount aid d"
  by (rule GetAccount_Get) (auto simp: wrote_def)

lemma wrote_opened: "wrote b k d d' \<Longrightarrow> opened d'"
  by (simp add: wrote_def)


subsection \<open>Trusts\<close>

lemma EncodeAsset_ok:
  assumes "Asset_utf8 a"
  shows "EncodeAsset a = Inr (put_fields (Asset_fields a))"
  using assms by (simp add: EncodeAsset_def marshal_def)

lemma trustKey_ok: "Asset_utf8 a \<Longrightarrow> trustKey aid (Some a) = Inr (aid @ put_fields (Asset_fields a))"
  by (simp add: trustKey_def encodePtr_def EncodeAsset_ok)

lemma GetTrust_iff:
  assumes "aid \<noteq> as_Issuer a" "Asset_utf8 a"
  shows "GetTrust aid (Some a) d = Inr (Some t) \<longleftrightarrow> trusts.load (aid @ put_fields (Asset_fields a)) d = Some t"
  using assms
  by (auto simp: GetTrust_def trusts.load_def trustKey_ok bindR_def errorf_def split: sum.splits option.splits)

lemma SaveTrust_ok:
  assumes "opened d" "storable_trust t" "t_Asset t = Some a"
  obtains d' where "SaveTrust (Some t) d = (Inr (), d')"
    "wrote ACCOUNT (t_AccountID t @ put_fields (Asset_fields a)) d d'"
    "trusts.load (t_AccountID t @ put_fields (Asset_fields a)) d' = Some t"
proof -
  let ?k = "t_AccountID t @ put_fields (Asset_fields a)"
  obtain b where b: "EncodeTrust t = Inr b" using trusts.stores [OF assms(2)] by blast
  obtain d' where p: "Put ACCOUNT ?k b d = (Inr (), d')" using mem.put_ok [OF assms(1)] by metis
  have "Asset_utf8 a" using assms(2,3) by (simp add: storable_trust_def Trust_utf8_def)
  then have "SaveTrust (Some t) d = (Inr (), d')"
    using p assms(3) by (simp add: SaveTrust_def encodePtr_def b bindA_def errorfA_def trustKey_ok)
  moreover have "wrote ACCOUNT ?k d d'" using Put_wrote [OF assms(1)] p by (metis bucket_ok_ACCOUNT snd_conv)
  moreover have "trusts.load ?k d' = Some t" using trusts.load_put_same [OF assms(1,2) b, of ?k] p by simp
  ultimately show ?thesis by (rule that)
qed

text \<open>
  An account identifier is a base58 string, and an encoded asset that is not empty begins with a
  field tag, which is a control character: so a key splits into account and asset in one way.
\<close>

definition id_ok :: "string \<Rightarrow> bool" where
  "id_ok aid \<longleftrightarrow> list_all (\<lambda>c. (32::nat) \<le> of_char c) aid"

definition tagged :: "string \<Rightarrow> bool" where
  "tagged b \<longleftrightarrow> b = [] \<or> of_char (hd b) < (32::nat)"

lemma key_split:
  "id_ok i \<Longrightarrow> id_ok j \<Longrightarrow> tagged x \<Longrightarrow> tagged y \<Longrightarrow> i @ x = j @ y \<longleftrightarrow> i = j \<and> x = y"
proof (induction i arbitrary: j)
  case Nil
  then show ?case by (cases j; cases x) (auto simp: id_ok_def tagged_def)
next
  case (Cons c i)
  show ?case
  proof (cases j)
    case Nil
    then show ?thesis using Cons.prems by (cases y) (auto simp: id_ok_def tagged_def)
  next
    case (Cons c' j')
    then show ?thesis using Cons.prems Cons.IH [of j'] by (auto simp: id_ok_def)
  qed
qed

lemma tagged_put:
  assumes "8 * n + wire_type v < 32"
  shows "tagged (put_fields ((n, v) # fs))"
proof -
  have "put_field (n, v) = char_of (8 * n + wire_type v) # tl (put_field (n, v))"
    using assms by (simp add: put_field_def uvarint.simps [of "8 * n + wire_type v"])
  then have "put_fields ((n, v) # fs) = char_of (8 * n + wire_type v) # tl (put_field (n, v)) @ put_fields fs"
    by (metis append_Cons concat.simps(2) list.simps(9) put_fields_def)
  moreover have "of_char (char_of (8 * n + wire_type v) :: char) = 8 * n + wire_type v"
    using assms by (simp add: of_char_of)
  ultimately show ?thesis using assms by (simp add: tagged_def)
qed

lemma tagged_Asset: "tagged (put_fields (Asset_fields a))"
proof -
  have e: "tagged (put_fields [])" by (simp add: tagged_def put_fields_def)
  show ?thesis
    using e tagged_put [of 1 "WVarint _"] tagged_put [of 2 "WLen _"] tagged_put [of 3 "WLen _"]
    unfolding Asset_fields_def int_field_def str_field_def
    by (simp del: put_fields_append One_nat_def)
qed

lemma Asset_fields_inject:
  assumes "Asset_utf8 a" "Asset_fits a" "asset_size (Some a) < 2 ^ 32"
    and "Asset_utf8 b" "Asset_fits b" "asset_size (Some b) < 2 ^ 32"
    and "put_fields (Asset_fields a) = put_fields (Asset_fields b)"
  shows "a = b"
proof -
  have l: "length (put_fields (Asset_fields x)) < wire_max" if "asset_size (Some x) < 2 ^ 32" for x
    using put_fields_length [OF Asset.nums, of x] Asset_fields_size [of x] that by (simp add: wire_max_def)
  have "merge Asset_upd (put_fields (Asset_fields a)) zero_Asset = Some a"
    by (rule Asset.merge_put [OF assms(1,2) l [OF assms(3)]])
  moreover have "merge Asset_upd (put_fields (Asset_fields b)) zero_Asset = Some b"
    by (rule Asset.merge_put [OF assms(4,5) l [OF assms(6)]])
  ultimately show ?thesis unfolding assms(7) by (metis option.inject)
qed

definition asset_ok :: "asset \<Rightarrow> bool" where
  "asset_ok a \<longleftrightarrow> Asset_utf8 a \<and> Asset_fits a \<and> asset_size (Some a) < 2 ^ 32"

lemma zero_Asset_ok: "asset_ok zero_Asset" "put_fields (Asset_fields zero_Asset) = []"
  by (simp_all add: asset_ok_def zero_Asset_def Asset_utf8_def Asset_fits_def AssetType_fits_def AssetType_num_def
      AssetType_of_def in32_def asset_size_def Asset_fields_def int_field_def str_field_def put_fields_def)

lemma trust_keys_differ:
  assumes "id_ok i" "id_ok j" "asset_ok a" "asset_ok b"
  shows "i @ put_fields (Asset_fields a) = j @ put_fields (Asset_fields b) \<longleftrightarrow> i = j \<and> a = b"
  using assms key_split [OF assms(1,2) tagged_Asset tagged_Asset] Asset_fields_inject
  by (auto simp: asset_ok_def)

text \<open>
  Keys of the account bucket: two trusts share a key only if account and asset are the same, and
  the key of a trust is the key of an account exactly when it is the trust of that account in the
  asset with no type, name and issuer.
\<close>

theorem trust_key_unambiguous:
  assumes "id_ok i" "id_ok j" "asset_ok a" "asset_ok b"
  shows "(trustKey i (Some a) = trustKey j (Some b)) = (i = j \<and> a = b) \<and>
    (trustKey i (Some a) = Inr j) = (i = j \<and> a = Asset NATIVE [] [])"
proof -
  have u: "Asset_utf8 a" "Asset_utf8 b" using assms by (auto simp: asset_ok_def)
  then have "(trustKey i (Some a) = trustKey j (Some b)) = (i = j \<and> a = b)"
    using trust_keys_differ [OF assms] by (simp add: trustKey_ok)
  moreover have "(trustKey i (Some a) = Inr j) = (i = j \<and> a = Asset NATIVE [] [])"
    using trust_keys_differ [OF assms(1,2,3) zero_Asset_ok(1)] u
    by (simp add: trustKey_ok zero_Asset_ok(2)) (simp add: zero_Asset_def)
  ultimately show ?thesis by blast
qed

theorem trust_key_unambiguous_witness:
  "trustKey ''alice'' (Some (Asset CUSTOM ''COIN'' ''bob'')) \<noteq> trustKey ''alice'' (Some (Asset NATIVE ''COIN'' ''bob'')) \<and>
   trustKey ''alice'' (Some (Asset NATIVE [] [])) = Inr ''alice''"
proof -
  have ok: "id_ok ''alice''" "asset_ok (Asset CUSTOM ''COIN'' ''bob'')" "asset_ok (Asset NATIVE ''COIN'' ''bob'')"
    "asset_ok (Asset NATIVE [] [])"
    by (simp_all add: id_ok_def asset_ok_def Asset_utf8_def Asset_fits_def AssetType_fits_def AssetType_num_def
        AssetType_of_def in32_def asset_size_def)
  show ?thesis
    using trust_key_unambiguous [OF ok(1,1,2,3)] trust_key_unambiguous [OF ok(1,1,4,4)] by simp
qed


section \<open>Balances, liabilities, entries\<close>

definition side :: "bool \<Rightarrow> liability \<Rightarrow> int" where
  "side buy l = (if buy then l_Buying l else l_Selling l)"

definition moved :: "bool \<Rightarrow> int \<Rightarrow> liability \<Rightarrow> liability" where
  "moved buy amount l =
     (if buy then Liability (l_Buying l + amount) (l_Selling l) else Liability (l_Buying l) (l_Selling l + amount))"

lemma updLiability_exact:
  assumes "0 \<le> l_Buying l" "0 \<le> l_Selling l" "in64 (l_Buying l)" "in64 (l_Selling l)" "in64 amount"
  shows "updLiability l amount buy =
    (if 0 \<le> side buy l + amount \<and> side buy l + amount \<le> MaxInt64 then Inr (moved buy amount l)
     else Inl (Error ''account update invalid''))"
  using assms by (auto simp: updLiability_def side_def moved_def in64_def i64_def Let_def)

text \<open>
  Liabilities: on liabilities that are not negative, an update of the liability of an account or
  of a trust adds exactly the amount when the sum is neither negative nor too large, and is refused
  otherwise; so liabilities never become negative and never wrap around.
\<close>

theorem liability_update_exact:
  assumes "a_Liability a = Some l" "t_Liability t = Some l" "amount \<noteq> 0" "in64 amount"
    and "0 \<le> l_Buying l" "0 \<le> l_Selling l" "in64 (l_Buying l)" "in64 (l_Selling l)"
  shows "UpdateLiability (Some a) amount buy =
      (if 0 \<le> side buy l + amount \<and> side buy l + amount \<le> MaxInt64
       then Inr (Some (a\<lparr>a_Liability := Some (moved buy amount l)\<rparr>))
       else Inl (Error ''account update invalid'')) \<and>
    UpdateTrustLiability (Some t) amount buy =
      (if 0 \<le> side buy l + amount \<and> side buy l + amount \<le> MaxInt64
       then Inr (Some (t\<lparr>t_Liability := Some (moved buy amount l)\<rparr>))
       else Inl (Error ''account update invalid''))"
  using assms(1-3) updLiability_exact [OF assms(5-8,4), of buy]
  by (simp add: UpdateLiability_def UpdateTrustLiability_def a_liability_def t_liability_def)

definition sample_account :: account where
  "sample_account =
     \<lparr>a_AccountID = ''alice'', a_Balance = 100, a_Signer = ''alice'', a_SeqNum = 1, a_EntryCount = 0,
      a_TxKeyList = [], a_Liability = Some (Liability 0 10)\<rparr>"

definition sample_trust :: trust where
  "sample_trust =
     \<lparr>t_AccountID = ''alice'', t_Asset = Some (Asset CUSTOM ''COIN'' ''bob''), t_Balance = 50, t_Limit = 70,
      t_Liability = Some (Liability 0 10), t_Authorized = 1\<rparr>"

theorem liability_update_exact_witness:
  "UpdateLiability (Some sample_account) (-10) False = Inr (Some (sample_account\<lparr>a_Liability := Some (Liability 0 0)\<rparr>)) \<and>
   UpdateTrustLiability (Some sample_trust) (-11) False = Inl (Error ''account update invalid'')"
proof -
  have l: "a_Liability sample_account = Some (Liability 0 10)" "t_Liability sample_trust = Some (Liability 0 10)"
    by (simp_all add: sample_account_def sample_trust_def)
  show ?thesis
    using liability_update_exact [OF l, of "-10" False] liability_update_exact [OF l, of "-11" False]
    by (simp add: in64_def side_def moved_def)
qed

text \<open>
  A balance can be overdrawn: on a balance that is not negative the only refused update is one
  past the largest integer; every debit, however large, goes through and is subtracted exactly.
\<close>

theorem UpdateBalance_never_underflows:
  assumes "0 \<le> a_Balance a" "in64 (a_Balance a)" "in64 amount"
  shows "UpdateBalance (Some a) amount =
    (if a_Balance a + amount > MaxInt64 then Inl (Error ''account balance overflow'')
     else Inr (Some (a\<lparr>a_Balance := a_Balance a + amount\<rparr>)))"
  using assms by (auto simp: UpdateBalance_def in64_def i64_def)

theorem UpdateBalance_never_underflows_witness:
  "UpdateBalance (Some sample_account) (-1000) = Inr (Some (sample_account\<lparr>a_Balance := -900\<rparr>))"
  using UpdateBalance_never_underflows [of sample_account "-1000"]
  by (simp add: in64_def) (simp add: sample_account_def in64_def)

lemma UpdateBalance_ok:
  assumes "0 \<le> a_Balance a" "in64 (a_Balance a)" "in64 amount" "a_Balance a + amount \<le> MaxInt64"
  shows "UpdateBalance (Some a) amount = Inr (Some (a\<lparr>a_Balance := a_Balance a + amount\<rparr>))"
  using assms by (auto simp: UpdateBalance_def in64_def i64_def)

text \<open>
  The limit of a trust can be passed: a credit so large that balance and amount exceed the
  largest integer wraps around, is below every limit, and is accepted.
\<close>

theorem UpdateTrustBalance_wraps:
  assumes "in64 (t_Balance t)" "in64 amount" "0 < amount" "t_Balance t + amount > MaxInt64" "0 \<le> t_Limit t"
  shows "UpdateTrustBalance (Some t) amount =
    Inr (Some (t\<lparr>t_Balance := t_Balance t + amount - 2 ^ 64\<rparr>))"
proof -
  have "i64 (t_Balance t + amount) = t_Balance t + amount - 2 ^ 64"
    using assms by (intro i64_wrap) (auto simp: in64_def)
  then show ?thesis using assms by (simp add: UpdateTrustBalance_def in64_def)
qed

theorem UpdateTrustBalance_wraps_witness:
  "UpdateTrustBalance (Some sample_trust) MaxInt64 =
     Inr (Some (sample_trust\<lparr>t_Balance := 50 + MaxInt64 - 2 ^ 64\<rparr>))"
  using UpdateTrustBalance_wraps [of sample_trust MaxInt64]
  by (simp add: in64_def sample_trust_def)

lemma UpdateTrustBalance_ok:
  assumes "in64 (t_Balance t)" "in64 amount" "0 \<le> t_Balance t" "t_Balance t + amount \<le> t_Limit t" "t_Limit t \<le> MaxInt64"
  shows "UpdateTrustBalance (Some t) amount = Inr (Some (t\<lparr>t_Balance := t_Balance t + amount\<rparr>))"
  using assms by (auto simp: UpdateTrustBalance_def in64_def i64_def)

lemma UpdateEntryCount_ok:
  assumes "a_Liability a = Some l" "in32 (a_EntryCount a + n)" "in64 ((a_EntryCount a + n) * r)"
    "in64 ((a_EntryCount a + n) * r + l_Selling l)" "n \<noteq> 0"
  shows "UpdateEntryCount r (Some a) n =
    (if (a_EntryCount a + n) * r + l_Selling l > a_Balance a then Inl (Error ''account balance underfund'')
     else Inr (Some (a\<lparr>a_EntryCount := a_EntryCount a + n\<rparr>)))"
  using assms by (simp add: UpdateEntryCount_def a_liability_def i32_id i64_id Let_def)

end
