(* ===== verification/ExchangeMgr.thy ===== *)
theory ExchangeMgr
  imports AccountMgr Complex_Main
begin

text \<open>
  The exchange, \<open>exchange/manager.go\<close>, \<open>util.go\<close>, \<open>order.go\<close> and \<open>sorter.go\<close>: prices and roundings,
  the exchange of two assets at a price, the offers in the database and the filling of an order.
  Filling an order changes the order and the offer it meets also when it then fails, and the caller
  drops the error: these handlers run on the store, the order and the offer together.
\<close>


section \<open>Prices and rounding\<close>

datatype RoundType = RoundUp | RoundDown

text \<open>\<open>big.NewRat\<close> panics on a zero denominator and moves the sign into the numerator.\<close>

definition newRat :: "price option \<Rightarrow> (int \<times> int) res" where
  "newRat p =
     bindR (derefR ''price'' p) (\<lambda>pr.
     if pr_Denominator pr = 0 then Inl (Panic ''division by zero'')
     else if pr_Denominator pr < 0 then Inr (- pr_Numerator pr, - pr_Denominator pr)
     else Inr (pr_Numerator pr, pr_Denominator pr))"

definition ComparePrice :: "price option \<Rightarrow> price option \<Rightarrow> int res" where
  "ComparePrice lhs rhs =
     bindR (newRat lhs) (\<lambda>(ln, ld). bindR (newRat rhs) (\<lambda>(rn, rd).
     Inr (sgn (ln * rd - rn * ld))))"

definition MultiplyInt64 :: "int \<Rightarrow> int \<Rightarrow> int" where
  "MultiplyInt64 l r = l * r"

text \<open>\<open>big.Int.DivMod\<close> is Euclidean division; \<open>Int64\<close> keeps the low 64 bits.\<close>

definition DivideBigInt :: "int \<Rightarrow> int \<Rightarrow> RoundType \<Rightarrow> int res" where
  "DivideBigInt val divisor roundType =
     (if divisor = 0 then Inl (Panic ''division by zero'')
      else
        let quotient = (if divisor > 0 then val div divisor else - (val div (- divisor)));
            modulus = val mod \<bar>divisor\<bar>;
            q = i64 quotient;
            remainder = i64 modulus
        in if roundType = RoundUp \<and> remainder > 0 then Inr (i64 (q + 1)) else Inr q)"


section \<open>Orders\<close>

record order =
  or_AccountID :: string
  or_SellAsset :: "asset option"
  or_MaxSellAsset :: int
  or_BuyAsset :: "asset option"
  or_MaxBuyAsset :: int
  or_Price :: "price option"
  or_SellAssetSold :: int
  or_BuyAssetBought :: int
  or_FilledOffers :: "offer list"
  or_Full :: bool
  or_FilterPrice :: bool

definition getOfferValue :: "int \<Rightarrow> int \<Rightarrow> price option \<Rightarrow> int res" where
  "getOfferValue maxToSell maxToBuy price =
     bindR (derefR ''price'' price) (\<lambda>p.
     let sellValue = MultiplyInt64 maxToSell (pr_Numerator p);
         buyValue = MultiplyInt64 maxToBuy (pr_Denominator p)
     in Inr (if sellValue < buyValue then sellValue else buyValue))"

text \<open>The amounts sold and bought, by which of the values is smaller and which asset is worth more.\<close>

definition exchangedAmounts :: "int \<Rightarrow> int \<Rightarrow> price \<Rightarrow> (int \<times> int) res" where
  "exchangedAmounts orderValue offerValue p =
     (let n = pr_Numerator p; d = pr_Denominator p in
      if orderValue < offerValue then
        (if n > d then
           bindR (DivideBigInt orderValue n RoundDown) (\<lambda>bought.
           bindR (DivideBigInt (MultiplyInt64 bought n) d RoundUp) (\<lambda>sold. Inr (sold, bought)))
         else
           bindR (DivideBigInt orderValue d RoundDown) (\<lambda>sold.
           bindR (DivideBigInt (MultiplyInt64 sold d) n RoundDown) (\<lambda>bought. Inr (sold, bought))))
      else
        (if n > d then
           bindR (DivideBigInt offerValue n RoundDown) (\<lambda>bought.
           bindR (DivideBigInt (MultiplyInt64 bought n) d RoundDown) (\<lambda>sold. Inr (sold, bought)))
         else
           bindR (DivideBigInt offerValue d RoundDown) (\<lambda>sold.
           bindR (DivideBigInt (MultiplyInt64 sold d) n RoundUp) (\<lambda>bought. Inr (sold, bought)))))"

definition outOfBounds :: "int \<Rightarrow> int \<Rightarrow> order \<Rightarrow> int \<Rightarrow> int \<Rightarrow> string option" where
  "outOfBounds maxOfferBuyAsset maxOfferSellAsset ord sold bought =
     (if bought < 0 \<or> bought > min maxOfferSellAsset (or_MaxBuyAsset ord) then Some ''order buy asset out of bounds''
      else if sold < 0 \<or> sold > min maxOfferBuyAsset (or_MaxSellAsset ord) then Some ''order sell asset out of bounds''
      else None)"

definition recordExchange :: "bool \<Rightarrow> int \<Rightarrow> int \<Rightarrow> order \<Rightarrow> order" where
  "recordExchange orderSmaller sold bought ord =
     (let o1 = ord\<lparr>or_SellAssetSold := i64 (or_SellAssetSold ord + sold),
                   or_MaxSellAsset := i64 (or_MaxSellAsset ord - sold),
                   or_BuyAssetBought := i64 (or_BuyAssetBought ord + bought),
                   or_MaxBuyAsset := i64 (or_MaxBuyAsset ord - bought)\<rparr>
      in o1\<lparr>or_Full := orderSmaller \<or> or_MaxSellAsset o1 = 0 \<or> or_MaxBuyAsset o1 = 0\<rparr>)"

definition Exchange :: "order \<Rightarrow> int \<Rightarrow> int \<Rightarrow> price option \<Rightarrow> bool \<Rightarrow> order res" where
  "Exchange ord maxOfferBuyAsset maxOfferSellAsset offerPrice checkError =
     bindR (getOfferValue (or_MaxSellAsset ord) (or_MaxBuyAsset ord) (or_Price ord)) (\<lambda>orderValue.
     bindR (getOfferValue maxOfferSellAsset maxOfferBuyAsset offerPrice) (\<lambda>offerValue.
     bindR (derefR ''offerPrice'' offerPrice) (\<lambda>p.
     bindR (exchangedAmounts orderValue offerValue p) (\<lambda>(sold, bought).
     case (if checkError then outOfBounds maxOfferBuyAsset maxOfferSellAsset ord sold bought else None) of
       Some msg \<Rightarrow> Inl (Fatal msg)
     | None \<Rightarrow> Inr (recordExchange (orderValue < offerValue) sold bought ord)))))"


section \<open>Offers in the database\<close>

definition EXCHANGE :: string where
  "EXCHANGE = ''EXCHANGE''"

definition OFFER :: string where
  "OFFER = ''OFFER''"

definition ExchangeMgr_NewManager :: "(db, unit) act" where
  "ExchangeMgr_NewManager =
     thenA (mustBucket EXCHANGE) (mustBucket OFFER)"

fun joinNames :: "string list \<Rightarrow> string" where
  "joinNames [] = []"
| "joinNames [s] = s"
| "joinNames (s # ss) = s @ ''_'' @ joinNames ss"

definition GetOfferKey :: "string list \<Rightarrow> string" where
  "GetOfferKey names = joinNames names"

definition assetName :: "asset option \<Rightarrow> string res" where
  "assetName a = bindR (derefR ''asset'' a) (\<lambda>as. Inr (as_Name as))"

fun decodeOffers :: "string list \<Rightarrow> offer list res" where
  "decodeOffers [] = Inr []"
| "decodeOffers (b # bs) =
     bindR (errorf ''decode offer failed: '' (DecodeOffer b)) (\<lambda>offer.
     bindR (decodeOffers bs) (\<lambda>offers. Inr (offer # offers)))"

text \<open>
  Comparing offers without a price, or with a zero denominator, panics; a sort of at least two
  offers compares every one of them.
\<close>

definition OfferSlice_Less :: "offer \<Rightarrow> offer \<Rightarrow> bool" where
  "OfferSlice_Less a b = (case ComparePrice (o_Price a) (o_Price b) of Inr c \<Rightarrow> c \<le> 0 | Inl _ \<Rightarrow> False)"

definition sortOffers :: "offer list \<Rightarrow> offer list res" where
  "sortOffers offers =
     (if length offers \<le> 1 \<or> list_all (\<lambda>x. isOk (newRat (o_Price x))) offers
      then Inr (go_sort OfferSlice_Less offers)
      else Inl (Panic ''OfferSlice.Less''))"

type_synonym db_order = "(string \<times> string) list \<Rightarrow> (string \<times> string) list"

definition loadOffers :: "db_order \<Rightarrow> string \<Rightarrow> string \<Rightarrow> db \<Rightarrow> offer list res" where
  "loadOffers iter sellAsset buyAsset d =
     bindR (errorf ''load offer list failed: '' (GetAll iter EXCHANGE (sellAsset @ ''_'' @ buyAsset) d)) (\<lambda>bs.
     bindR (decodeOffers bs) sortOffers)"

definition GetOffer :: "string \<Rightarrow> string \<Rightarrow> string \<Rightarrow> string \<Rightarrow> db \<Rightarrow> offer option res" where
  "GetOffer accountID sellAsset buyAsset offerID d =
     bindR (errorf ''get offer from db failed: '' (Get OFFER (GetOfferKey [accountID, offerID]) d)) (\<lambda>b.
     case b of
       None \<Rightarrow> Inr None
     | Some b \<Rightarrow>
         bindR (errorf ''decode offer failed: '' (DecodeOffer b)) (\<lambda>offer.
         if o_OfferID offer \<noteq> offerID then Inl (Error ''offerID is incompatible'')
         else
           bindR (assetName (o_SellAsset offer)) (\<lambda>sn.
           if sn \<noteq> sellAsset then Inl (Error ''sell asset incompatible'')
           else
             bindR (assetName (o_BuyAsset offer)) (\<lambda>bn.
             if bn \<noteq> buyAsset then Inl (Error ''buy asset incompatible'') else Inr (Some offer)))))"

definition GetAccountOffers :: "db_order \<Rightarrow> string \<Rightarrow> db \<Rightarrow> offer list res" where
  "GetAccountOffers iter accountID d =
     bindR (errorf ''load offer list failed: '' (GetAll iter OFFER accountID d)) decodeOffers"

definition offerKey :: "offer \<Rightarrow> string res" where
  "offerKey offer =
     bindR (assetName (o_SellAsset offer)) (\<lambda>sn. bindR (assetName (o_BuyAsset offer)) (\<lambda>bn.
     Inr (GetOfferKey [sn, bn, o_OfferID offer])))"

definition SaveOffer :: "offer \<Rightarrow> (db, unit) act" where
  "SaveOffer offer =
     bindA (liftA (errorf ''encode offer failed: '' (EncodeOffer offer))) (\<lambda>offerb.
     bindA (liftA (offerKey offer)) (\<lambda>key.
     thenA (errorfA ''save offer in db failed: '' (Put EXCHANGE key offerb))
     (errorfA ''save offer in db failed: ''
       (Put OFFER (GetOfferKey [o_AccountID offer, o_OfferID offer]) offerb))))"

definition DeleteOffer :: "offer option \<Rightarrow> (db, unit) act" where
  "DeleteOffer p =
     (case p of
        None \<Rightarrow> retA ()
      | Some offer \<Rightarrow>
          bindA (liftA (offerKey offer)) (\<lambda>key.
          thenA (errorfA ''deleter offer in db failed: '' (Delete EXCHANGE key))
          (errorfA ''deleter offer in offer db failed: ''
            (Delete OFFER (GetOfferKey [o_AccountID offer, o_OfferID offer])))))"


section \<open>Liabilities of an offer\<close>

definition zeroOrder :: order where
  "zeroOrder =
     \<lparr>or_AccountID = [], or_SellAsset = None, or_MaxSellAsset = 0, or_BuyAsset = None, or_MaxBuyAsset = 0,
      or_Price = None, or_SellAssetSold = 0, or_BuyAssetBought = 0, or_FilledOffers = [], or_Full = False,
      or_FilterPrice = False\<rparr>"

definition reciprocal :: "price option \<Rightarrow> price res" where
  "reciprocal p = bindR (derefR ''price'' p) (\<lambda>pr. Inr (Price (pr_Denominator pr) (pr_Numerator pr)))"

definition GetLiability :: "offer \<Rightarrow> bool \<Rightarrow> int res" where
  "GetLiability offer buying =
     (let ord = zeroOrder\<lparr>or_MaxSellAsset := o_Amount offer, or_MaxBuyAsset := MaxInt64, or_Price := o_Price offer\<rparr>
      in bindR (reciprocal (o_Price offer)) (\<lambda>rp.
         bindR (errorf ''exchange assets failed: '' (Exchange ord MaxInt64 MaxInt64 (Some rp) False)) (\<lambda>ord'.
         Inr (if buying then or_BuyAssetBought ord' else or_SellAssetSold ord'))))"

definition accountLiability :: "string \<Rightarrow> string \<Rightarrow> int \<Rightarrow> bool \<Rightarrow> (db, unit) act" where
  "accountLiability msg accountID amount buy =
     bindA (errorfA ''get account failed: '' (readA (GetAccount accountID))) (\<lambda>acc.
     bindA (liftA (errorf msg (UpdateLiability acc amount buy))) (\<lambda>acc'.
     errorfA ''save account failed: '' (SaveAccount acc')))"

definition trustLiability :: "string \<Rightarrow> string \<Rightarrow> asset option \<Rightarrow> int \<Rightarrow> bool \<Rightarrow> (db, unit) act" where
  "trustLiability msg accountID ass amount buy =
     bindA (errorfA ''get trust failed: '' (readA (GetTrust accountID ass))) (\<lambda>trust.
     bindA (liftA (errorf msg (UpdateTrustLiability trust amount buy))) (\<lambda>trust'.
     errorfA ''save account failed: '' (SaveTrust trust')))"

definition assetType :: "asset option \<Rightarrow> AssetType res" where
  "assetType a = bindR (derefR ''asset'' a) (\<lambda>as. Inr (as_Type as))"

text \<open>The selling liability of an asset that is not native goes to the trust of the asset bought.\<close>

definition updateOfferLiability :: "offer \<Rightarrow> bool \<Rightarrow> (db, unit) act" where
  "updateOfferLiability offer acquire =
     bindA (liftA (errorf ''get buying liability failed: '' (GetLiability offer True))) (\<lambda>bl0.
     let bl = (if acquire then bl0 else i64 (- bl0)) in
     bindA (liftA (assetType (o_BuyAsset offer))) (\<lambda>bt.
     thenA
      (if bt = NATIVE
       then accountLiability ''update account buying liability failed: '' (o_AccountID offer) bl True
       else trustLiability ''update trust buying liability failed: '' (o_AccountID offer) (o_BuyAsset offer) bl True)
     (bindA (liftA (errorf ''get selling liability failed: '' (GetLiability offer False))) (\<lambda>sl0.
     let sl = (if acquire then sl0 else i64 (- sl0)) in
     bindA (liftA (assetType (o_SellAsset offer))) (\<lambda>st.
     if st = NATIVE
     then accountLiability ''update account selling liability failed: '' (o_AccountID offer) sl False
     else trustLiability ''update trust buying liability failed: '' (o_AccountID offer) (o_BuyAsset offer) sl False)))))"


section \<open>Filling an order\<close>

definition GetMaxToSell :: "int \<Rightarrow> account option \<Rightarrow> trust option \<Rightarrow> int res" where
  "GetMaxToSell baseReserve acc sellTrust =
     (case sellTrust of
        Some t \<Rightarrow> if t_Authorized t > 0 then GetTrustBalance sellTrust else GetBalance baseReserve acc
      | None \<Rightarrow> GetBalance baseReserve acc)"

definition GetMaxToBuy :: "account option \<Rightarrow> trust option \<Rightarrow> int res" where
  "GetMaxToBuy acc buyTrust =
     (case buyTrust of Some t \<Rightarrow> GetTrustRestLimit buyTrust | None \<Rightarrow> GetRestLimit acc)"

record fill =
  f_db :: db
  f_order :: order
  f_offer :: offer

definition onDb :: "(db, 'a) act \<Rightarrow> (fill, 'a) act" where
  "onDb m s = (case m (f_db s) of (r, d) \<Rightarrow> (r, s\<lparr>f_db := d\<rparr>))"

definition offerTrust :: "string \<Rightarrow> asset option \<Rightarrow> string \<Rightarrow> (fill, trust option) act" where
  "offerTrust msg ass accountID =
     bindA (liftA (assetType ass)) (\<lambda>ty.
     if ty \<noteq> NATIVE then onDb (errorfA msg (readA (GetTrust accountID ass))) else retA None)"

text \<open>What is bought is added to the account of the offer, or to its trust.\<close>

definition creditBought ::
  "account option \<Rightarrow> trust option \<Rightarrow> (fill, account option \<times> trust option) act" where
  "creditBought acc buyAssetTrust =
     bindA (readA (\<lambda>s. Inr (or_BuyAssetBought (f_order s)))) (\<lambda>n.
     if n = 0 then retA (acc, buyAssetTrust)
     else case buyAssetTrust of
       Some t \<Rightarrow>
         bindA (liftA (errorf ''add trust balance failed: '' (UpdateTrustBalance buyAssetTrust n))) (\<lambda>t'.
         thenA (onDb (errorfA ''save trust failed: '' (SaveTrust t'))) (retA (acc, t')))
     | None \<Rightarrow>
         bindA (liftA (errorf ''add account balance failed: '' (UpdateBalance acc n))) (\<lambda>acc'.
         thenA (onDb (errorfA ''save account failed: '' (SaveAccount acc'))) (retA (acc', None))))"

text \<open>What is sold is subtracted; the trust that is then saved is the other one.\<close>

definition debitSold ::
  "account option \<Rightarrow> trust option \<Rightarrow> trust option \<Rightarrow> (fill, account option) act" where
  "debitSold acc buyAssetTrust sellAssetTrust =
     bindA (readA (\<lambda>s. Inr (or_SellAssetSold (f_order s)))) (\<lambda>n.
     if n = 0 then retA acc
     else case sellAssetTrust of
       Some t \<Rightarrow>
         bindA (liftA (errorf ''substract trust balance failed: '' (UpdateTrustBalance sellAssetTrust (i64 (- n))))) (\<lambda>t'.
         thenA (onDb (errorfA ''save trust failed: '' (SaveTrust buyAssetTrust))) (retA acc))
     | None \<Rightarrow>
         bindA (liftA (errorf ''substract account balance failed: '' (UpdateBalance acc (i64 (- n))))) (\<lambda>acc'.
         thenA (onDb (errorfA ''save account failed: '' (SaveAccount acc'))) (retA acc')))"

definition settleOffer :: "int \<Rightarrow> account option \<Rightarrow> (fill, unit) act" where
  "settleOffer baseReserve acc =
     thenA (modifyA (\<lambda>s. s\<lparr>f_offer := (f_offer s)\<lparr>o_Amount :=
       (if or_Full (f_order s) then i64 (o_Amount (f_offer s) - or_BuyAssetBought (f_order s)) else 0)\<rparr>\<rparr>))
    (bindA (readA (\<lambda>s. Inr (f_offer s))) (\<lambda>offer.
     if o_Amount offer = 0 then
       thenA (onDb (errorfA ''delete offer failed: '' (DeleteOffer (Some offer))))
      (bindA (liftA (errorf ''update entry count failed: '' (UpdateEntryCount baseReserve acc (-1)))) (\<lambda>acc'.
       onDb (errorfA ''save account failed: '' (SaveAccount acc'))))
     else
       thenA (onDb (errorfA ''save offer failed: '' (SaveOffer offer)))
      (onDb (errorfA ''acquire liability failed: '' (updateOfferLiability offer True)))))"

definition Fill :: "int \<Rightarrow> (fill, unit) act" where
  "Fill baseReserve =
     bindA (readA (\<lambda>s. Inr (f_offer s))) (\<lambda>offer.
     bindA (onDb (errorfA ''load seller account of offer failed: '' (readA (GetAccount (o_AccountID offer))))) (\<lambda>acc.
     bindA (offerTrust ''load sell asset trust for reciprocal offer failed: '' (o_SellAsset offer) (o_AccountID offer)) (\<lambda>buyAssetTrust.
     bindA (offerTrust ''load buy asset trust for reciprocal offer failed: '' (o_BuyAsset offer) (o_AccountID offer)) (\<lambda>sellAssetTrust.
     thenA (onDb (errorfA ''release liability failed: '' (updateOfferLiability offer False)))
    (bindA (liftA (GetMaxToSell baseReserve acc buyAssetTrust)) (\<lambda>maxBuyAsset.
     bindA (liftA (GetMaxToBuy acc sellAssetTrust)) (\<lambda>maxSellAsset.
     bindA (readA (\<lambda>s. errorf ''exchange assets failed: ''
        (Exchange (f_order s) maxBuyAsset maxSellAsset (o_Price offer) False))) (\<lambda>ord.
     thenA (modifyA (\<lambda>s. s\<lparr>f_order := ord\<rparr>))
    (bindA (creditBought acc buyAssetTrust) (\<lambda>(acc', buyAssetTrust').
     bindA (debitSold acc' buyAssetTrust' sellAssetTrust) (\<lambda>acc''.
     settleOffer baseReserve acc'')))))))))))"

text \<open>The loop over the offers: the first that is too expensive, or the own one, ends it.\<close>

fun fillOffers :: "int \<Rightarrow> price \<Rightarrow> offer list \<Rightarrow> order \<Rightarrow> (db, order) act" where
  "fillOffers baseReserve threshold [] ord d = (Inr ord, d)"
| "fillOffers baseReserve threshold (offer # offers) ord d =
     (case (if or_FilterPrice ord then ComparePrice (Some threshold) (o_Price offer) else Inr 0) of
        Inl f \<Rightarrow> (Inl f, d)
      | Inr c \<Rightarrow>
          if c < 0 then (Inr ord, d)
          else if o_AccountID offer = or_AccountID ord then (Inr ord, d)
          else case dropA (Fill baseReserve) \<lparr>f_db = d, f_order = ord, f_offer = offer\<rparr> of
            (Inl f, s) \<Rightarrow> (Inl f, f_db s)
          | (Inr _, s) \<Rightarrow>
              if or_Full (f_order s) then (Inr (f_order s), f_db s)
              else fillOffers baseReserve threshold offers
                ((f_order s)\<lparr>or_FilledOffers := or_FilledOffers (f_order s) @ [f_offer s]\<rparr>) (f_db s))"

definition FillOrder :: "int \<Rightarrow> db_order \<Rightarrow> order \<Rightarrow> (db, order) act" where
  "FillOrder baseReserve iter ord =
     bindA (liftA (assetName (or_BuyAsset ord))) (\<lambda>bn.
     bindA (liftA (assetName (or_SellAsset ord))) (\<lambda>sn.
     bindA (errorfA ''load offers failed: '' (readA (loadOffers iter bn sn))) (\<lambda>offers.
     bindA (liftA (reciprocal (or_Price ord))) (\<lambda>threshold.
     fillOffers baseReserve threshold offers ord))))"


section \<open>Exchanging at a price\<close>

lemma div_mult_bounds: "0 < (d::int) \<Longrightarrow> (v div d) * d \<le> v \<and> v < (v div d) * d + d"
  by (metis div_mult_mod_eq less_add_same_cancel1 add_strict_left_mono le_add_same_cancel1 pos_mod_bound pos_mod_sign)

lemma div_le_of: "0 < (d::int) \<Longrightarrow> v \<le> k * d \<Longrightarrow> v div d \<le> k"
  by (metis zdiv_mono1 nonzero_mult_div_cancel_right less_irrefl)

lemma DivideBigInt_pos:
  assumes "0 < d" "in64 d"
  shows "DivideBigInt v d RoundDown = Inr (i64 (v div d))"
    and "DivideBigInt v d RoundUp = Inr (if v mod d = 0 then i64 (v div d) else i64 (i64 (v div d) + 1))"
proof -
  have "0 \<le> v mod d" "v mod d < d" using assms(1) by auto
  then have "i64 (v mod d) = v mod d" using assms(2) by (intro i64_id) (auto simp: in64_def)
  then show "DivideBigInt v d RoundDown = Inr (i64 (v div d))"
    and "DivideBigInt v d RoundUp = Inr (if v mod d = 0 then i64 (v div d) else i64 (i64 (v div d) + 1))"
    using assms \<open>0 \<le> v mod d\<close> by (auto simp: DivideBigInt_def Let_def less_le)
qed

definition cdiv :: "int \<Rightarrow> int \<Rightarrow> int" where
  "cdiv v d = (if v mod d = 0 then v div d else v div d + 1)"

lemma cdiv_bounds: "0 < d \<Longrightarrow> v \<le> cdiv v d * d \<and> cdiv v d * d < v + d"
proof (cases "v mod d = 0")
  case True
  moreover assume "0 < d"
  ultimately show ?thesis by (auto simp: cdiv_def)
next
  case False
  assume d: "0 < d"
  then have "0 < v mod d" using False by (metis pos_mod_sign less_le)
  then have "v div d * d < v" by (metis div_mult_mod_eq less_add_same_cancel1)
  with False d div_mult_bounds [OF d, of v] show ?thesis by (simp add: cdiv_def algebra_simps)
qed

lemma cdiv_le: "0 < d \<Longrightarrow> v \<le> k * d \<Longrightarrow> cdiv v d \<le> k"
proof (rule ccontr)
  assume d: "0 < d" and v: "v \<le> k * d" and "\<not> cdiv v d \<le> k"
  then have "(k + 1) * d \<le> cdiv v d * d" by (intro mult_right_mono) auto
  with cdiv_bounds [OF d, of v] v show False by (simp add: algebra_simps)
qed

lemma DivideBigInt_down:
  "0 < d \<Longrightarrow> in64 d \<Longrightarrow> 0 \<le> v \<Longrightarrow> v \<le> MaxInt64 * d \<Longrightarrow> DivideBigInt v d RoundDown = Inr (v div d)"
proof -
  assume a: "0 < d" "in64 d" "0 \<le> v" "v \<le> MaxInt64 * d"
  then have "v div d \<le> MaxInt64" by (intro div_le_of)
  moreover have "0 \<le> v div d" using a by (simp add: pos_imp_zdiv_nonneg_iff)
  ultimately have "i64 (v div d) = v div d" by (intro i64_id) (simp add: in64_def)
  then show ?thesis using DivideBigInt_pos(1) [OF a(1,2)] by simp
qed

lemma DivideBigInt_up:
  assumes a: "0 < d" "in64 d" "0 \<le> v" "v \<le> MaxInt64 * d"
  shows "DivideBigInt v d RoundUp = Inr (cdiv v d)"
proof -
  have q: "0 \<le> v div d" using a by (simp add: pos_imp_zdiv_nonneg_iff)
  have c: "cdiv v d \<le> MaxInt64" using cdiv_le [OF a(1,4)] .
  have "v div d \<le> cdiv v d" by (simp add: cdiv_def)
  then have i: "i64 (v div d) = v div d" using q c by (intro i64_id) (simp add: in64_def)
  show ?thesis
  proof (cases "v mod d = 0")
    case False
    then have "i64 (v div d + 1) = v div d + 1"
      using q c by (intro i64_id) (simp add: in64_def cdiv_def)
    with False i show ?thesis by (simp add: DivideBigInt_pos(2) [OF a(1,2)] cdiv_def)
  qed (simp add: DivideBigInt_pos(2) [OF a(1,2)] cdiv_def i)
qed

text \<open>
  The two assets at reciprocal prices: what an order for \<open>A\<close> units at the price \<open>n/d\<close> sells and buys.
\<close>

definition fair :: "int \<Rightarrow> int \<Rightarrow> int \<Rightarrow> int \<Rightarrow> int \<Rightarrow> bool" where
  "fair A n d sold bought \<longleftrightarrow>
     0 \<le> sold \<and> sold \<le> A \<and> 0 \<le> bought \<and> bought \<le> MaxInt64 \<and>
     (bought * d \<le> sold * n \<and> sold * n < bought * d + max n d \<or>
      sold * n \<le> bought * d \<and> bought * d < sold * n + max n d)"

lemma exchanged_order_smaller:
  assumes n: "0 < n" "in64 n" and d: "0 < d" "in64 d" and A: "0 \<le> A" "A \<le> MaxInt64"
    and V: "0 \<le> V" "V \<le> A * n" "V \<le> MaxInt64 * d"
    and less: "V < W"
  shows "\<exists>sold bought. exchangedAmounts V W (Price d n) = Inr (sold, bought) \<and> fair A n d sold bought"
proof -
  show ?thesis
  proof (cases "d > n")
    case True
    let ?b = "V div d" and ?s = "cdiv (V div d * d) n"
    have b: "0 \<le> ?b" "?b \<le> MaxInt64" "?b * d \<le> V"
      using V d div_le_of [of d V MaxInt64] div_mult_bounds [of d V] by (auto simp: pos_imp_zdiv_nonneg_iff)
    have "?b * d \<le> A * n" using b(3) V(2) by linarith
    then have s: "?s \<le> A" using cdiv_le [OF n(1)] by blast
    have "0 \<le> ?b * d" using b(1) d(1) by simp
    then have s0: "0 \<le> ?s" using n(1) by (simp add: cdiv_def pos_imp_zdiv_nonneg_iff)
    have "A * n \<le> MaxInt64 * n" using A(2) n(1) by (intro mult_right_mono) auto
    then have "DivideBigInt (?b * d) n RoundUp = Inr ?s"
      using DivideBigInt_up [OF n, of "?b * d"] \<open>0 \<le> ?b * d\<close> \<open>?b * d \<le> A * n\<close> by linarith
    then have e: "exchangedAmounts V W (Price d n) = Inr (?s, ?b)"
      using less True V(1,3) by (simp add: exchangedAmounts_def DivideBigInt_down [OF d] MultiplyInt64_def)
    have "fair A n d ?s ?b"
      using s s0 b True cdiv_bounds [OF n(1), of "?b * d"] by (simp add: fair_def)
    with e show ?thesis by blast
  next
    case False
    let ?s = "V div n" and ?b = "V div n * n div d"
    have s: "0 \<le> ?s" "?s \<le> A" "?s * n \<le> V"
      using V n div_le_of [of n V A] div_mult_bounds [of n V] by (auto simp: pos_imp_zdiv_nonneg_iff)
    have "0 \<le> ?s * n" using s(1) n(1) by simp
    have m: "?s * n \<le> MaxInt64 * d" using s(3) V(3) by linarith
    have "V \<le> MaxInt64 * n" using V(2) A(2) n(1) mult_right_mono [of A MaxInt64 n] by linarith
    then have e: "exchangedAmounts V W (Price d n) = Inr (?s, ?b)"
      using less False V(1) \<open>0 \<le> ?s * n\<close> m
      by (simp add: exchangedAmounts_def DivideBigInt_down [OF n] DivideBigInt_down [OF d] MultiplyInt64_def)
    have "0 \<le> ?b" "?b \<le> MaxInt64" "?b * d \<le> ?s * n" "?s * n < ?b * d + d"
      using \<open>0 \<le> ?s * n\<close> m d(1) div_le_of [of d "?s * n" MaxInt64] div_mult_bounds [of d "?s * n"]
      by (auto simp: pos_imp_zdiv_nonneg_iff)
    then have "fair A n d ?s ?b" using s by (auto simp: fair_def)
    with e show ?thesis by blast
  qed
qed

lemma exchanged_offer_smaller:
  assumes n: "0 < n" "in64 n" and d: "0 < d" "in64 d" and A: "0 \<le> A" "A \<le> MaxInt64"
    and V: "0 \<le> V" "V \<le> A * n" "V \<le> MaxInt64 * d"
    and W: "W = min (MaxInt64 * d) (MaxInt64 * n)" and geq: "\<not> V < W"
  shows "\<exists>sold bought. exchangedAmounts V W (Price d n) = Inr (sold, bought) \<and> fair A n d sold bought"
proof -
  have W0: "0 \<le> W" "W \<le> MaxInt64 * d" "W \<le> MaxInt64 * n" "W \<le> A * n" using W n d geq V(2) by auto
  show ?thesis
  proof (cases "d > n")
    case True
    let ?b = "W div d" and ?s = "W div d * d div n"
    have b: "0 \<le> ?b" "?b \<le> MaxInt64" "?b * d \<le> W"
      using W0 d div_le_of [of d W MaxInt64] div_mult_bounds [of d W] by (auto simp: pos_imp_zdiv_nonneg_iff)
    have "0 \<le> ?b * d" using b(1) d(1) by simp
    have m: "?b * d \<le> MaxInt64 * n" "?b * d \<le> A * n" using b(3) W0 by linarith+
    have e: "exchangedAmounts V W (Price d n) = Inr (?s, ?b)"
      using geq True W0 \<open>0 \<le> ?b * d\<close> m
      by (simp add: exchangedAmounts_def DivideBigInt_down [OF n] DivideBigInt_down [OF d] MultiplyInt64_def)
    have "0 \<le> ?s" "?s \<le> A" "?s * n \<le> ?b * d" "?b * d < ?s * n + n"
      using \<open>0 \<le> ?b * d\<close> m n(1) div_le_of [of n "?b * d" A] div_mult_bounds [of n "?b * d"]
      by (auto simp: pos_imp_zdiv_nonneg_iff)
    then have "fair A n d ?s ?b" using b by (auto simp: fair_def)
    with e show ?thesis by blast
  next
    case False
    let ?s = "W div n" and ?b = "cdiv (W div n * n) d"
    have s: "0 \<le> ?s" "?s \<le> A" "?s * n \<le> W"
      using W0 n div_le_of [of n W A] div_mult_bounds [of n W] by (auto simp: pos_imp_zdiv_nonneg_iff)
    have "0 \<le> ?s * n" using s(1) n(1) by simp
    have m: "?s * n \<le> MaxInt64 * d" using s(3) W0 by linarith
    have e: "exchangedAmounts V W (Price d n) = Inr (?s, ?b)"
      using geq False W0 \<open>0 \<le> ?s * n\<close> m
      by (simp add: exchangedAmounts_def DivideBigInt_down [OF n] DivideBigInt_up [OF d] MultiplyInt64_def)
    have "0 \<le> ?b" using \<open>0 \<le> ?s * n\<close> d(1) by (simp add: cdiv_def pos_imp_zdiv_nonneg_iff)
    then have "fair A n d ?s ?b"
      using s cdiv_le [OF d(1) m] cdiv_bounds [OF d(1), of "?s * n"] False by (auto simp: fair_def)
    with e show ?thesis by blast
  qed
qed

lemma exchanged_reciprocal:
  assumes n: "0 < n" "in64 n" and d: "0 < d" "in64 d" and A: "0 \<le> A" "A \<le> MaxInt64"
    and V: "0 \<le> V" "V \<le> A * n" "V \<le> MaxInt64 * d"
    and W: "W = min (MaxInt64 * d) (MaxInt64 * n)"
  shows "\<exists>sold bought. exchangedAmounts V W (Price d n) = Inr (sold, bought) \<and> fair A n d sold bought"
proof (cases "V < W")
  case True
  then show ?thesis by (rule exchanged_order_smaller [OF n d A V])
next
  case False
  then show ?thesis by (rule exchanged_offer_smaller [OF n d A V W])
qed

lemma getOfferValue_min: "getOfferValue a b (Some (Price n d)) = Inr (min (a * n) (b * d))"
  by (auto simp: getOfferValue_def MultiplyInt64_def min_def Let_def)

lemma Exchange_run:
  assumes "or_Price ord = Some (Price n d)"
    and "exchangedAmounts (min (or_MaxSellAsset ord * n) (or_MaxBuyAsset ord * d)) (min (s * n') (b * d')) (Price n' d') =
      Inr (sold, bought)"
  shows "Exchange ord b s (Some (Price n' d')) False =
    Inr (recordExchange (min (or_MaxSellAsset ord * n) (or_MaxBuyAsset ord * d) < min (s * n') (b * d')) sold bought ord)"
  unfolding Exchange_def assms(1) getOfferValue_min bindR_simps derefR_simps assms(2) by simp

text \<open>
  The liability of an offer: for a positive price and an amount that is not negative, the selling
  liability is at most the amount offered, neither liability is negative or overflows, and the two
  stand in the ratio of the price up to rounding by less than one unit of the dearer asset.
\<close>

theorem GetLiability_fair:
  assumes "o_Price f = Some (Price n d)" "0 < n" "in64 n" "0 < d" "in64 d" "0 \<le> o_Amount f" "in64 (o_Amount f)"
  shows "\<exists>sold bought. GetLiability f False = Inr sold \<and> GetLiability f True = Inr bought \<and>
    fair (o_Amount f) n d sold bought"
proof -
  let ?V = "min (o_Amount f * n) (MaxInt64 * d)" and ?W = "min (MaxInt64 * d) (MaxInt64 * n)"
  have A: "0 \<le> o_Amount f" "o_Amount f \<le> MaxInt64" using assms(6,7) by (simp_all add: in64_def)
  have V: "0 \<le> ?V" "?V \<le> o_Amount f * n" "?V \<le> MaxInt64 * d" using A assms(2,4) by simp_all
  obtain sold bought where e: "exchangedAmounts ?V ?W (Price d n) = Inr (sold, bought)"
    and f: "fair (o_Amount f) n d sold bought"
    using exchanged_reciprocal [OF assms(2-5) A V refl] by blast
  have "in64 sold" "in64 bought" using f A by (auto simp: fair_def in64_def)
  then have "GetLiability f buying = Inr (if buying then bought else sold)" for buying
    using Exchange_run [of "zeroOrder\<lparr>or_MaxSellAsset := o_Amount f, or_MaxBuyAsset := MaxInt64, or_Price := o_Price f\<rparr>" n d MaxInt64 d MaxInt64 n sold bought] e
    by (simp add: GetLiability_def reciprocal_def assms(1) recordExchange_def i64_id Let_def del: min_less_iff_conj)
      (simp add: zeroOrder_def i64_id)
  then show ?thesis using f by auto
qed

definition sample_offer :: offer where
  "sample_offer =
     \<lparr>o_AccountID = ''alice'', o_OfferID = ''1'', o_SellAsset = Some (Asset NATIVE ''ULU'' []),
      o_BuyAsset = Some (Asset CUSTOM ''COIN'' ''bob''), o_Amount = 1000, o_Price = Some (Price 2 3), o_Passive = 0\<rparr>"

theorem GetLiability_fair_witness:
  "\<exists>sold bought. GetLiability sample_offer False = Inr sold \<and> GetLiability sample_offer True = Inr bought \<and>
    fair 1000 2 3 sold bought"
  using GetLiability_fair [of sample_offer 2 3] by (simp add: sample_offer_def in64_def)

text \<open>
  An order can sell more than it may: the value of the order is scaled by the denominator of its
  own price and compared with, and divided by, numbers of the offer.  An order for at most 10 units
  at the price 400/100 that meets an offer at the price 1/8 sells 500 units, and the bound check
  that would catch it is never asked for.
\<close>

theorem Exchange_oversells:
  "\<exists>ord. Exchange (zeroOrder\<lparr>or_MaxSellAsset := 10, or_MaxBuyAsset := 100, or_Price := Some (Price 400 100)\<rparr>)
      1000000 1000000 (Some (Price 1 8)) False = Inr ord \<and>
    ComparePrice (Some (Price 100 400)) (Some (Price 1 8)) = Inr 1 \<and>
    or_SellAssetSold ord = 500 \<and> or_MaxSellAsset ord = -490 \<and> or_BuyAssetBought ord = 4000"
  by (simp add: Exchange_def getOfferValue_def exchangedAmounts_def DivideBigInt_def MultiplyInt64_def
      recordExchange_def zeroOrder_def ComparePrice_def newRat_def i64_def Let_def)


section \<open>Loading offers\<close>

definition rate :: "offer \<Rightarrow> rat" where
  "rate x = (case o_Price x of None \<Rightarrow> 0 | Some p \<Rightarrow> Fract (pr_Numerator p) (pr_Denominator p))"

definition priced :: "offer \<Rightarrow> bool" where
  "priced x \<longleftrightarrow> isOk (newRat (o_Price x))"

lemma pricedE:
  assumes "priced x"
  obtains n d where "newRat (o_Price x) = Inr (n, d)" "0 < d" "rate x = Fract n d"
proof (cases "o_Price x")
  case None
  then show ?thesis using assms by (simp add: priced_def newRat_def)
next
  case (Some p)
  have d: "pr_Denominator p \<noteq> 0" using assms Some by (auto simp: priced_def newRat_def split: if_splits)
  show ?thesis
  proof (cases "pr_Denominator p < 0")
    case True
    have "Fract (- pr_Numerator p) (- pr_Denominator p) = Fract (pr_Numerator p) (pr_Denominator p)"
      using d by (simp add: eq_rat)
    then show ?thesis using that [of "- pr_Numerator p" "- pr_Denominator p"] True Some
      by (simp add: newRat_def rate_def)
  next
    case False
    then show ?thesis using that [of "pr_Numerator p" "pr_Denominator p"] d Some
      by (simp add: newRat_def rate_def)
  qed
qed

lemma ComparePrice_rate:
  assumes "priced x" "priced y"
  shows "ComparePrice (o_Price x) (o_Price y) = Inr (if rate x < rate y then -1 else if rate x = rate y then 0 else 1)"
proof -
  obtain n d where x: "newRat (o_Price x) = Inr (n, d)" "0 < d" "rate x = Fract n d" using assms(1) by (rule pricedE)
  obtain m e where y: "newRat (o_Price y) = Inr (m, e)" "0 < e" "rate y = Fract m e" using assms(2) by (rule pricedE)
  have l: "Fract n d < Fract m e \<longleftrightarrow> n * e < m * d"
    using x(2) y(2) by (auto simp: less_rat mult_less_cancel_right zero_less_mult_iff mult_le_0_iff)
  have q: "Fract n d = Fract m e \<longleftrightarrow> n * e = m * d" using x(2) y(2) by (simp add: eq_rat)
  show ?thesis unfolding ComparePrice_def x(1,3) y(1,3) l q by (auto simp: sgn_if)
qed

interpretation by_price: sort_order "\<lambda>x y. rate x \<le> rate y" "\<lambda>x y. rate x \<le> rate y"
  by unfold_locales auto

lemma sortOffers_sorted:
  assumes "sortOffers xs = Inr ys"
  shows "mset ys = mset xs" and "sorted_wrt (\<lambda>x y. rate x \<le> rate y) ys"
proof -
  have ys: "ys = go_sort OfferSlice_Less xs" using assms by (auto simp: sortOffers_def split: if_splits)
  then show "mset ys = mset xs" by simp
  show "sorted_wrt (\<lambda>x y. rate x \<le> rate y) ys"
  proof (cases "length xs \<le> 1")
    case True
    then have "length ys \<le> 1" using ys by simp
    then show ?thesis by (cases ys) auto
  next
    case False
    then have "priced x" if "x \<in> set xs" for x
      using assms that by (auto simp: sortOffers_def list_all_iff priced_def split: if_splits)
    then have "ys = go_sort (\<lambda>x y. rate x \<le> rate y) xs"
      unfolding ys by (intro go_sort_cong) (simp add: OfferSlice_Less_def ComparePrice_rate)
    then show ?thesis using by_price.sorted_go_sort by simp
  qed
qed

text \<open>
  Best price first: the offers that an order meets are the stored offers of its pair of assets,
  each once, in the order of their price, whatever the order in which the store lists them.
\<close>

theorem loadOffers_cheapest_first:
  assumes "loadOffers iter sellAsset buyAsset d = Inr offers"
  shows "\<exists>bs decoded. GetAll iter EXCHANGE (sellAsset @ ''_'' @ buyAsset) d = Inr bs \<and>
    decodeOffers bs = Inr decoded \<and> mset offers = mset decoded \<and>
    sorted_wrt (\<lambda>x y. rate x \<le> rate y) offers"
  using assms sortOffers_sorted by (fastforce simp: loadOffers_def bindR_eq_Inr)

definition sample_offers :: db where
  "sample_offers =
     snd (thenA (SaveOffer sample_offer)
       (SaveOffer (sample_offer\<lparr>o_OfferID := ''2'', o_Price := Some (Price 1 3)\<rparr>)) (Some []))"

theorem loadOffers_cheapest_first_witness:
  "\<exists>bs decoded. GetAll (\<lambda>m. m) EXCHANGE (''ULU'' @ ''_'' @ ''COIN'') sample_offers = Inr bs \<and>
    decodeOffers bs = Inr decoded \<and>
    mset [sample_offer\<lparr>o_OfferID := ''2'', o_Price := Some (Price 1 3)\<rparr>, sample_offer] = mset decoded \<and>
    sorted_wrt (\<lambda>x y. rate x \<le> rate y) [sample_offer\<lparr>o_OfferID := ''2'', o_Price := Some (Price 1 3)\<rparr>, sample_offer]"
proof (rule loadOffers_cheapest_first)
  show "loadOffers (\<lambda>m. m) ''ULU'' ''COIN'' sample_offers =
      Inr [sample_offer\<lparr>o_OfferID := ''2'', o_Price := Some (Price 1 3)\<rparr>, sample_offer]"
    by code_simp
qed


section \<open>Filling an order\<close>

text \<open>Filling one offer changes amounts, never who trades what at which price.\<close>

definition same_terms :: "order \<Rightarrow> order \<Rightarrow> bool" where
  "same_terms x y \<longleftrightarrow>
     or_AccountID y = or_AccountID x \<and> or_SellAsset y = or_SellAsset x \<and> or_BuyAsset y = or_BuyAsset x \<and>
     or_Price y = or_Price x \<and> or_FilledOffers y = or_FilledOffers x \<and> or_FilterPrice y = or_FilterPrice x"

definition same_offer :: "offer \<Rightarrow> offer \<Rightarrow> bool" where
  "same_offer x y \<longleftrightarrow> (\<exists>n. y = x\<lparr>o_Amount := n\<rparr>)"

definition fills :: "fill \<Rightarrow> fill \<Rightarrow> bool" where
  "fills s t \<longleftrightarrow> same_terms (f_order s) (f_order t) \<and> same_offer (f_offer s) (f_offer t)"

interpretation fills: frame fills
proof
  have r: "x = x\<lparr>o_Amount := o_Amount x\<rparr>" for x :: offer by simp
  fix s t u
  show "fills s s" unfolding fills_def same_offer_def same_terms_def using r by blast
  assume st: "fills s t" and tu: "fills t u"
  from st tu have "same_terms (f_order s) (f_order u)" by (simp add: fills_def same_terms_def)
  moreover from st tu obtain n m where "f_offer t = (f_offer s)\<lparr>o_Amount := n\<rparr>" "f_offer u = (f_offer t)\<lparr>o_Amount := m\<rparr>"
    by (auto simp: fills_def same_offer_def)
  then have "f_offer u = (f_offer s)\<lparr>o_Amount := m\<rparr>" by simp
  then have "same_offer (f_offer s) (f_offer u)" unfolding same_offer_def by blast
  ultimately show "fills s u" by (simp add: fills_def)
qed

lemma snd_onDb: "snd (onDb m s) = s\<lparr>f_db := snd (m (f_db s))\<rparr>"
  by (simp add: onDb_def split: prod.split)

lemma fills_onDb [simp]: "fills s (snd (onDb m s))"
  using fills.frame_refl [of s] unfolding snd_onDb fills_def by simp

lemma Exchange_same_terms: "Exchange ord b s p c = Inr ord' \<Longrightarrow> same_terms ord ord'"
  by (auto simp: Exchange_def bindR_eq_Inr recordExchange_def same_terms_def Let_def split: option.splits)

lemma fills_offerTrust [simp]: "fills s (snd (offerTrust msg ass aid s))"
  unfolding offerTrust_def by (rule fills.frame_bind) auto

lemma fills_credit: "fills s (snd (creditBought acc t s))"
  unfolding creditBought_def
  by (intro fills.frame_bind) (auto intro!: fills.frame_bind fills.frame_then split: option.splits)

lemma fills_debit: "fills s (snd (debitSold acc t u s))"
  unfolding debitSold_def
  by (intro fills.frame_bind) (auto intro!: fills.frame_bind fills.frame_then split: option.splits)

lemma fills_set_amount: "fills s (s\<lparr>f_offer := (f_offer s)\<lparr>o_Amount := n\<rparr>\<rparr>)"
  by (auto simp: fills_def same_terms_def same_offer_def)

lemma fills_settle: "fills s (snd (settleOffer r acc s))"
  unfolding settleOffer_def
  by (intro fills.frame_then) (auto intro!: fills.frame_bind fills.frame_then simp: fills_set_amount)

lemma fills_set_order: "same_terms (f_order s) ord \<Longrightarrow> fills s (s\<lparr>f_order := ord\<rparr>)"
  using fills.frame_refl [of s] unfolding fills_def by simp

lemma fills_Fill: "fills s (snd (Fill r s))"
  unfolding Fill_def
  by (auto intro!: fills.frame_bind fills.frame_then fills_credit fills_debit fills_settle
      fills_set_order Exchange_same_terms split: prod.splits)

definition within_limit :: "price \<Rightarrow> string \<Rightarrow> offer \<Rightarrow> bool" where
  "within_limit threshold aid f \<longleftrightarrow>
     (\<exists>c \<ge> 0. ComparePrice (Some threshold) (o_Price f) = Inr c) \<and> o_AccountID f \<noteq> aid"

lemma within_limit_same: "same_offer f g \<Longrightarrow> within_limit p aid g = within_limit p aid f"
  by (auto simp: same_offer_def within_limit_def)

lemma fillOffers_limit:
  assumes "fillOffers r threshold offers ord d = (Inr ord', d')" "or_FilterPrice ord"
    and "list_all (within_limit threshold (or_AccountID ord)) (or_FilledOffers ord)"
  shows "list_all (within_limit threshold (or_AccountID ord)) (or_FilledOffers ord')"
  using assms
proof (induction offers arbitrary: ord d)
  case (Cons f offers)
  obtain c where c: "ComparePrice (Some threshold) (o_Price f) = Inr c"
    using Cons.prems(1,2) by (auto split: sum.splits)
  show ?case
  proof (cases "c < 0 \<or> o_AccountID f = or_AccountID ord")
    case True
    then show ?thesis using Cons.prems c by (auto split: if_splits)
  next
    case False
    let ?s = "\<lparr>f_db = d, f_order = ord, f_offer = f\<rparr>"
    obtain x s where x: "dropA (Fill r) ?s = (x, s)" by (cases "dropA (Fill r) ?s")
    then have s: "fills ?s s" using fills_Fill [of ?s r] by (metis snd_act_simps(2) snd_conv)
    then have o: "same_terms ord (f_order s)" "same_offer f (f_offer s)" by (auto simp: fills_def)
    have "within_limit threshold (or_AccountID ord) f" using False c by (auto simp: within_limit_def)
    then have w: "within_limit threshold (or_AccountID ord) (f_offer s)" using o(2) by (simp add: within_limit_same)
    have t: "or_AccountID (f_order s) = or_AccountID ord" "or_FilledOffers (f_order s) = or_FilledOffers ord"
      "or_FilterPrice (f_order s)" using o(1) Cons.prems(2) by (auto simp: same_terms_def)
    show ?thesis
    proof (cases "or_Full (f_order s)")
      case True
      then show ?thesis using Cons.prems False c x t by (auto split: sum.splits)
    next
      case nf: False
      let ?o = "(f_order s)\<lparr>or_FilledOffers := or_FilledOffers (f_order s) @ [f_offer s]\<rparr>"
      have "fillOffers r threshold offers ?o (f_db s) = (Inr ord', d')"
        using Cons.prems(1,2) False nf c x by (auto split: sum.splits)
      from Cons.IH [OF this] show ?thesis using t w Cons.prems(3) by simp
    qed
  qed
qed auto

text \<open>
  The price limit holds: every offer that an order with a price limit uses up is at a price no
  higher than the reciprocal of the order's price, and is not an offer of the account that placed the
  order.
\<close>

theorem FillOrder_price_limit:
  assumes "FillOrder r iter ord d = (Inr ord', d')" "or_FilterPrice ord" "or_FilledOffers ord = []"
    and "or_Price ord = Some (Price n m)"
  shows "list_all (within_limit (Price m n) (or_AccountID ord)) (or_FilledOffers ord')"
proof -
  obtain offers where "fillOffers r (Price m n) offers ord d = (Inr ord', d')"
    using assms(1,4) by (auto simp: FillOrder_def act_run reciprocal_def)
  from fillOffers_limit [OF this assms(2)] assms(3) show ?thesis by simp
qed

text \<open>
  A market of two: alice has an offer of 100 units of the native asset, at par, for the coin of an
  issuer; her account and her trust carry its liabilities.
\<close>

definition native :: asset where
  "native = Asset NATIVE ''ULU'' []"

definition coin :: asset where
  "coin = Asset CUSTOM ''COIN'' ''issuer''"

definition alice :: account where
  "alice = \<lparr>a_AccountID = ''alice'', a_Balance = 100, a_Signer = ''alice'', a_SeqNum = 1, a_EntryCount = 0,
     a_TxKeyList = [], a_Liability = Some (Liability 0 10)\<rparr>"

definition alice_coin :: trust where
  "alice_coin = \<lparr>t_AccountID = ''alice'', t_Asset = Some coin, t_Balance = 50, t_Limit = 100,
     t_Liability = Some (Liability 10 0), t_Authorized = 1\<rparr>"

definition alice_offer :: offer where
  "alice_offer = \<lparr>o_AccountID = ''alice'', o_OfferID = ''7'', o_SellAsset = Some native,
     o_BuyAsset = Some coin, o_Amount = 10, o_Price = Some (Price 1 1), o_Passive = 0\<rparr>"

definition market :: db where
  "market = snd (thenA (SaveAccount (Some alice)) (thenA (SaveTrust (Some alice_coin)) (SaveOffer alice_offer)) (Some []))"

definition coin_order :: "int \<Rightarrow> order" where
  "coin_order n = zeroOrder\<lparr>or_AccountID := ''carol'', or_SellAsset := Some coin, or_MaxSellAsset := n,
     or_BuyAsset := Some native, or_MaxBuyAsset := n, or_Price := Some (Price 1 1), or_FilterPrice := True\<rparr>"


theorem FillOrder_price_limit_witness:
  "or_FilledOffers (coin_order 500) = [] \<and>
   (\<exists>ord'. fst (FillOrder 1 (\<lambda>m. m) (coin_order 500) market) = Inr ord' \<and>
     or_FilledOffers ord' = [alice_offer] \<and> list_all (within_limit (Price 1 1) ''carol'') (or_FilledOffers ord'))"
proof -
  have r: "case fst (FillOrder 1 (\<lambda>m. m) (coin_order 500) market) of Inr x \<Rightarrow> or_FilledOffers x = [alice_offer] | Inl _ \<Rightarrow> False"
    by code_simp
  then obtain ord' d' where o: "FillOrder 1 (\<lambda>m. m) (coin_order 500) market = (Inr ord', d')"
    "or_FilledOffers ord' = [alice_offer]"
    by (cases "FillOrder 1 (\<lambda>m. m) (coin_order 500) market") (auto split: sum.splits)
  have "list_all (within_limit (Price 1 1) (or_AccountID (coin_order 500))) (or_FilledOffers ord')"
    by (rule FillOrder_price_limit [OF o(1)]) (simp_all add: coin_order_def zeroOrder_def)
  then show ?thesis using o by (simp add: coin_order_def zeroOrder_def)
qed


lemma SaveTrust_nil: "SaveTrust None d \<noteq> (Inr u, d')"
  by (simp add: SaveTrust_def encodePtr_def bindA_def)

lemma onDb_run: "onDb m s = (Inr x, t) \<longleftrightarrow> (\<exists>d. m (f_db s) = (Inr x, d) \<and> t = s\<lparr>f_db := d\<rparr>)"
  by (auto simp: onDb_def split: prod.splits)

lemma trustLiability_needs_trust:
  assumes "trustLiability msg aid ass n buy d = (Inr u, d')"
  shows "\<exists>t. GetTrust aid ass d = Inr (Some t)"
proof -
  obtain t t' where t: "GetTrust aid ass d = Inr t" "UpdateTrustLiability t n buy = Inr t'" "SaveTrust t' d = (Inr u, d')"
    using assms by (auto simp: trustLiability_def act_run)
  show ?thesis
  proof (cases t)
    case None
    with t(2) have "t' = None" by (auto simp: UpdateTrustLiability_def split: if_splits)
    with t(3) show ?thesis by (simp add: SaveTrust_nil)
  qed (use t in auto)
qed

lemma updateOfferLiability_needs_trust:
  assumes "updateOfferLiability f acq d = (Inr u, d')" "o_BuyAsset f = Some b" "as_Type b \<noteq> NATIVE"
  shows "\<exists>t. GetTrust (o_AccountID f) (Some b) d = Inr (Some t)"
  using assms trustLiability_needs_trust
  by (fastforce simp: updateOfferLiability_def act_run assetType_def Let_def)

lemma debitSold_needs_trust:
  assumes "debitSold acc None (Some u) s = (Inr x, t)"
  shows "or_SellAssetSold (f_order s) = 0 \<and> f_order t = f_order s"
  using assms by (auto simp: debitSold_def act_run onDb_run SaveTrust_nil split: if_splits)

lemma settleOffer_order: "settleOffer r acc s = (Inr u, t) \<Longrightarrow> f_order t = f_order s"
  by (auto simp: settleOffer_def act_run onDb_run split: if_splits)

lemma creditBought_order: "creditBought acc bt s = (Inr (acc', bt'), t) \<Longrightarrow> f_order t = f_order s \<and> (bt = None \<longrightarrow> bt' = None)"
  by (auto simp: creditBought_def act_run onDb_run split: if_splits option.splits)

lemma offerTrust_run:
  "offerTrust msg ass aid s = (Inr x, t) \<longleftrightarrow> fst (offerTrust msg ass aid s) = Inr x \<and> t = s"
  by (auto simp: offerTrust_def act_run onDb_run onDb_def bindA_def split: if_splits sum.splits prod.splits)

text \<open>The steps of a fill that succeeds.\<close>

lemma Fill_runE:
  assumes "Fill r s = (Inr (), t)"
  obtains acc bt st d1 s2 s3 s4 bt' acc' acc'' where
    "fst (offerTrust ''load sell asset trust for reciprocal offer failed: '' (o_SellAsset (f_offer s)) (o_AccountID (f_offer s)) s) = Inr bt"
    "fst (offerTrust ''load buy asset trust for reciprocal offer failed: '' (o_BuyAsset (f_offer s)) (o_AccountID (f_offer s)) s) = Inr st"
    "updateOfferLiability (f_offer s) False (f_db s) = (Inr (), d1)"
    "creditBought acc bt s2 = (Inr (acc', bt'), s3)"
    "debitSold acc' bt' st s3 = (Inr acc'', s4)" "settleOffer r acc'' s4 = (Inr (), t)"
  using assms unfolding Fill_def
  by (elim bindA_runE thenA_runE) (clarsimp elim!: bindA_runE simp: onDb_run offerTrust_run)

text \<open>
  No offer of the native asset for another asset can be settled: whenever filling such an offer
  succeeds, nothing was sold.
\<close>

theorem Fill_native_offer_fails:
  assumes "Fill r s = (Inr (), t)" "o_SellAsset (f_offer s) = Some a" "as_Type a = NATIVE"
    and "o_BuyAsset (f_offer s) = Some b" "as_Type b \<noteq> NATIVE"
  shows "or_SellAssetSold (f_order t) = 0"
proof -
  obtain acc bt st d1 s2 s3 s4 bt' acc' acc'' where run:
    "fst (offerTrust ''load sell asset trust for reciprocal offer failed: '' (o_SellAsset (f_offer s)) (o_AccountID (f_offer s)) s) = Inr bt"
    "fst (offerTrust ''load buy asset trust for reciprocal offer failed: '' (o_BuyAsset (f_offer s)) (o_AccountID (f_offer s)) s) = Inr st"
    "updateOfferLiability (f_offer s) False (f_db s) = (Inr (), d1)"
    "creditBought acc bt s2 = (Inr (acc', bt'), s3)"
    "debitSold acc' bt' st s3 = (Inr acc'', s4)" "settleOffer r acc'' s4 = (Inr (), t)"
    using assms(1) by (rule Fill_runE)
  have "bt = None" using run(1) assms(2,3) by (simp add: offerTrust_def assetType_def bindA_def)
  then have bt': "bt' = None" using creditBought_order [OF run(4)] by simp
  obtain tr where "GetTrust (o_AccountID (f_offer s)) (Some b) (f_db s) = Inr (Some tr)"
    using updateOfferLiability_needs_trust [OF run(3) assms(4,5)] by blast
  then have "st = Some tr"
    using run(2) assms(4,5) by (simp add: offerTrust_def assetType_def bindA_def onDb_def errorfA_def)
  then have "or_SellAssetSold (f_order s3) = 0 \<and> f_order s4 = f_order s3"
    using run(5) bt' debitSold_needs_trust by blast
  then show ?thesis using settleOffer_order [OF run(6)] by simp
qed

theorem Fill_native_offer_fails_witness:
  "fst (Fill 1 \<lparr>f_db = market, f_order = coin_order 0, f_offer = alice_offer\<rparr>) = Inr () \<and>
   or_SellAssetSold (f_order (snd (Fill 1 \<lparr>f_db = market, f_order = coin_order 0, f_offer = alice_offer\<rparr>))) = 0"
proof -
  let ?s = "\<lparr>f_db = market, f_order = coin_order 0, f_offer = alice_offer\<rparr>"
  have "isOk (fst (Fill 1 ?s))" by code_simp
  then obtain t where t: "Fill 1 ?s = (Inr (), t)" by (cases "Fill 1 ?s"; cases "fst (Fill 1 ?s)") auto
  have "or_SellAssetSold (f_order t) = 0"
    by (rule Fill_native_offer_fails [OF t, of native coin]) (simp_all add: alice_offer_def native_def coin_def)
  with t show ?thesis by simp
qed

end
