(* ===== verification/TxOps.thy ===== *)
theory TxOps
  imports ExchangeMgr
begin

text \<open>
  The operations of a transaction, \<open>tx/op/*.go\<close>: creating an account, payments, trusts and offers.
  Every operation checks, reads and writes the store through the account and exchange managers.
\<close>


section \<open>Creating an account\<close>

definition ErrAccountNotExist :: failure where
  "ErrAccountNotExist = Error ''account not exist''"

text \<open>A pointer that must not be nil, with the error the caller returns when it is.\<close>

definition present :: "failure \<Rightarrow> 'a option \<Rightarrow> ('s, 'a) act" where
  "present e p = (case p of None \<Rightarrow> failA e | Some a \<Rightarrow> retA a)"

record createAccount =
  c_SrcAccountID :: string
  c_DstAccountID :: string
  c_Balance :: int
  c_BaseReserve :: int
  c_LedgerSeqNum :: "64 word"

definition CreateAccount_Apply :: "int \<Rightarrow> createAccount \<Rightarrow> (db, unit) act" where
  "CreateAccount_Apply amReserve c =
     thenA (guardA (c_SrcAccountID c \<noteq> c_DstAccountID c) ''src and dst account is the same'')
    (thenA (guardA (c_Balance c \<noteq> 0) ''init balance for dst account is zero'')
    (bindA (errorfA (''get dst account '' @ c_DstAccountID c @ '' failed: '') (readA (GetAccount (c_DstAccountID c)))) (\<lambda>dstAcc.
     thenA (guardA (dstAcc = None) ''dst account already exists'')
    (bindA (errorfA (''get src account '' @ c_SrcAccountID c @ '' failed: '') (readA (GetAccount (c_SrcAccountID c)))) (\<lambda>srcAcc.
     bindA (present ErrAccountNotExist srcAcc) (\<lambda>src.
     thenA (guardA (\<not> a_Balance src < c_Balance c) ''src account is underfund'')
    (thenA (guardA (\<not> c_Balance c < c_BaseReserve c) ''init balance is smaller than base reserve'')
    (thenA (errorfA (''update account '' @ c_SrcAccountID c @ '' failed: '')
       (SaveAccount (Some (src\<lparr>a_Balance := i64 (a_Balance src - c_Balance c)\<rparr>))))
    (errorfA (''create account '' @ c_DstAccountID c @ '' failed: '')
       (CreateAccount amReserve (c_DstAccountID c) (c_Balance c) (c_SrcAccountID c) (c_LedgerSeqNum c)))))))))))"


section \<open>Payments\<close>

definition validateAsset :: "asset option \<Rightarrow> unit res" where
  "validateAsset ass =
     (case ass of
        None \<Rightarrow> Inl (Error ''asset is nil'')
      | Some a \<Rightarrow>
          if as_Type a = NATIVE then Inr ()
          else if length (as_Name a) \<le> 0 \<or> length (as_Name a) > 4 then Inl (Error ''invalid asset name'')
          else Inr ())"

record pathPayment =
  p_SrcAccountID :: string
  p_SrcAsset :: "asset option"
  p_SrcAmount :: int
  p_DstAccountID :: string
  p_DstAsset :: "asset option"
  p_DstAmount :: int
  p_Path :: "asset option list"

definition issuerExists :: "string \<Rightarrow> asset option \<Rightarrow> (db, unit) act" where
  "issuerExists msg ass =
     bindA (liftA (derefR ''asset'' ass)) (\<lambda>a.
     bindA (errorfA msg (readA (GetAccount (as_Issuer a)))) (\<lambda>issuer.
     thenA (present ErrAccountNotExist issuer) (retA ())))"

text \<open>Changing the balance of a trust, which must be authorised; a missing trust is a nil pointer.\<close>

definition changeTrust :: "string \<Rightarrow> asset option \<Rightarrow> int \<Rightarrow> (db, unit) act" where
  "changeTrust accountID ass amount =
     thenA (issuerExists ''get asset issuer failed: '' ass)
    (bindA (errorfA ''get dst trust failed: '' (readA (GetTrust accountID ass))) (\<lambda>trust.
     bindA (liftA (derefR ''trust'' trust)) (\<lambda>t.
     thenA (guardA (t_Authorized t \<noteq> 0) ''payment is not authorized'')
    (bindA (liftA (errorf ''add trust balance failed: '' (UpdateTrustBalance trust amount))) (\<lambda>trust'.
     errorfA ''save trust failed: '' (SaveTrust trust'))))))"

definition creditDst :: "pathPayment \<Rightarrow> (db, unit) act" where
  "creditDst pp =
     bindA (errorfA ''get dst account failed: '' (readA (GetAccount (p_DstAccountID pp)))) (\<lambda>dstAccount.
     bindA (present ErrAccountNotExist dstAccount) (\<lambda>dst.
     bindA (liftA (assetType (p_DstAsset pp))) (\<lambda>ty.
     if ty = NATIVE then
       bindA (liftA (errorf ''add balance failed: '' (UpdateBalance (Some dst) (p_DstAmount pp)))) (\<lambda>acc.
       errorfA ''save account failed: '' (SaveAccount acc))
     else changeTrust (p_DstAccountID pp) (p_DstAsset pp) (p_DstAmount pp))))"

text \<open>The path is exchanged backwards; the pair is the asset and the amount still to be paid.\<close>

fun exchangePath ::
  "int \<Rightarrow> db_order \<Rightarrow> asset option list \<Rightarrow> asset option \<Rightarrow> int \<Rightarrow> (db, asset option \<times> int) act" where
  "exchangePath r iter [] ass amount = retA (ass, amount)"
| "exchangePath r iter (p # path) ass amount =
     (if p = ass then exchangePath r iter path ass amount
      else
        bindA (liftA (assetType p)) (\<lambda>ty.
        thenA (if ty \<noteq> NATIVE then issuerExists ''get issuer account failed: '' p else retA ())
       (bindA (errorfA ''exchange assets failed: ''
          (FillOrder r iter (zeroOrder\<lparr>or_SellAsset := p, or_MaxSellAsset := MaxInt64,
             or_BuyAsset := ass, or_MaxBuyAsset := amount\<rparr>))) (\<lambda>ord.
        exchangePath r iter path p (or_SellAssetSold ord)))))"

definition debitSrc :: "pathPayment \<Rightarrow> asset option \<Rightarrow> int \<Rightarrow> (db, unit) act" where
  "debitSrc pp ass amount =
     bindA (liftA (assetType ass)) (\<lambda>ty.
     if ty = NATIVE then
       bindA (errorfA ''load source account failed: '' (readA (GetAccount (p_SrcAccountID pp)))) (\<lambda>srcAccount.
       bindA (present ErrAccountNotExist srcAccount) (\<lambda>src.
       bindA (liftA (UpdateBalance (Some src) (i64 (- amount)))) (\<lambda>acc.
       SaveAccount acc)))
     else changeTrust (p_SrcAccountID pp) ass (i64 (- amount)))"

fun validateAssets :: "asset option list \<Rightarrow> unit res" where
  "validateAssets [] = Inr ()"
| "validateAssets (a # as) =
     bindR (errorf ''validate path payment asset failed: '' (validateAsset a)) (\<lambda>_. validateAssets as)"

definition PathPayment_Apply :: "int \<Rightarrow> db_order \<Rightarrow> pathPayment \<Rightarrow> (db, unit) act" where
  "PathPayment_Apply r iter pp =
     thenA (liftA (errorf ''validate src payment asset failed: '' (validateAsset (p_SrcAsset pp))))
    (thenA (liftA (errorf ''validate dst payment asset failed: '' (validateAsset (p_DstAsset pp))))
    (thenA (liftA (validateAssets (p_Path pp)))
    (thenA (guardA (p_SrcAccountID pp \<noteq> [] \<and> p_DstAccountID pp \<noteq> []) ''invalid accountID'')
    (thenA (guardA (p_SrcAmount pp \<noteq> 0 \<and> p_DstAmount pp \<noteq> 0) ''invalid payment amount'')
    (thenA (creditDst pp)
    (bindA (exchangePath r iter (rev (p_SrcAsset pp # p_Path pp)) (p_DstAsset pp) (p_DstAmount pp)) (\<lambda>(ass, amount).
     thenA (guardA (\<not> amount > p_SrcAmount pp) ''deduced src payment amount is over the limit'')
    (debitSrc pp ass amount))))))))"

record payment =
  py_SrcAccountID :: string
  py_DstAccountID :: string
  py_Asset :: "asset option"
  py_Amount :: int

definition Payment_Apply :: "int \<Rightarrow> db_order \<Rightarrow> payment \<Rightarrow> (db, unit) act" where
  "Payment_Apply r iter p =
     thenA (liftA (errorf ''validate payment asset failed: '' (validateAsset (py_Asset p))))
    (thenA (guardA (py_Amount p \<noteq> 0) ''invalid payment amount'')
    (thenA (guardA (py_SrcAccountID p \<noteq> [] \<and> py_DstAccountID p \<noteq> []) ''invalid accountID'')
    (PathPayment_Apply r iter
      \<lparr>p_SrcAccountID = py_SrcAccountID p, p_SrcAsset = py_Asset p, p_SrcAmount = py_Amount p,
       p_DstAccountID = py_DstAccountID p, p_DstAsset = py_Asset p, p_DstAmount = py_Amount p, p_Path = []\<rparr>)))"


section \<open>Trusts\<close>

record trustChange =
  tc_SrcAccountID :: string
  tc_Asset :: "asset option"
  tc_Limit :: int

definition countEntry :: "int \<Rightarrow> string \<Rightarrow> string \<Rightarrow> int \<Rightarrow> account \<Rightarrow> (db, unit) act" where
  "countEntry r verb aid n acc =
     bindA (liftA (errorf (verb @ '' src account '' @ aid @ '' entry failed: '') (UpdateEntryCount r (Some acc) n))) (\<lambda>acc'.
     errorfA (''save src account '' @ aid @ '' failed: '') (SaveAccount acc'))"

definition newTrust :: "int \<Rightarrow> trustChange \<Rightarrow> account \<Rightarrow> (db, unit) act" where
  "newTrust r t srcAcc =
     thenA (guardA (tc_Limit t \<noteq> 0) ''trust limit cannot be zero'')
    (bindA (liftA (derefR ''asset'' (tc_Asset t))) (\<lambda>ass.
     bindA (errorfA (''get issuer '' @ as_Issuer ass @ '' account failed: '') (readA (GetAccount (as_Issuer ass)))) (\<lambda>issuerAcc.
     thenA (present ErrAccountNotExist issuerAcc)
    (thenA (countEntry r ''add'' (tc_SrcAccountID t) 1 srcAcc)
    (errorfA ''create trust failed: '' (CreateTrust (tc_SrcAccountID t) (tc_Asset t) (tc_Limit t)))))))"

definition changeLimit :: "trustChange \<Rightarrow> trust \<Rightarrow> (db, unit) act" where
  "changeLimit t trust =
     bindA (liftA (t_liability trust)) (\<lambda>l.
     thenA (guardA (\<not> tc_Limit t < i64 (t_Balance trust + l_Buying l)) ''cannot lower the trust limit below minimum list.'')
    (errorfA ''save trust failed: '' (SaveTrust (Some (trust\<lparr>t_Limit := tc_Limit t\<rparr>)))))"

definition Trust_Apply :: "int \<Rightarrow> trustChange \<Rightarrow> (db, unit) act" where
  "Trust_Apply r t =
     bindA (liftA (derefR ''asset'' (tc_Asset t))) (\<lambda>ass.
     thenA (guardA (tc_SrcAccountID t \<noteq> as_Issuer ass) ''cannot change trustline of self'')
    (bindA (errorfA ''get trust failed: '' (readA (GetTrust (tc_SrcAccountID t) (tc_Asset t)))) (\<lambda>trust.
     bindA (errorfA (''get src account '' @ tc_SrcAccountID t @ '' failed: '') (readA (GetAccount (tc_SrcAccountID t)))) (\<lambda>srcAcc.
     bindA (present ErrAccountNotExist srcAcc) (\<lambda>src.
     case trust of
       None \<Rightarrow> newTrust r t src
     | Some tr \<Rightarrow>
         if tc_Limit t = 0 then
           thenA (DeleteTrust (tc_SrcAccountID t) (tc_Asset t))
          (countEntry r ''subtract'' (tc_SrcAccountID t) (-1) src)
         else changeLimit t tr)))))"


section \<open>Offers\<close>

record offerOp =
  of_AccountID :: string
  of_BuyAsset :: "asset option"
  of_SellAsset :: "asset option"
  of_Amount :: int
  of_Price :: "price option"
  of_OfferID :: string
  of_Passive :: int

definition validateOffer :: "offerOp \<Rightarrow> unit res" where
  "validateOffer x =
     bindR (errorf ''asset for selling is invalid: '' (validateAsset (of_SellAsset x))) (\<lambda>_.
     bindR (errorf ''asset for buying is invalid: '' (validateAsset (of_BuyAsset x))) (\<lambda>_.
     if of_SellAsset x = of_BuyAsset x then Inl (Error ''identical asset for offer'')
     else bindR (derefR ''of.Price'' (of_Price x)) (\<lambda>p.
       if pr_Numerator p = 0 \<or> pr_Denominator p = 0 then Inl (Error ''price is invalid'')
       else if of_Amount x = 0 \<and> of_OfferID x = [] then Inl (Error ''amount of new offer is zero'')
       else Inr ())))"

definition loadAssetTrust :: "string \<Rightarrow> bool \<Rightarrow> string \<Rightarrow> asset option \<Rightarrow> db \<Rightarrow> trust option res" where
  "loadAssetTrust what selling aid ass d =
     bindR (derefR ''asset'' ass) (\<lambda>a.
     if as_Type a = NATIVE then Inr None
     else
       bindR (errorf (''get '' @ what @ '' trust failed: '') (GetTrust aid ass d)) (\<lambda>trust.
       bindR (errorf (''get '' @ what @ '' asset issuer failed: '') (GetAccount (as_Issuer a) d)) (\<lambda>_.
       bindR (derefR (what @ ''Trust'') trust) (\<lambda>t.
       if selling \<and> t_Balance t = 0 then Inl (Error ''selling trust is underfund'')
       else if t_Authorized t = 0 then Inl (Error (what @ '' trust is not authorized''))
       else Inr trust))))"

definition loadTrust :: "offerOp \<Rightarrow> db \<Rightarrow> (trust option \<times> trust option) res" where
  "loadTrust x d =
     bindR (loadAssetTrust ''selling'' True (of_AccountID x) (of_SellAsset x) d) (\<lambda>sellTrust.
     bindR (loadAssetTrust ''buying'' False (of_AccountID x) (of_BuyAsset x) d) (\<lambda>buyTrust.
     Inr (sellTrust, buyTrust)))"

definition tempEntry :: "int \<Rightarrow> bool \<Rightarrow> int \<Rightarrow> account option \<Rightarrow> (db, account option) act" where
  "tempEntry r newOffer n acc =
     (if newOffer then
        bindA (liftA (errorf ''increase account entry account failed: '' (UpdateEntryCount r acc n))) (\<lambda>acc'.
        thenA (errorfA ''save account failed: '' (SaveAccount acc')) (retA acc'))
      else retA acc)"

text \<open>The entry of a new offer is counted while the limits are computed, and then no longer.\<close>

definition getOfferLimits ::
  "int \<Rightarrow> offerOp \<Rightarrow> account option \<Rightarrow> trust option \<Rightarrow> trust option \<Rightarrow> offer \<Rightarrow> bool \<Rightarrow> (db, int \<times> int \<times> account option) act" where
  "getOfferLimits r x acc sellTrust buyTrust offer newOffer =
     bindA (tempEntry r newOffer 1 acc) (\<lambda>acc1.
     bindA (liftA (assetType (of_BuyAsset x))) (\<lambda>bty.
     bindA (liftA (if bty = NATIVE then GetRestLimit acc1 else GetTrustRestLimit buyTrust)) (\<lambda>buyLimit.
     bindA (liftA (errorf ''get buying liability failed: '' (GetLiability offer True))) (\<lambda>bl.
     thenA (guardA (\<not> buyLimit < bl) ''out of buying limit'')
    (bindA (liftA (assetType (of_SellAsset x))) (\<lambda>sty.
     bindA (liftA (if sty = NATIVE then GetBalance r acc1 else GetTrustBalance sellTrust)) (\<lambda>sellLimit.
     bindA (liftA (errorf ''get selling liability failed: '' (GetLiability offer False))) (\<lambda>sl.
     thenA (guardA (\<not> sellLimit < sl) ''account underfund'')
    (bindA (tempEntry r newOffer (-1) acc1) (\<lambda>acc2.
     retA (min sellLimit (o_Amount offer), buyLimit, acc2)))))))))))"

definition updateSide ::
  "asset option \<Rightarrow> account option \<Rightarrow> trust option \<Rightarrow> int \<Rightarrow> (db, account option \<times> trust option) act" where
  "updateSide ass acc trust amount =
     bindA (liftA (assetType ass)) (\<lambda>ty.
     if ty = NATIVE then
       bindA (liftA (errorf ''update account balance failed: '' (UpdateBalance acc amount))) (\<lambda>acc'.
       thenA (errorfA ''save account failed: '' (SaveAccount acc')) (retA (acc', trust)))
     else
       bindA (liftA (errorf ''update trust balance failed: '' (UpdateTrustBalance trust amount))) (\<lambda>trust'.
       thenA (errorfA ''save trust failed: '' (SaveTrust trust')) (retA (acc, trust'))))"

definition updateBalances ::
  "offerOp \<Rightarrow> account option \<Rightarrow> trust option \<Rightarrow> trust option \<Rightarrow> int \<Rightarrow> int
    \<Rightarrow> (db, account option \<times> trust option \<times> trust option) act" where
  "updateBalances x acc sellTrust buyTrust sold bought =
     bindA (updateSide (of_BuyAsset x) acc buyTrust bought) (\<lambda>(acc1, buyTrust').
     bindA (updateSide (of_SellAsset x) acc1 sellTrust (i64 (- sold))) (\<lambda>(acc2, sellTrust').
     retA (acc2, sellTrust', buyTrust')))"

text \<open>What is left of an order that was not filled: as much as the price divides evenly.\<close>

definition restAmount ::
  "int \<Rightarrow> offer \<Rightarrow> account option \<Rightarrow> trust option \<Rightarrow> trust option \<Rightarrow> int res" where
  "restAmount r sellOffer acc sellTrust buyTrust =
     bindR (GetMaxToSell r acc sellTrust) (\<lambda>m.
     bindR (GetMaxToBuy acc buyTrust) (\<lambda>bl.
     let ord = zeroOrder\<lparr>or_SellAsset := o_SellAsset sellOffer, or_MaxSellAsset := min (o_Amount sellOffer) m,
           or_BuyAsset := o_BuyAsset sellOffer, or_MaxBuyAsset := bl, or_Price := o_Price sellOffer\<rparr>
     in bindR (reciprocal (o_Price sellOffer)) (\<lambda>rp.
        bindR (errorf ''exchange assets failed: '' (Exchange ord MaxInt64 MaxInt64 (Some rp) False)) (\<lambda>ord'.
        Inr (or_SellAssetSold ord')))))"

text \<open>The first part: the account, its trusts, and the old offer, whose liability is released.\<close>

definition deleteOldOffer :: "int \<Rightarrow> account option \<Rightarrow> offer \<Rightarrow> (db, unit) act" where
  "deleteOldOffer r acc offer =
     thenA (errorfA ''delete offer failed: '' (DeleteOffer (Some offer)))
    (bindA (liftA (errorf ''decrease account entry account failed: '' (UpdateEntryCount r acc (-1)))) (\<lambda>acc'.
     errorfA ''save account failed: '' (SaveAccount acc')))"

text \<open>True is returned when there is nothing left to do.\<close>

definition replaceOffer :: "int \<Rightarrow> offerOp \<Rightarrow> account option \<Rightarrow> (db, bool) act" where
  "replaceOffer r x acc =
     (if of_OfferID x \<noteq> [] then
        bindA (liftA (assetName (of_SellAsset x))) (\<lambda>sn.
        bindA (liftA (assetName (of_BuyAsset x))) (\<lambda>bn.
        bindA (errorfA ''get offer failed: '' (readA (GetOffer (of_AccountID x) sn bn (of_OfferID x)))) (\<lambda>old.
        bindA (present (Error ''offer not exists'') old) (\<lambda>offer.
        thenA (errorfA ''release offer liability failed: '' (updateOfferLiability offer False))
       (if of_Amount x = 0 then thenA (deleteOldOffer r acc offer) (retA True) else retA False)))))
      else retA (of_Amount x = 0))"

text \<open>The last part: what remains is stored as an offer; \<open>freshID\<close> stands for \<open>crypto.GetOfferID\<close>.\<close>

definition storeRest :: "string res \<Rightarrow> bool \<Rightarrow> offer \<Rightarrow> (db, unit) act" where
  "storeRest freshID newOffer sellOffer =
     (if o_Amount sellOffer > 0 then
        bindA (if newOffer then liftA (errorf ''create offer id failed: '' freshID) else retA (o_OfferID sellOffer)) (\<lambda>oid.
        let sellOffer' = sellOffer\<lparr>o_OfferID := oid\<rparr> in
        thenA (errorfA ''save offer failed: '' (SaveOffer sellOffer'))
       (errorfA ''acquire offer liability failed: '' (updateOfferLiability sellOffer' True)))
      else retA ())"

definition tradeOffer ::
  "int \<Rightarrow> db_order \<Rightarrow> string res \<Rightarrow> offerOp \<Rightarrow> account option \<Rightarrow> trust option \<Rightarrow> trust option \<Rightarrow> bool \<Rightarrow> (db, unit) act" where
  "tradeOffer r iter freshID x acc sellTrust buyTrust newOffer =
     (let sellOffer = \<lparr>o_AccountID = of_AccountID x, o_OfferID = of_OfferID x, o_SellAsset = of_SellAsset x,
            o_BuyAsset = of_BuyAsset x, o_Amount = of_Amount x, o_Price = of_Price x, o_Passive = of_Passive x\<rparr>
      in
      bindA (errorfA ''get offer limits failed: '' (getOfferLimits r x acc sellTrust buyTrust sellOffer newOffer)) (\<lambda>(sellLimit, buyLimit, acc1).
      thenA (guardA (buyLimit \<noteq> 0) ''offer buying limit is zero'')
     (bindA (errorfA ''fill order failed: ''
        (FillOrder r iter (zeroOrder\<lparr>or_AccountID := of_AccountID x, or_SellAsset := of_SellAsset x,
           or_MaxSellAsset := sellLimit, or_BuyAsset := of_BuyAsset x, or_MaxBuyAsset := buyLimit,
           or_Price := of_Price x, or_FilterPrice := True\<rparr>))) (\<lambda>ord.
      bindA (if or_BuyAssetBought ord > 0
             then errorfA ''update account and trust balances failed: ''
               (updateBalances x acc1 sellTrust buyTrust (or_SellAssetSold ord) (or_BuyAssetBought ord))
             else retA (acc1, sellTrust, buyTrust)) (\<lambda>(acc2, sellTrust', buyTrust').
      bindA (if or_Full ord then retA 0
             else liftA (restAmount r (sellOffer\<lparr>o_Amount := i64 (sellLimit - or_SellAssetSold ord)\<rparr>) acc2 sellTrust' buyTrust')) (\<lambda>rest.
      storeRest freshID newOffer (sellOffer\<lparr>o_Amount := rest\<rparr>)))))))"

definition Offer_Apply :: "int \<Rightarrow> db_order \<Rightarrow> string res \<Rightarrow> offerOp \<Rightarrow> (db, unit) act" where
  "Offer_Apply r iter freshID x =
     thenA (liftA (errorf ''validate offer failed: '' (validateOffer x)))
    (bindA (errorfA ''get account failed: '' (readA (GetAccount (of_AccountID x)))) (\<lambda>acc.
     thenA (present ErrAccountNotExist acc)
    (bindA (errorfA ''load selling and buying trust failed: '' (readA (loadTrust x))) (\<lambda>(sellTrust, buyTrust).
     bindA (replaceOffer r x acc) (\<lambda>finished.
     if finished then retA ()
     else tradeOffer r iter freshID x acc sellTrust buyTrust (of_OfferID x = []))))))"


section \<open>Payments of the native asset\<close>

lemma storable_balance: "storable_account (a\<lparr>a_Balance := n\<rparr>) \<longleftrightarrow> storable_account a \<and> in64 n" if "in64 (a_Balance a)"
  using that by (auto simp: storable_account_def Account_utf8_def Account_fits_def account_size_def)

lemma storable_in64: "storable_account a \<Longrightarrow> in64 (a_Balance a)"
  by (simp add: storable_account_def Account_fits_def)

lemma thenA_Inr: "m s = (Inr a, t) \<Longrightarrow> thenA m n s = n t"
  by (simp add: thenA_def bindA_Inr)

lemma creditDst_native:
  assumes "opened d" "GetAccount (p_DstAccountID pp) d = Inr (Some b)" "a_AccountID b = p_DstAccountID pp" "storable_account b"
    and "p_DstAsset pp = Some x" "as_Type x = NATIVE"
    and "in64 (p_DstAmount pp)" "0 \<le> a_Balance b" "a_Balance b + p_DstAmount pp \<le> MaxInt64"
  obtains d' where "creditDst pp d = (Inr (), d')" "wrote ACCOUNT (p_DstAccountID pp) d d'"
    "GetAccount (p_DstAccountID pp) d' = Inr (Some (b\<lparr>a_Balance := a_Balance b + p_DstAmount pp\<rparr>))"
proof -
  let ?b = "b\<lparr>a_Balance := a_Balance b + p_DstAmount pp\<rparr>"
  have i: "in64 (a_Balance b)" using assms(4) by (rule storable_in64)
  have u: "UpdateBalance (Some b) (p_DstAmount pp) = Inr (Some ?b)"
    by (rule UpdateBalance_ok [OF assms(8) i assms(7,9)])
  have "in64 (a_Balance b + p_DstAmount pp)" using assms(7-9) by (auto simp: in64_def)
  then have s: "storable_account ?b" using assms(4) i by (simp add: storable_balance)
  obtain d' where d': "SaveAccount (Some ?b) d = (Inr (), d')" "wrote ACCOUNT (a_AccountID ?b) d d'"
    "GetAccount (a_AccountID ?b) d' = Inr (Some ?b)"
    using assms(1) s by (rule SaveAccount_ok)
  have "creditDst pp d = (Inr (), d')"
    using assms(2,5,6) u d'(1)
    by (simp add: creditDst_def bindA_def errorfA_def present_def assetType_def)
  then show ?thesis using that d' assms(3) by simp
qed

lemma debitSrc_native:
  assumes "opened d" "GetAccount (p_SrcAccountID pp) d = Inr (Some a)" "a_AccountID a = p_SrcAccountID pp" "storable_account a"
    and "ass = Some x" "as_Type x = NATIVE"
    and "in64 n" "in64 (- n)" "0 \<le> a_Balance a" "a_Balance a - n \<le> MaxInt64"
  obtains d' where "debitSrc pp ass n d = (Inr (), d')" "wrote ACCOUNT (p_SrcAccountID pp) d d'"
    "GetAccount (p_SrcAccountID pp) d' = Inr (Some (a\<lparr>a_Balance := a_Balance a - n\<rparr>))"
proof -
  let ?a = "a\<lparr>a_Balance := a_Balance a - n\<rparr>"
  have i: "in64 (a_Balance a)" using assms(4) by (rule storable_in64)
  have u: "UpdateBalance (Some a) (- n) = Inr (Some ?a)"
    using UpdateBalance_ok [OF assms(9) i assms(8)] assms(10) by simp
  have "in64 (a_Balance a - n)" using assms(7-10) by (auto simp: in64_def)
  then have s: "storable_account ?a" using assms(4) i by (simp add: storable_balance)
  obtain d' where d': "SaveAccount (Some ?a) d = (Inr (), d')" "wrote ACCOUNT (a_AccountID ?a) d d'"
    "GetAccount (a_AccountID ?a) d' = Inr (Some ?a)"
    using assms(1) s by (rule SaveAccount_ok)
  have "debitSrc pp ass n d = (Inr (), d')"
    using assms(2,5,6,8) u d'(1)
    by (simp add: debitSrc_def bindA_def errorfA_def present_def assetType_def i64_id)
  then show ?thesis using that d' assms(3) by simp
qed

text \<open>
  C39.  A payment of the native asset between two accounts moves exactly the amount: it leaves the sum
  of the two balances and every other account alone.  Nothing but the range of the integers limits
  it: the amount may exceed the balance of the payer, and it may be negative, which takes the money
  from the account that is named as the receiver.
\<close>

theorem Payment_native_moves:
  assumes "opened d" "GetAccount src d = Inr (Some a)" "GetAccount dst d = Inr (Some b)"
    and "a_AccountID a = src" "a_AccountID b = dst" "storable_account a" "storable_account b"
    and "src \<noteq> dst" "src \<noteq> []" "dst \<noteq> []" "as_Type x = NATIVE"
    and "n \<noteq> 0" "in64 n" "in64 (- n)" "0 \<le> a_Balance a" "0 \<le> a_Balance b"
    and "a_Balance b + n \<le> MaxInt64" "a_Balance a - n \<le> MaxInt64"
  shows "\<exists>d'. Payment_Apply r iter \<lparr>py_SrcAccountID = src, py_DstAccountID = dst, py_Asset = Some x, py_Amount = n\<rparr> d = (Inr (), d') \<and>
    GetAccount src d' = Inr (Some (a\<lparr>a_Balance := a_Balance a - n\<rparr>)) \<and>
    GetAccount dst d' = Inr (Some (b\<lparr>a_Balance := a_Balance b + n\<rparr>)) \<and>
    (\<forall>other. other \<notin> {src, dst} \<longrightarrow> GetAccount other d' = GetAccount other d)"
proof -
  define pp where "pp = \<lparr>p_SrcAccountID = src, p_SrcAsset = Some x, p_SrcAmount = n, p_DstAccountID = dst,
    p_DstAsset = Some x, p_DstAmount = n, p_Path = []\<rparr>"
  obtain d1 where d1: "creditDst pp d = (Inr (), d1)" "wrote ACCOUNT dst d d1"
    "GetAccount dst d1 = Inr (Some (b\<lparr>a_Balance := a_Balance b + n\<rparr>))"
    using creditDst_native [of d pp b x] assms by (auto simp: pp_def)
  have "GetAccount src d1 = Inr (Some a)" using wrote_GetAccount [OF d1(2), of src] assms(2,8) by simp
  then obtain d2 where d2: "debitSrc pp (Some x) n d1 = (Inr (), d2)" "wrote ACCOUNT src d1 d2"
    "GetAccount src d2 = Inr (Some (a\<lparr>a_Balance := a_Balance a - n\<rparr>))"
    using debitSrc_native [of d1 pp a "Some x" x n] wrote_opened [OF d1(2)] assms by (auto simp: pp_def)
  have "Payment_Apply r iter \<lparr>py_SrcAccountID = src, py_DstAccountID = dst, py_Asset = Some x, py_Amount = n\<rparr> d = (Inr (), d2)"
    using assms(9-12) d1(1) d2(1) unfolding pp_def
    by (simp add: Payment_Apply_def PathPayment_Apply_def validateAsset_def thenA_def bindA_def)
  moreover have "GetAccount dst d2 = Inr (Some (b\<lparr>a_Balance := a_Balance b + n\<rparr>))"
    using wrote_GetAccount [OF d2(2), of dst] d1(3) assms(8) by simp
  moreover have "\<forall>other. other \<notin> {src, dst} \<longrightarrow> GetAccount other d2 = GetAccount other d"
    using wrote_GetAccount [OF d1(2)] wrote_GetAccount [OF d2(2)] by auto
  ultimately show ?thesis using d2(3) by blast
qed

definition bob :: account where
  "bob = \<lparr>a_AccountID = ''bob'', a_Balance = 70, a_Signer = ''bob'', a_SeqNum = 1, a_EntryCount = 0,
     a_TxKeyList = [], a_Liability = Some (Liability 0 0)\<rparr>"

definition two_accounts :: db where
  "two_accounts = snd (thenA (SaveAccount (Some alice)) (SaveAccount (Some bob)) (Some []))"

lemma two_accounts_facts:
  "opened two_accounts" "GetAccount ''alice'' two_accounts = Inr (Some alice)"
  "GetAccount ''bob'' two_accounts = Inr (Some bob)" "GetAccount ''carol'' two_accounts = Inr None"
  by code_simp+

lemma sample_accounts_storable: "storable_account alice" "storable_account bob"
  by (simp_all add: storable_account_def alice_def bob_def Account_utf8_def Account_fits_def Liability_utf8_def
      Liability_fits_def account_size_def in64_def in32_def)

theorem Payment_native_moves_witness:
  "\<exists>d'. Payment_Apply 1 (\<lambda>m. m) \<lparr>py_SrcAccountID = ''alice'', py_DstAccountID = ''bob'',
        py_Asset = Some native, py_Amount = -60\<rparr> two_accounts = (Inr (), d') \<and>
     GetAccount ''alice'' d' = Inr (Some (alice\<lparr>a_Balance := 160\<rparr>)) \<and>
     GetAccount ''bob'' d' = Inr (Some (bob\<lparr>a_Balance := 10\<rparr>))"
  using Payment_native_moves [OF two_accounts_facts(1-3) _ _ sample_accounts_storable, of native "-60" 1 "\<lambda>m. m"]
  by (auto simp: alice_def bob_def native_def in64_def)


section \<open>Creating accounts\<close>

lemma CreateAccount_ok:
  assumes "opened d" "r \<le> n"
    and "storable_account \<lparr>a_AccountID = aid, a_Balance = n, a_Signer = signer, a_SeqNum = q, a_EntryCount = 0,
      a_TxKeyList = [], a_Liability = Some (Liability 0 0)\<rparr>" (is "storable_account ?a")
  obtains d' where "CreateAccount r aid n signer q d = (Inr (), d')" "wrote ACCOUNT aid d d'"
    "GetAccount aid d' = Inr (Some ?a)"
proof -
  obtain b where b: "EncodeAccount ?a = Inr b" using accounts.stores [OF assms(3)] by blast
  obtain d' where p: "Put ACCOUNT aid b d = (Inr (), d')" using mem.put_ok [OF assms(1)] by metis
  have "CreateAccount r aid n signer q d = (Inr (), d')"
    using p assms(2) by (simp add: CreateAccount_def b thenA_def bindA_def errorfA_def Let_def)
  moreover have "wrote ACCOUNT aid d d'" using Put_wrote [OF assms(1)] p by (metis bucket_ok_ACCOUNT snd_conv)
  moreover have "GetAccount aid d' = Inr (Some ?a)"
    using accounts.load_put_same [OF assms(1,3) b, of aid] p by (simp add: GetAccount_iff)
  ultimately show ?thesis by (rule that)
qed

text \<open>
  Creating an account: the new account starts with the balance taken from the account that pays
  for it, which signs for it; no other account changes; and it is only possible when the payer has the
  balance and the balance covers both reserves.
\<close>

theorem CreateAccount_Apply_moves:
  assumes "opened d" "GetAccount src d = Inr (Some a)" "GetAccount dst d = Inr None" "a_AccountID a = src"
    and "storable_account a" "utf8_valid dst" "length dst + length src < 2 ^ 32"
    and "src \<noteq> dst" "n \<noteq> 0" "in64 n" "n \<le> a_Balance a" "r \<le> n" "r' \<le> n" "0 \<le> r"
  shows "\<exists>d'. CreateAccount_Apply r \<lparr>c_SrcAccountID = src, c_DstAccountID = dst, c_Balance = n, c_BaseReserve = r', c_LedgerSeqNum = q\<rparr> d = (Inr (), d') \<and>
    GetAccount src d' = Inr (Some (a\<lparr>a_Balance := a_Balance a - n\<rparr>)) \<and>
    GetAccount dst d' = Inr (Some \<lparr>a_AccountID = dst, a_Balance = n, a_Signer = src, a_SeqNum = q, a_EntryCount = 0,
      a_TxKeyList = [], a_Liability = Some (Liability 0 0)\<rparr>) \<and>
    (\<forall>other. other \<notin> {src, dst} \<longrightarrow> GetAccount other d' = GetAccount other d)"
proof -
  let ?a = "a\<lparr>a_Balance := a_Balance a - n\<rparr>"
  let ?b = "\<lparr>a_AccountID = dst, a_Balance = n, a_Signer = src, a_SeqNum = q, a_EntryCount = 0,
      a_TxKeyList = [], a_Liability = Some (Liability 0 0)\<rparr>"
  have i: "in64 (a_Balance a)" using assms(5) by (rule storable_in64)
  then have i': "in64 (a_Balance a - n)" using assms(10-12,14) by (auto simp: in64_def)
  then have sa: "storable_account ?a" using assms(5) i by (simp add: storable_balance)
  have sb: "storable_account ?b"
    using assms(4-7,10) by (auto simp: storable_account_def Account_utf8_def Account_fits_def Liability_utf8_def
        Liability_fits_def account_size_def in64_def in32_def)
  obtain d1 where d1: "SaveAccount (Some ?a) d = (Inr (), d1)" "wrote ACCOUNT (a_AccountID ?a) d d1"
    "GetAccount (a_AccountID ?a) d1 = Inr (Some ?a)" using assms(1) sa by (rule SaveAccount_ok)
  obtain d2 where d2: "CreateAccount r dst n src q d1 = (Inr (), d2)" "wrote ACCOUNT dst d1 d2"
    "GetAccount dst d2 = Inr (Some ?b)"
    using wrote_opened [OF d1(2)] assms(12) sb by (rule CreateAccount_ok)
  have "CreateAccount_Apply r \<lparr>c_SrcAccountID = src, c_DstAccountID = dst, c_Balance = n, c_BaseReserve = r', c_LedgerSeqNum = q\<rparr> d = (Inr (), d2)"
    using assms(2,3,8,9,11,13) d1(1) d2(1) i'
    by (simp add: CreateAccount_Apply_def thenA_def bindA_def errorfA_def present_def i64_id)
  moreover have "GetAccount src d2 = Inr (Some ?a)"
    using wrote_GetAccount [OF d2(2), of src] d1(3) assms(4,8) by simp
  moreover have "\<forall>other. other \<notin> {src, dst} \<longrightarrow> GetAccount other d2 = GetAccount other d"
    using wrote_GetAccount [OF d1(2)] wrote_GetAccount [OF d2(2)] assms(4) by auto
  ultimately show ?thesis using d2(3) by blast
qed

theorem CreateAccount_Apply_moves_witness:
  "\<exists>d'. CreateAccount_Apply 1 \<lparr>c_SrcAccountID = ''alice'', c_DstAccountID = ''carol'', c_Balance = 30, c_BaseReserve = 1, c_LedgerSeqNum = 5\<rparr>
      two_accounts = (Inr (), d') \<and>
     GetAccount ''alice'' d' = Inr (Some (alice\<lparr>a_Balance := 70\<rparr>)) \<and> GetAccount ''bob'' d' = Inr (Some bob)"
proof -
  have a: "a_AccountID alice = ''alice''" "a_Balance alice = 100" by (simp_all add: alice_def)
  have "\<exists>d'. CreateAccount_Apply 1 \<lparr>c_SrcAccountID = ''alice'', c_DstAccountID = ''carol'', c_Balance = 30, c_BaseReserve = 1, c_LedgerSeqNum = 5\<rparr>
      two_accounts = (Inr (), d') \<and>
     GetAccount ''alice'' d' = Inr (Some (alice\<lparr>a_Balance := a_Balance alice - 30\<rparr>)) \<and>
     GetAccount ''carol'' d' = Inr (Some \<lparr>a_AccountID = ''carol'', a_Balance = 30, a_Signer = ''alice'', a_SeqNum = 5, a_EntryCount = 0,
      a_TxKeyList = [], a_Liability = Some (Liability 0 0)\<rparr>) \<and>
     (\<forall>other. other \<notin> {''alice'', ''carol''} \<longrightarrow> GetAccount other d' = GetAccount other two_accounts)"
    by (rule CreateAccount_Apply_moves [OF two_accounts_facts(1,2,4) a(1) sample_accounts_storable(1)])
      (simp_all add: a in64_def)
  then obtain d' where d': "CreateAccount_Apply 1 \<lparr>c_SrcAccountID = ''alice'', c_DstAccountID = ''carol'', c_Balance = 30, c_BaseReserve = 1, c_LedgerSeqNum = 5\<rparr>
      two_accounts = (Inr (), d')" "GetAccount ''alice'' d' = Inr (Some (alice\<lparr>a_Balance := a_Balance alice - 30\<rparr>))"
    "\<forall>other. other \<notin> {''alice'', ''carol''} \<longrightarrow> GetAccount other d' = GetAccount other two_accounts" by blast
  have "GetAccount ''bob'' d' = Inr (Some bob)"
    using d'(3) [THEN spec, of "''bob''"] two_accounts_facts(3) by simp
  with d'(1,2) a(2) show ?thesis by simp
qed


section \<open>Trusts in the asset without a name\<close>

text \<open>
  The bytes of an account, read as a trust: the account number and the sequence number are taken for
  the owner and the limit, everything else is skipped, and the liability is nil.
\<close>

definition account_as_trust :: "account \<Rightarrow> trust" where
  "account_as_trust a =
     \<lparr>t_AccountID = a_AccountID a, t_Asset = None, t_Balance = 0, t_Limit = i64 (int (unat (a_SeqNum a))),
      t_Liability = None, t_Authorized = 0\<rparr>"

lemma skips:
  "upd_all Trust_upd (int_field 2 x) m = Some m" "upd_all Trust_upd (str_field 3 s) m = Some m"
  "upd_all Trust_upd (int_field 5 x) m = Some m" "upd_all Trust_upd (msg_field 7 flds y) m = Some m"
  by (auto simp: int_field_def str_field_def msg_field_def Trust_upd_def split: option.splits)

lemma skips_list: "upd_all Trust_upd (strs_field 6 xs) m = Some m"
proof (induction xs)
  case (Cons x xs)
  have "Trust_upd (6, WLen x) m = Some m" by (simp add: Trust_upd_def)
  with Cons show ?case by (simp add: strs_field_def)
qed (simp add: strs_field_def)

lemma trust_reads_account:
  assumes "utf8_valid (a_AccountID a)"
  shows "upd_all Trust_upd (Account_fields a) zero_Trust = Some (account_as_trust a)"
proof -
  have "upd_all Trust_upd (str_field 1 (a_AccountID a)) zero_Trust = Some (zero_Trust\<lparr>t_AccountID := a_AccountID a\<rparr>)"
    using assms by (simp add: str_field_def Trust_upd_def read_str_def zero_Trust_def)
  moreover have "upd_all Trust_upd (word_field 4 (a_SeqNum a)) m = Some (m\<lparr>t_Limit := i64 (int (unat (a_SeqNum a)))\<rparr>)"
    if "t_Limit m = 0" for m
    using that by (cases m) (auto simp: word_field_def Trust_upd_def i64_def)
  ultimately show ?thesis
    by (simp add: Account_fields_def upd_all_append skips skips_list account_as_trust_def zero_Trust_def del: One_nat_def)
qed

lemma zero_asset_trust:
  assumes "Get ACCOUNT aid d = Inr (Some b)" "EncodeAccount a = Inr b" "storable_account a" "aid \<noteq> []"
  shows "GetTrust aid (Some (Asset NATIVE [] [])) d = Inr (Some (account_as_trust a))"
proof -
  have b: "b = put_fields (Account_fields a)"
    using assms(2,3) by (simp add: EncodeAccount_def marshal_def storable_account_def)
  have "length b < wire_max" using Account_length [of a] assms(3) b by (simp add: storable_account_def wire_max_def)
  then have "get_fields b = Some (Account_fields a)"
    using get_put_fields [OF num_ok_wf [OF Account.nums [of a]]] b by simp
  then have "DecodeTrust b = Inr (account_as_trust a)"
    using trust_reads_account [of a] assms(3)
    by (simp add: DecodeTrust_def unmarshal_def merge_def storable_account_def Account_utf8_def)
  moreover have "trustKey aid (Some (Asset NATIVE [] [])) = Inr aid"
    using zero_Asset_ok by (simp add: trustKey_ok asset_ok_def zero_Asset_def)
  ultimately show ?thesis using assms(1,4) by (simp add: GetTrust_def)
qed

text \<open>
  An operation that crashes the node: changing the trust of any stored account in the asset with
  no type, name and issuer panics.  The key of that trust is the key of the account, so the account
  is read as a trust, and its missing liability is dereferenced.
\<close>

theorem Trust_Apply_zero_asset_panics:
  assumes "Get ACCOUNT aid d = Inr (Some b)" "EncodeAccount a = Inr b" "storable_account a" "aid \<noteq> []" "limit \<noteq> 0"
  shows "Trust_Apply r \<lparr>tc_SrcAccountID = aid, tc_Asset = Some (Asset NATIVE [] []), tc_Limit = limit\<rparr> d =
    (Inl (Panic ''trust.Liability''), d)"
proof -
  have "DecodeAccount b = Inr a" using accounts.stores [OF assms(3)] assms(2) by auto
  then have g: "GetAccount aid d = Inr (Some a)" using assms(1) by (simp add: GetAccount_def)
  show ?thesis
    using assms(4,5) g zero_asset_trust [OF assms(1-4)]
    by (simp add: Trust_Apply_def thenA_def bindA_def errorfA_def present_def changeLimit_def t_liability_def account_as_trust_def)
qed

theorem Trust_Apply_zero_asset_panics_witness:
  "Trust_Apply 1 \<lparr>tc_SrcAccountID = ''alice'', tc_Asset = Some (Asset NATIVE [] []), tc_Limit = 5\<rparr> two_accounts =
    (Inl (Panic ''trust.Liability''), two_accounts)"
proof -
  have "EncodeAccount alice = Inr (put_fields (Account_fields alice))"
    using sample_accounts_storable(1) by (simp add: EncodeAccount_def marshal_def storable_account_def)
  moreover have "Get ACCOUNT ''alice'' two_accounts = Inr (Some (put_fields (Account_fields alice)))" by code_simp
  ultimately show ?thesis
    using Trust_Apply_zero_asset_panics [of "''alice''" two_accounts _ alice 5 1] sample_accounts_storable(1) by simp
qed


section \<open>Path payments\<close>

lemma FillOrder_needs_price: "or_Price ord = None \<Longrightarrow> \<not> isOk (fst (FillOrder r iter ord d))"
  by (cases "FillOrder r iter ord d"; cases "fst (FillOrder r iter ord d)")
    (auto simp: FillOrder_def act_run reciprocal_def)

lemma exchangePath_fails:
  "\<exists>p \<in> set path. p \<noteq> ass \<Longrightarrow> exchangePath r iter path ass n d \<noteq> (Inr x, d')"
proof (induction path arbitrary: ass n d)
  case (Cons p path)
  show ?case
  proof (cases "p = ass")
    case True
    then show ?thesis using Cons by auto
  next
    case False
    show ?thesis
    proof
      assume "exchangePath r iter (p # path) ass n d = (Inr x, d')"
      with False obtain ord e e' where
        "FillOrder r iter (zeroOrder\<lparr>or_SellAsset := p, or_MaxSellAsset := MaxInt64, or_BuyAsset := ass, or_MaxBuyAsset := n\<rparr>) e = (Inr ord, e')"
        by (auto simp: act_run)
      then show False
        using FillOrder_needs_price [of "zeroOrder\<lparr>or_SellAsset := p, or_MaxSellAsset := MaxInt64, or_BuyAsset := ass, or_MaxBuyAsset := n\<rparr>" r iter e]
        by (simp add: zeroOrder_def)
    qed
  qed
qed simp

text \<open>
  No payment across assets succeeds: the order that a path payment places for each step has no
  price, and filling it needs one.
\<close>

theorem PathPayment_never_crosses:
  assumes "p_SrcAsset pp \<noteq> p_DstAsset pp"
  shows "\<not> isOk (fst (PathPayment_Apply r iter pp d))"
proof
  assume "isOk (fst (PathPayment_Apply r iter pp d))"
  then obtain u d' where "PathPayment_Apply r iter pp d = (Inr u, d')"
    by (cases "PathPayment_Apply r iter pp d"; cases "fst (PathPayment_Apply r iter pp d)") auto
  then obtain x e e' where "exchangePath r iter (rev (p_SrcAsset pp # p_Path pp)) (p_DstAsset pp) (p_DstAmount pp) e = (Inr x, e')"
    by (auto simp: PathPayment_Apply_def act_run)
  then show False using exchangePath_fails [of "rev (p_SrcAsset pp # p_Path pp)" "p_DstAsset pp"] assms by auto
qed

theorem PathPayment_never_crosses_witness:
  "\<not> isOk (fst (PathPayment_Apply 1 (\<lambda>m. m)
     \<lparr>p_SrcAccountID = ''alice'', p_SrcAsset = Some native, p_SrcAmount = 10, p_DstAccountID = ''bob'',
      p_DstAsset = Some coin, p_DstAmount = 10, p_Path = []\<rparr> two_accounts))"
  by (rule PathPayment_never_crosses) (simp add: native_def coin_def)


section \<open>Placing an offer\<close>

definition issuer :: account where
  "issuer = \<lparr>a_AccountID = ''issuer'', a_Balance = 90, a_Signer = ''issuer'', a_SeqNum = 3, a_EntryCount = 0,
     a_TxKeyList = [], a_Liability = Some (Liability 0 0)\<rparr>"

definition dave :: account where
  "dave = \<lparr>a_AccountID = ''dave'', a_Balance = 1200, a_Signer = ''dave'', a_SeqNum = 2, a_EntryCount = 0,
     a_TxKeyList = [], a_Liability = Some (Liability 0 0)\<rparr>"

definition with_trust :: "unit res \<times> db" where
  "with_trust =
     thenA (SaveAccount (Some dave)) (thenA (SaveAccount (Some issuer))
       (Trust_Apply 100 \<lparr>tc_SrcAccountID = ''dave'', tc_Asset = Some coin, tc_Limit = 900\<rparr>)) (Some [])"

definition with_offer :: "unit res \<times> db" where
  "with_offer =
     Offer_Apply 100 (\<lambda>m. m) (Inr ''offer'')
       \<lparr>of_AccountID = ''dave'', of_BuyAsset = Some coin, of_SellAsset = Some native, of_Amount = 1000,
        of_Price = Some (Price 2 3), of_OfferID = [], of_Passive = 0\<rparr> (snd with_trust)"

text \<open>
  The run of the repository's own test of offers: after a trust and an offer of 1000 units at
  the price 2/3 the exchange holds an offer of 999, the account has the selling liability 999 and
  the trust the buying liability 666.  The trust is counted as an entry of the account, the offer is
  not.
\<close>

theorem Offer_Apply_test_run:
  "case with_offer of (r, d) \<Rightarrow>
     r = Inr () \<and>
     GetAccountOffers (\<lambda>m. m) ''dave'' d =
       Inr [\<lparr>o_AccountID = ''dave'', o_OfferID = ''offer'', o_SellAsset = Some native, o_BuyAsset = Some coin,
             o_Amount = 999, o_Price = Some (Price 2 3), o_Passive = 0\<rparr>] \<and>
     GetAccount ''dave'' d = Inr (Some (dave\<lparr>a_EntryCount := 1, a_Liability := Some (Liability 0 999)\<rparr>)) \<and>
     GetTrust ''dave'' (Some coin) d =
       Inr (Some \<lparr>t_AccountID = ''dave'', t_Asset = Some coin, t_Balance = 0, t_Limit = 900,
         t_Liability = Some (Liability 666 0), t_Authorized = 1\<rparr>)"
  by code_simp

end
