(* ===== verification/Keys.thy ===== *)
theory Keys
  imports Codec
begin

text \<open>
  Keys and hashes: \<open>crypto/key.go\<close>, \<open>keypair.go\<close>, \<open>util.go\<close>, \<open>hash.go\<close>, the argsort of
  \<open>util/sorter.go\<close> and the keys of transactions, transaction sets and ledger headers in
  \<open>ultpb/codec.go\<close>.  SHA-256, base58 and Ed25519 are third-party packages: they are the fields of
  a record that every definition takes.
\<close>

section \<open>What the keys are made of\<close>

record crypto =
  k_sha256 :: "string \<Rightarrow> string"
  k_b58Encode :: "string \<Rightarrow> string"
  k_b58Decode :: "string \<Rightarrow> string res"
  k_public :: "string \<Rightarrow> string"
  k_sign :: "string \<Rightarrow> string \<Rightarrow> string"
  k_verify :: "string \<Rightarrow> string \<Rightarrow> string \<Rightarrow> bool"

text \<open>
  Documented behaviour.  Decoding inverts encoding on every input but the empty one, whose encoding
  is the empty string, which \<open>Decode\<close> refuses.  A signature is not empty and verifies with the public
  key of its seed, which has 32 bytes.
\<close>

definition b58_inverts :: "crypto \<Rightarrow> bool" where
  "b58_inverts c \<longleftrightarrow> (\<forall>b. b \<noteq> [] \<longrightarrow> k_b58Encode c b \<noteq> [] \<and> k_b58Decode c (k_b58Encode c b) = Inr b)"

definition signatures_verify :: "crypto \<Rightarrow> bool" where
  "signatures_verify c \<longleftrightarrow>
     (\<forall>seed data. k_sign c seed data \<noteq> [] \<and> k_verify c (k_public c seed) data (k_sign c seed data)) \<and>
     (\<forall>seed. length seed = 32 \<longrightarrow> length (k_public c seed) = 32)"


section \<open>Keys\<close>

abbreviation KeyTypeAccountID :: nat where "KeyTypeAccountID \<equiv> 1"
abbreviation KeyTypeSeed :: nat where "KeyTypeSeed \<equiv> 2"
abbreviation KeyTypeTx :: nat where "KeyTypeTx \<equiv> 3"
abbreviation KeyTypeTxSet :: nat where "KeyTypeTxSet \<equiv> 4"
abbreviation KeyTypeNodeID :: nat where "KeyTypeNodeID \<equiv> 5"
abbreviation KeyTypeLedgerHeader :: nat where "KeyTypeLedgerHeader \<equiv> 6"
abbreviation KeyTypeOfferID :: nat where "KeyTypeOfferID \<equiv> 7"

datatype ultKey = ULTKey (key_Code: nat) (key_Hash: string)

definition ErrInvalidKey :: failure where
  "ErrInvalidKey = Error ''invalid key string''"

text \<open>\<open>binary.Read\<close> takes the 33 bytes it needs and leaves the rest.\<close>

definition DecodeKey :: "crypto \<Rightarrow> string \<Rightarrow> ultKey res" where
  "DecodeKey c key =
     (if key = [] then Inl ErrInvalidKey
      else case k_b58Decode c key of
        Inl _ \<Rightarrow> Inl ErrInvalidKey
      | Inr b \<Rightarrow>
          if length b < 33 then Inl ErrInvalidKey
          else
            let k = ULTKey (of_char (hd b)) (take 32 (tl b))
            in if key_Code k \<in> {KeyTypeAccountID, KeyTypeSeed, KeyTypeTx, KeyTypeTxSet, KeyTypeLedgerHeader, KeyTypeNodeID}
               then Inr k else Inl ErrInvalidKey)"

definition EncodeKey :: "crypto \<Rightarrow> ultKey \<Rightarrow> string" where
  "EncodeKey c k = k_b58Encode c (char_of (key_Code k) # key_Hash k)"

definition IsValidKey :: "crypto \<Rightarrow> string \<Rightarrow> bool" where
  "IsValidKey c key = isOk (DecodeKey c key)"

definition IsValidAccountKey :: "crypto \<Rightarrow> string \<Rightarrow> bool" where
  "IsValidAccountKey c key = (case DecodeKey c key of Inl _ \<Rightarrow> False | Inr k \<Rightarrow> key_Code k = KeyTypeAccountID)"

definition IsValidTxKey :: "crypto \<Rightarrow> string \<Rightarrow> bool" where
  "IsValidTxKey c key = (case DecodeKey c key of Inl _ \<Rightarrow> False | Inr k \<Rightarrow> key_Code k = KeyTypeTx)"

text \<open>The random seed, or the failure of the random source, is an argument.\<close>

definition accountKeypair :: "crypto \<Rightarrow> string res \<Rightarrow> (string \<times> string) res" where
  "accountKeypair c rand =
     bindR rand (\<lambda>seed.
     Inr (EncodeKey c (ULTKey KeyTypeAccountID (k_public c seed)), EncodeKey c (ULTKey KeyTypeSeed seed)))"

definition nodeKeypair :: "crypto \<Rightarrow> string res \<Rightarrow> (string \<times> string) res" where
  "nodeKeypair c rand =
     bindR rand (\<lambda>seed.
     Inr (EncodeKey c (ULTKey KeyTypeNodeID (k_public c seed)), EncodeKey c (ULTKey KeyTypeSeed seed)))"

definition GetAccountKeypair :: "crypto \<Rightarrow> string res \<Rightarrow> (string \<times> string) res" where
  "GetAccountKeypair c rand = bindR (accountKeypair c rand) (\<lambda>(publicKey, seed). Inr (publicKey, seed))"

definition GetNodeKeypair :: "crypto \<Rightarrow> string res \<Rightarrow> (string \<times> string) res" where
  "GetNodeKeypair c rand = bindR (nodeKeypair c rand) (\<lambda>(publicKey, seed). Inr (publicKey, seed))"

definition GetAccountKeypairFromSeed :: "crypto \<Rightarrow> string \<Rightarrow> (string \<times> string) res" where
  "GetAccountKeypairFromSeed c seed =
     (if length seed \<noteq> 32 then Inl (Error ''Invalid seed, byte length is not 32'')
      else Inr (EncodeKey c (ULTKey KeyTypeAccountID (k_public c seed)), EncodeKey c (ULTKey KeyTypeSeed seed)))"

definition GetOfferID :: "crypto \<Rightarrow> string res \<Rightarrow> string res" where
  "GetOfferID c rand = bindR rand (\<lambda>seed. Inr (EncodeKey c (ULTKey KeyTypeOfferID (k_public c seed))))"

definition getPrivateKey :: "crypto \<Rightarrow> string \<Rightarrow> string res" where
  "getPrivateKey c seed =
     (if seed = [] then Inl (Error ''empty seed'') else bindR (DecodeKey c seed) (\<lambda>k. Inr (key_Hash k)))"

definition Sign :: "crypto \<Rightarrow> string \<Rightarrow> string \<Rightarrow> string res" where
  "Sign c seed data = bindR (getPrivateKey c seed) (\<lambda>pk. Inr (k_b58Encode c (k_sign c pk data)))"

definition VerifyByKey :: "crypto \<Rightarrow> ultKey \<Rightarrow> string \<Rightarrow> string \<Rightarrow> bool" where
  "VerifyByKey c pk signature data =
     (case k_b58Decode c signature of Inl _ \<Rightarrow> False | Inr sn \<Rightarrow> k_verify c (key_Hash pk) data sn)"

definition Verify :: "crypto \<Rightarrow> string \<Rightarrow> string \<Rightarrow> string \<Rightarrow> bool" where
  "Verify c publicKey signature data =
     (case DecodeKey c publicKey of Inl _ \<Rightarrow> False | Inr pk \<Rightarrow> VerifyByKey c pk signature data)"


section \<open>Keys of messages\<close>

definition SHA256Hash :: "crypto \<Rightarrow> string \<Rightarrow> string" where
  "SHA256Hash c b = k_b58Encode c (k_sha256 c b)"

text \<open>A message that cannot be encoded has no hash.\<close>

definition hashMsg :: "crypto \<Rightarrow> string res \<Rightarrow> string res" where
  "hashMsg c enc = bindR enc (\<lambda>b. Inr (SHA256Hash c b))"

definition hashKey :: "crypto \<Rightarrow> nat \<Rightarrow> string res \<Rightarrow> string res" where
  "hashKey c code enc = bindR enc (\<lambda>b. Inr (EncodeKey c (ULTKey code (k_sha256 c b))))"

definition GetTxKey :: "crypto \<Rightarrow> tx \<Rightarrow> string res" where
  "GetTxKey c tx = hashKey c KeyTypeTx (EncodeTx tx)"

definition GetLedgerHeaderKey :: "crypto \<Rightarrow> ledger_header option \<Rightarrow> string res" where
  "GetLedgerHeaderKey c lh =
     hashKey c KeyTypeLedgerHeader
       (case lh of None \<Rightarrow> Inl (Error ''proto: Marshal called with nil'') | Some h \<Rightarrow> EncodeLedgerHeader h)"

fun collect :: "'a res list \<Rightarrow> 'a list res" where
  "collect [] = Inr []"
| "collect (r # rs) = bindR r (\<lambda>a. bindR (collect rs) (\<lambda>as. Inr (a # as)))"

definition argsort :: "bool \<Rightarrow> string list \<Rightarrow> nat list" where
  "argsort desc hs =
     map snd (go_sort (\<lambda>x y. if desc then fst y < fst x else fst x < fst y) (zip hs [0..<length hs]))"

definition GetTxSetKey :: "crypto \<Rightarrow> txset \<Rightarrow> string res" where
  "GetTxSetKey c ts =
     bindR (errorf ''compute tx hash failed: '' (collect (map (\<lambda>t. hashMsg c (EncodeTx t)) (ts_TxList ts)))) (\<lambda>hashes.
     case k_b58Decode c (ts_PrevLedgerHash ts) of
       Inl _ \<Rightarrow> Inr []
     | Inr b \<Rightarrow>
         bindR (collect (map (\<lambda>i. EncodeTx (ts_TxList ts ! i)) (argsort False hashes))) (\<lambda>txbs.
         Inr (EncodeKey c (ULTKey KeyTypeTxSet (k_sha256 c (b @ concat txbs))))))"


section \<open>Round trips\<close>

lemma DecodeKey_EncodeKey:
  assumes "b58_inverts c" "length h = 32" "n < 256"
  shows "DecodeKey c (EncodeKey c (ULTKey n h)) =
    (if n \<in> {KeyTypeAccountID, KeyTypeSeed, KeyTypeTx, KeyTypeTxSet, KeyTypeLedgerHeader, KeyTypeNodeID}
     then Inr (ULTKey n h) else Inl ErrInvalidKey)"
proof -
  have "of_char (char_of n :: char) = n" using assms(3) by (simp add: of_char_of)
  then show ?thesis using assms by (simp add: DecodeKey_def EncodeKey_def b58_inverts_def Let_def)
qed

text \<open>
  Keys: decoding an encoded key gives it back for every type of key except that of an offer,
  which is refused.
\<close>

theorem key_round_trip:
  assumes "b58_inverts c" "length h = 32" "n \<in> {KeyTypeAccountID..KeyTypeOfferID}"
  shows "DecodeKey c (EncodeKey c (ULTKey n h)) = (if n = KeyTypeOfferID then Inl ErrInvalidKey else Inr (ULTKey n h))"
  using DecodeKey_EncodeKey [OF assms(1,2), of n] assms(3) by auto

definition plain :: crypto where
  "plain = \<lparr>k_sha256 = (\<lambda>b. take 32 (b @ replicate 32 (CHR ''0''))), k_b58Encode = (\<lambda>b. b), k_b58Decode = (\<lambda>s. if s = [] then Inl (Error ''zero length string'') else Inr s),
     k_public = (\<lambda>s. s), k_sign = (\<lambda>s d. CHR ''!'' # s @ d), k_verify = (\<lambda>p d g. g = CHR ''!'' # p @ d)\<rparr>"

lemma plain_ok: "b58_inverts plain" "signatures_verify plain"
  by (simp_all add: b58_inverts_def signatures_verify_def plain_def)

theorem key_round_trip_witness:
  "DecodeKey plain (EncodeKey plain (ULTKey KeyTypeTx (replicate 32 (CHR ''a'')))) = Inr (ULTKey KeyTypeTx (replicate 32 (CHR ''a''))) \<and>
   DecodeKey plain (EncodeKey plain (ULTKey KeyTypeOfferID (replicate 32 (CHR ''a'')))) = Inl ErrInvalidKey"
  using key_round_trip [OF plain_ok(1), of "replicate 32 (CHR ''a'')" KeyTypeTx]
    key_round_trip [OF plain_ok(1), of "replicate 32 (CHR ''a'')" KeyTypeOfferID]
  by simp

text \<open>
  Signatures: what is signed with the seed of a generated account verifies with its public key.
\<close>

theorem sign_verify:
  assumes "b58_inverts c" "signatures_verify c" "GetAccountKeypairFromSeed c seed = Inr (pk, sk)"
  shows "\<exists>sg. Sign c sk data = Inr sg \<and> Verify c pk sg data"
proof -
  have l: "length seed = 32" and k: "pk = EncodeKey c (ULTKey KeyTypeAccountID (k_public c seed))"
    "sk = EncodeKey c (ULTKey KeyTypeSeed seed)"
    using assms(3) by (auto simp: GetAccountKeypairFromSeed_def split: if_splits)
  have ne: "sk \<noteq> []" using assms(1) by (simp add: k EncodeKey_def b58_inverts_def)
  have "DecodeKey c sk = Inr (ULTKey KeyTypeSeed seed)"
    using DecodeKey_EncodeKey [OF assms(1) l, of KeyTypeSeed] by (simp add: k)
  then have "Sign c sk data = Inr (k_b58Encode c (k_sign c seed data))"
    using ne by (simp add: Sign_def getPrivateKey_def)
  moreover have "length (k_public c seed) = 32" using assms(2) l by (simp add: signatures_verify_def)
  then have "DecodeKey c pk = Inr (ULTKey KeyTypeAccountID (k_public c seed))"
    using DecodeKey_EncodeKey [OF assms(1), of "k_public c seed" KeyTypeAccountID] by (simp add: k)
  then have "Verify c pk (k_b58Encode c (k_sign c seed data)) data"
    using assms(1,2) by (simp add: Verify_def VerifyByKey_def b58_inverts_def signatures_verify_def)
  ultimately show ?thesis by blast
qed

theorem sign_verify_witness:
  "case GetAccountKeypairFromSeed plain (replicate 32 (CHR ''s'')) of
     Inl _ \<Rightarrow> False
   | Inr (pk, sk) \<Rightarrow> (\<exists>sg. Sign plain sk ''pay'' = Inr sg \<and> Verify plain pk sg ''pay'')"
  using sign_verify [OF plain_ok, of "replicate 32 (CHR ''s'')"] by (simp add: GetAccountKeypairFromSeed_def)


section \<open>The key of a transaction set\<close>

lemma collect_Inr: "collect rs = Inr xs \<longleftrightarrow> rs = map Inr xs"
proof (induction rs arbitrary: xs)
  case (Cons r rs)
  then show ?case by (cases xs; cases r) (auto simp: bindR_eq_Inr)
qed auto

interpretation by_hash: sort_order "\<lambda>x y. fst x \<le> fst (y :: string \<times> 'a)" "\<lambda>x y. fst x < fst y"
  by unfold_locales auto

lemma sorted_fst_argsorted:
  "sorted (map fst (go_sort (\<lambda>x y. fst x < fst y) (ps :: (string \<times> 'a) list)))"
  using by_hash.sorted_go_sort [of ps] by (simp add: sorted_wrt_map)

text \<open>
  The transactions in the order of their hashes: the list itself reordered, with increasing hashes.
\<close>

lemma argsort_permutes:
  assumes "length hs = length xs"
  shows "mset (map ((!) xs) (argsort False hs)) = mset xs"
proof -
  have "mset (argsort False hs) = mset [0..<length hs]"
    unfolding argsort_def mset_map mset_go_sort by (metis length_upt minus_nat.diff_0 map_snd_zip mset_map)
  then have "mset (map ((!) xs) (argsort False hs)) = mset (map ((!) xs) [0..<length xs])"
    using assms by (metis mset_map)
  then show ?thesis by (simp add: map_nth)
qed

lemma argsort_sorts: "sorted (map ((!) hs) (argsort False hs))"
proof -
  let ?s = "go_sort (\<lambda>x y. fst x < fst y) (zip hs [0..<length hs])"
  have "hs ! snd p = fst p" if "p \<in> set ?s" for p
    using that by (auto simp: set_zip)
  then have "map ((!) hs) (argsort False hs) = map fst ?s" by (simp add: argsort_def)
  then show ?thesis by (simp add: sorted_fst_argsorted)
qed

lemma argsort_length [simp]: "length (argsort False hs) = length hs"
  by (simp add: argsort_def)

lemma argsort_bound: "i \<in> set (argsort False hs) \<Longrightarrow> i < length hs"
  by (auto simp: argsort_def set_zip)

text \<open>Two orders of the same transactions sort to the same list when no two have the same hash.\<close>

lemma argsort_unique:
  assumes "mset xs = mset ys" "inj_on h (set xs)"
  shows "map ((!) xs) (argsort False (map h xs)) = map ((!) ys) (argsort False (map h ys))" (is "?a = ?b")
proof -
  have m: "mset ?a = mset xs" "mset ?b = mset ys" by (rule argsort_permutes, simp)+
  have h: "map h (map ((!) zs) (argsort False (map h zs))) = map ((!) (map h zs)) (argsort False (map h zs))" for zs
    using argsort_bound [of _ "map h zs"] by simp
  have "sorted (map h ?a)" "sorted (map h ?b)" unfolding h by (rule argsort_sorts)+
  moreover have "mset (map h ?a) = mset (map h ?b)" unfolding mset_map [of h] m assms(1) ..
  ultimately have "map h ?a = map h ?b"
    using properties_for_sort [of "map h ?a" "map h ?b"] properties_for_sort [of "map h ?b" "map h ?b"] by (simp only:)
  moreover have "set ?a = set xs" "set ?b = set xs" using m assms(1) by (metis set_mset_mset)+
  ultimately show ?thesis using assms(2) inj_on_map_eq_map [of h ?a ?b] by (simp only: Un_absorb)
qed

text \<open>Encodable transactions: then the key is the digest of their encodings in the order of the hashes.\<close>

definition tx_bytes :: "tx \<Rightarrow> string" where
  "tx_bytes t = (case EncodeTx t of Inl _ \<Rightarrow> [] | Inr b \<Rightarrow> b)"

lemma GetTxSetKey_sorted:
  assumes "\<forall>t \<in> set (ts_TxList ts). isOk (EncodeTx t)" "k_b58Decode c (ts_PrevLedgerHash ts) = Inr b"
  shows "GetTxSetKey c ts =
    Inr (EncodeKey c (ULTKey KeyTypeTxSet (k_sha256 c (b @ concat (map tx_bytes
      (map ((!) (ts_TxList ts)) (argsort False (map (SHA256Hash c \<circ> tx_bytes) (ts_TxList ts)))))))))"
proof -
  let ?xs = "ts_TxList ts"
  let ?hs = "map (SHA256Hash c \<circ> tx_bytes) ?xs"
  have e: "EncodeTx t = Inr (tx_bytes t)" if "t \<in> set ?xs" for t
    using assms(1) that by (cases "EncodeTx t") (auto simp: tx_bytes_def)
  have "collect (map (\<lambda>t. hashMsg c (EncodeTx t)) ?xs) = Inr ?hs"
    by (simp add: collect_Inr hashMsg_def e)
  moreover have "collect (map (\<lambda>i. EncodeTx (?xs ! i)) (argsort False ?hs)) =
      Inr (map tx_bytes (map ((!) ?xs) (argsort False ?hs)))"
    using argsort_bound [of _ ?hs] by (simp add: collect_Inr e)
  ultimately show ?thesis using assms(2) by (simp add: GetTxSetKey_def)
qed

text \<open>
  The key of a transaction set does not depend on the order in which a node holds the
  transactions, when no two of them have the same hash.
\<close>

theorem txset_key_order_independent:
  assumes "mset txs = mset txs'"
    "\<forall>t \<in> set txs. isOk (EncodeTx t)" "inj_on (SHA256Hash c \<circ> tx_bytes) (set txs)"
  shows "GetTxSetKey c (TxSet prev txs) = GetTxSetKey c (TxSet prev txs')"
proof (cases "k_b58Decode c prev")
  case (Inr b)
  have "set txs = set txs'" using assms(1) by (metis set_mset_mset)
  then show ?thesis
    using GetTxSetKey_sorted [of "TxSet prev txs" c b] GetTxSetKey_sorted [of "TxSet prev txs'" c b]
      argsort_unique [OF assms(1,3)] assms(2) Inr by simp
next
  case (Inl e)
  have s: "set txs = set txs'" using assms(1) by (metis set_mset_mset)
  have h: "collect (map (\<lambda>t. hashMsg c (EncodeTx t)) zs) = Inr (map (SHA256Hash c \<circ> tx_bytes) zs)"
    if "set zs = set txs" for zs
    unfolding collect_Inr using assms(2) that by (auto simp: hashMsg_def tx_bytes_def isOk_def split: sum.splits)
  show ?thesis using h [of txs] h [of txs'] s Inl by (simp add: GetTxSetKey_def)
qed

definition two_txs :: "tx list" where
  "two_txs = map (\<lambda>a. \<lparr>tx_AccountID = a, tx_Fee = 1, tx_Note = [], tx_SeqNum = 1, tx_OpList = []\<rparr>) [''b'', ''a'']"

theorem txset_key_order_independent_witness:
  "GetTxSetKey plain (TxSet ''h'' two_txs) = GetTxSetKey plain (TxSet ''h'' (rev two_txs)) \<and> rev two_txs \<noteq> two_txs"
proof -
  have "\<forall>t \<in> set two_txs. isOk (EncodeTx t)" by code_simp
  moreover have "distinct (map (SHA256Hash plain \<circ> tx_bytes) two_txs)" by code_simp
  then have "inj_on (SHA256Hash plain \<circ> tx_bytes) (set two_txs)" unfolding distinct_map by blast
  moreover have "rev two_txs \<noteq> two_txs" by (simp add: two_txs_def)
  ultimately show ?thesis using txset_key_order_independent [of two_txs "rev two_txs" plain "''h''"] by simp
qed

end
