(* ===== verification/Lru.thy ===== *)
theory Lru
  imports Ult_Prelude "HOL-Library.AList"
begin

text \<open>
  The cache that the managers put in front of the store: \<open>hashicorp/golang-lru\<close>, as vendored.  The
  cache is the list of its entries from the most recently used one to the oldest; the list and the
  map of the code hold the same entries.  The lock is that of a single caller.
\<close>

type_synonym ('k, 'v) lru = "('k \<times> 'v) list"

text \<open>A new entry goes to the front, and the oldest one is dropped when there are too many.\<close>

definition lru_Add :: "nat \<Rightarrow> 'k \<Rightarrow> 'v \<Rightarrow> ('k, 'v) lru \<Rightarrow> ('k, 'v) lru" where
  "lru_Add cap key value c =
     (if map_of c key \<noteq> None then (key, value) # AList.delete key c
      else let c' = (key, value) # c in if length c' > cap then butlast c' else c')"

definition lru_Get :: "'k \<Rightarrow> ('k, 'v) lru \<Rightarrow> 'v option \<times> ('k, 'v) lru" where
  "lru_Get key c =
     (case map_of c key of None \<Rightarrow> (None, c) | Some v \<Rightarrow> (Some v, (key, v) # AList.delete key c))"

definition lru_ok :: "nat \<Rightarrow> ('k, 'v) lru \<Rightarrow> bool" where
  "lru_ok cap c \<longleftrightarrow> distinct (map fst c) \<and> length c \<le> cap"

lemma lru_ok_Nil [simp]: "lru_ok cap []"
  by (simp add: lru_ok_def)

lemma length_delete_present: "map_of c k = Some v \<Longrightarrow> Suc (length (AList.delete k c)) \<le> length c"
proof (induction c)
  case (Cons x c)
  then show ?case using length_delete_le [of k c] by (cases x) auto
qed simp

lemma lru_ok_front:
  "lru_ok cap c \<Longrightarrow> map_of c k \<noteq> None \<Longrightarrow> lru_ok cap ((k, v) # AList.delete k c)"
  using length_delete_present [of c k]
  by (auto simp: lru_ok_def AList.delete_eq distinct_map_filter dest: order_trans)

lemma lru_ok_Add: "0 < cap \<Longrightarrow> lru_ok cap c \<Longrightarrow> lru_ok cap (lru_Add cap k v c)"
proof -
  assume s: "0 < cap" and c: "lru_ok cap c"
  show ?thesis
  proof (cases "map_of c k")
    case None
    have "distinct (map fst ((k, v) # c))"
      using None c by (simp add: lru_ok_def map_of_eq_None_iff)
    then have "distinct (map fst (butlast ((k, v) # c)))"
      by (metis distinct_butlast map_butlast)
    then show ?thesis using None c s
      by (auto simp: lru_Add_def Let_def lru_ok_def map_of_eq_None_iff)
  next
    case (Some w)
    then show ?thesis using lru_ok_front [OF c, of k v] by (simp add: lru_Add_def)
  qed
qed

lemma lru_ok_Get: "lru_ok cap c \<Longrightarrow> lru_ok cap (snd (lru_Get k c))"
  using lru_ok_front [of cap c k] by (auto simp: lru_Get_def split: option.splits)

lemma map_of_butlast: "map_of (butlast c) k = Some v \<Longrightarrow> map_of c k = Some v"
proof (induction c)
  case (Cons x c)
  then show ?case by (cases x; cases "c = []") (auto split: if_splits)
qed simp

lemma lru_Get_same [simp]: "fst (lru_Get k c) = map_of c k"
  by (simp add: lru_Get_def split: option.splits)

lemma lru_Get_keeps [simp]: "map_of (snd (lru_Get k c)) = map_of c"
  by (auto simp: lru_Get_def AList.delete_conv' split: option.splits)

lemma lru_Add_same [simp]: "0 < cap \<Longrightarrow> map_of (lru_Add cap k v c) k = Some v"
  by (cases c) (auto simp: lru_Add_def Let_def)

lemma lru_Add_other: "map_of (lru_Add cap k v c) j = Some w \<Longrightarrow> j \<noteq> k \<Longrightarrow> map_of c j = Some w"
  using map_of_butlast [of "(k, v) # c" j w]
  by (auto simp: lru_Add_def Let_def AList.delete_conv' split: if_splits)


section \<open>Coherence\<close>

text \<open>
  What a manager relies on: an entry of the cache is what the store holds under the same key.  Every
  use of a cache below keeps this, so that reading through the cache is reading the store.
\<close>

definition coherent :: "('k, 'v) lru \<Rightarrow> ('k \<Rightarrow> 'v option) \<Rightarrow> bool" where
  "coherent c store \<longleftrightarrow> (\<forall>k v. map_of c k = Some v \<longrightarrow> store k = Some v)"

lemma coherent_Nil [simp]: "coherent [] store"
  by (simp add: coherent_def)

lemma coherentD: "coherent c store \<Longrightarrow> map_of c k = Some v \<Longrightarrow> store k = Some v"
  by (simp add: coherent_def)

lemma coherent_Get: "coherent (snd (lru_Get k c)) store = coherent c store"
  by (simp add: coherent_def)

lemma coherent_fill: "0 < cap \<Longrightarrow> coherent c store \<Longrightarrow> store k = Some v \<Longrightarrow> coherent (lru_Add cap k v c) store"
  unfolding coherent_def by (metis lru_Add_other lru_Add_same option.inject)

lemma coherent_write:
  "0 < cap \<Longrightarrow> coherent c store \<Longrightarrow> store' k = Some v \<Longrightarrow> (\<And>j. j \<noteq> k \<Longrightarrow> store' j = store j)
    \<Longrightarrow> coherent (lru_Add cap k v c) store'"
  unfolding coherent_def by (metis lru_Add_other lru_Add_same option.inject)

end
