(* ===== verification/TxMgr.thy ===== *)
theory TxMgr
  imports TxOps Keys Lru
begin

text \<open>
  The transaction manager: \<open>tx/manager.go\<close>, \<open>tx/txhistory.go\<close>, \<open>tx/sorter.go\<close> and \<open>util/math.go\<close>.  It
  holds the transactions that wait for a ledger, applies the list of a closed ledger and answers
  queries about the status of a transaction.
\<close>


section \<open>Pending transactions of an account\<close>

definition MaxUint64 :: "64 word \<Rightarrow> 64 word \<Rightarrow> 64 word" where
  "MaxUint64 x y = (if x \<ge> y then x else y)"

record tx_history =
  h_MaxSeqNum :: "64 word"
  h_TotalFees :: int
  h_txMap :: "(string \<times> tx) list"

definition NewTxHistory :: tx_history where
  "NewTxHistory = \<lparr>h_MaxSeqNum = 0, h_TotalFees = 0, h_txMap = []\<rparr>"

definition TxHistory_AddTx :: "string \<Rightarrow> tx \<Rightarrow> (tx_history, unit) act" where
  "TxHistory_AddTx txKey tx h =
     (if tx_SeqNum tx < h_MaxSeqNum h
      then (Inl (Error (''tx seqnum mismatch: max '' @ dec (unat (h_MaxSeqNum h)) @ '', input '' @
             dec (unat (tx_SeqNum tx)))), h)
      else (Inr (), h\<lparr>h_MaxSeqNum := tx_SeqNum tx, h_TotalFees := i64 (h_TotalFees h + tx_Fee tx),
             h_txMap := AList.update txKey tx (h_txMap h)\<rparr>))"

definition TxHistory_DeleteTxList :: "string list \<Rightarrow> tx_history \<Rightarrow> tx_history" where
  "TxHistory_DeleteTxList txKeys h =
     (let m = fold AList.delete txKeys (h_txMap h)
      in \<lparr>h_MaxSeqNum = fold (\<lambda>(_, tx) maxseq. if tx_SeqNum tx > maxseq then tx_SeqNum tx else maxseq) m 0,
          h_TotalFees = fold (\<lambda>(_, tx) totalFees. i64 (totalFees + tx_Fee tx)) m 0,
          h_txMap = m\<rparr>)"

text \<open>The order in which a map is ranged over is a parameter.\<close>

definition TxHistory_GetTxList :: "((string \<times> tx) list \<Rightarrow> (string \<times> tx) list) \<Rightarrow> tx_history \<Rightarrow> tx list" where
  "TxHistory_GetTxList iter h = map snd (iter (h_txMap h))"

definition TxHistory_Size :: "tx_history \<Rightarrow> nat" where
  "TxHistory_Size h = length (h_txMap h)"

definition TxSlice_Less :: "tx \<Rightarrow> tx \<Rightarrow> bool" where
  "TxSlice_Less x y \<longleftrightarrow> tx_SeqNum x < tx_SeqNum y"


section \<open>The manager\<close>

text \<open>
  What a manager is created with.  \<open>x_sort\<close> is \<open>sort.Sort\<close> on a slice of transactions, which leaves
  the order of equal sequence numbers open; \<open>x_order\<close>, \<open>x_txOrder\<close> and \<open>x_dbOrder\<close> are the orders in
  which maps are ranged over; \<open>x_undo\<close> says what \<open>Rollback\<close> leaves of a store that was the first
  argument when the transaction began and is the second one now.
\<close>

record txcfg =
  x_crypto :: crypto
  x_seed :: string
  x_baseReserve :: int
  x_amReserve :: int
  x_sort :: "tx list \<Rightarrow> tx list"
  x_order :: "string list \<Rightarrow> string list"
  x_txOrder :: "(string \<times> tx) list \<Rightarrow> (string \<times> tx) list"
  x_dbOrder :: db_order
  x_undo :: "db \<Rightarrow> db \<Rightarrow> db"

text \<open>
  The state.  \<open>tm_locked\<close> tells whether the lock of the pending transactions is held for writing;
  \<open>tm_txChan\<close> are the transactions that wait to be broadcast.
\<close>

record txmgr =
  tm_database :: db
  tm_txStatus :: "(string, tx_status) lru"
  tm_txSet :: "string set"
  tm_accTxMap :: "(string \<times> tx_history) list"
  tm_locked :: bool
  tm_txChan :: "tx list"

definition TXSTATUS :: string where
  "TXSTATUS = ''TXSTATUS''"

definition TX :: string where
  "TX = ''TX''"

definition TxMgr_NewManager :: "(db, txmgr) act" where
  "TxMgr_NewManager =
     thenA (mustBucket TXSTATUS) (thenA (mustBucket TX) (bindA (readA Inr) (\<lambda>d.
     retA \<lparr>tm_database = d, tm_txStatus = [], tm_txSet = {}, tm_accTxMap = [], tm_locked = False, tm_txChan = []\<rparr>)))"

definition onStore :: "(db, 'a) act \<Rightarrow> (txmgr, 'a) act" where
  "onStore m s = (case m (tm_database s) of (r, d) \<Rightarrow> (r, s\<lparr>tm_database := d\<rparr>))"

definition lockTm :: "(txmgr, unit) act" where
  "lockTm s = (if tm_locked s then (Inl (Blocked ''tm.rwm''), s) else (Inr (), s\<lparr>tm_locked := True\<rparr>))"

definition unlockTm :: "(txmgr, unit) act" where
  "unlockTm = modifyA (\<lambda>s. s\<lparr>tm_locked := False\<rparr>)"

definition cacheStatus :: "string \<Rightarrow> tx_status \<Rightarrow> (txmgr, unit) act" where
  "cacheStatus txKey status = modifyA (\<lambda>s. s\<lparr>tm_txStatus := lru_Add 100 txKey status (tm_txStatus s)\<rparr>)"

definition UpdateTxStatus :: "string \<Rightarrow> tx_status \<Rightarrow> (txmgr, unit) act" where
  "UpdateTxStatus txKey status =
     thenA (cacheStatus txKey status)
    (bindA (liftA (errorf ''encode status failed: '' (EncodeTxStatus status))) (\<lambda>b.
     thenA (errorfA ''save status in db failed: '' (onStore (Put TXSTATUS txKey b)))
    (cacheStatus txKey status)))"

definition GetTxStatus :: "string \<Rightarrow> (txmgr, tx_status) act" where
  "GetTxStatus txKey s =
     (case lru_Get txKey (tm_txStatus s) of
        (Some st, c) \<Rightarrow> (Inr st, s\<lparr>tm_txStatus := c\<rparr>)
      | (None, _) \<Rightarrow>
          (bindR (errorf (''get tx '' @ txKey @ '' status failed: '') (Get TXSTATUS txKey (tm_database s))) (\<lambda>b.
           case b of
             None \<Rightarrow> Inr (TxStatus NOTEXIST [] [])
           | Some b \<Rightarrow>
               bindR (DecodeTxStatus b) (\<lambda>status.
               bindR (errorf (''get tx '' @ txKey @ '' failed: '') (Get TX txKey (tm_database s))) (\<lambda>b.
               case b of
                 None \<Rightarrow> Inl (Fatal ''tx is missing while tx status is present'')
               | Some b \<Rightarrow> Inr (TxStatus (st_StatusCode status) (st_ErrorMessage status) b)))), s))"

definition MaxTxOpList :: nat where
  "MaxTxOpList = 100"

definition MaxTxNote :: nat where
  "MaxTxNote = 128"

definition ErrInvalidSeqNum :: failure where
  "ErrInvalidSeqNum = Error ''invalid sequence number''"

text \<open>The transaction enters the history of its account; the error of the history is dropped.\<close>

definition addToHistory :: "string \<Rightarrow> tx \<Rightarrow> txmgr \<Rightarrow> txmgr" where
  "addToHistory txKey tx s =
     (case map_of (tm_accTxMap s) (tx_AccountID tx) of
        None \<Rightarrow> s
      | Some h \<Rightarrow> s\<lparr>tm_accTxMap := AList.update (tx_AccountID tx) (snd (TxHistory_AddTx txKey tx h)) (tm_accTxMap s)\<rparr>)"

definition newHistory :: "string \<Rightarrow> txmgr \<Rightarrow> txmgr" where
  "newHistory aid s =
     (if map_of (tm_accTxMap s) aid = None then s\<lparr>tm_accTxMap := AList.update aid NewTxHistory (tm_accTxMap s)\<rparr> else s)"

definition AddTx :: "txcfg \<Rightarrow> string \<Rightarrow> tx \<Rightarrow> (txmgr, unit) act" where
  "AddTx c txKey tx =
     bindA (readA Inr) (\<lambda>s.
     if txKey \<in> tm_txSet s then retA ()
     else
       bindA (errorfA ''get account failed: '' (onStore (readA (GetAccount (tx_AccountID tx))))) (\<lambda>acc.
       bindA (present ErrAccountNotExist acc) (\<lambda>acc.
       let h = map_of (tm_accTxMap s) (tx_AccountID tx);
           totalFees = (case h of None \<Rightarrow> tx_Fee tx | Some h \<Rightarrow> i64 (tx_Fee tx + h_TotalFees h));
           maxSeq = (case h of None \<Rightarrow> tx_SeqNum tx | Some h \<Rightarrow> MaxUint64 (tx_SeqNum tx) (h_MaxSeqNum h));
           balance = i64 (a_Balance acc - i64 (x_baseReserve c * a_EntryCount acc))
       in
       thenA (modifyA (newHistory (tx_AccountID tx)))
      (if maxSeq > tx_SeqNum tx then failA ErrInvalidSeqNum
       else if balance < totalFees then failA (Error ''insufficient account balance'')
       else if length (tx_Note tx) > MaxTxNote then failA (Error ''tx note is too long'')
       else if length (tx_OpList tx) > MaxTxOpList then failA (Error ''too much tx ops'')
       else
         thenA lockTm (thenA (modifyA (addToHistory txKey tx)) (thenA unlockTm
        (thenA (modifyA (\<lambda>s. s\<lparr>tm_txSet := insert txKey (tm_txSet s)\<rparr>))
        (bindA (liftA (errorf ''encode tx failed: '' (EncodeTx tx))) (\<lambda>b.
         thenA (errorfA ''save tx in db failed: '' (onStore (Put TX txKey b)))
        (thenA (errorfA ''update tx status failed: '' (UpdateTxStatus txKey (TxStatus ACCEPTED [] [])))
        (modifyA (\<lambda>s. s\<lparr>tm_txChan := tm_txChan s @ [tx]\<rparr>))))))))))))"


section \<open>Applying a list of transactions\<close>

text \<open>The key of a transaction; the error is dropped and the key is then empty.\<close>

definition txKeyOf :: "txcfg \<Rightarrow> tx \<Rightarrow> string" where
  "txKeyOf c tx = (case GetTxKey (x_crypto c) tx of Inl _ \<Rightarrow> [] | Inr k \<Rightarrow> k)"

definition failTx :: "string \<Rightarrow> string \<Rightarrow> (txmgr, unit) act" where
  "failTx txk msg =
     errorfA (''update tx '' @ txk @ '' status failed: '') (UpdateTxStatus txk (TxStatus FAILED msg []))"

fun chargeTxs :: "txcfg \<Rightarrow> account \<Rightarrow> tx list \<Rightarrow> tx list \<Rightarrow> (txmgr, account \<times> tx list) act" where
  "chargeTxs c acc [] restTxList = retA (acc, restTxList)"
| "chargeTxs c acc (tx # txs) restTxList =
     (if a_SeqNum acc > tx_SeqNum tx
      then thenA (failTx (txKeyOf c tx) ''invalid sequence number'') (chargeTxs c acc txs restTxList)
      else if a_Balance acc < tx_Fee tx
      then thenA (failTx (txKeyOf c tx) ''insufficient balance for fee'') (chargeTxs c acc txs restTxList)
      else chargeTxs c (acc\<lparr>a_Balance := i64 (a_Balance acc - tx_Fee tx), a_SeqNum := tx_SeqNum tx\<rparr>) txs
             (restTxList @ [tx]))"

fun chargeAccounts :: "txcfg \<Rightarrow> tx list \<Rightarrow> string list \<Rightarrow> tx list \<Rightarrow> (txmgr, tx list) act" where
  "chargeAccounts c txList [] restTxList = retA restTxList"
| "chargeAccounts c txList (aid # aids) restTxList =
     bindA (errorfA (''get account '' @ aid @ '' failed: '') (onStore (readA (GetAccount aid)))) (\<lambda>acc.
     bindA (present ErrAccountNotExist acc) (\<lambda>acc.
     bindA (chargeTxs c acc (filter (\<lambda>tx. tx_AccountID tx = aid) txList) restTxList) (\<lambda>(acc, restTxList).
     thenA (errorfA ''update account failed: '' (onStore (SaveAccount (Some acc))))
    (chargeAccounts c txList aids restTxList))))"

datatype tx_op = CreateAccountOf createAccount | PaymentOf payment | TrustOf trustChange

definition opTypeName :: "OpType \<Rightarrow> string" where
  "opTypeName t =
     (case t of
        CREATE_ACCOUNT \<Rightarrow> ''CREATE_ACCOUNT'' | PAYMENT \<Rightarrow> ''PAYMENT'' | PATH_PAYMENT \<Rightarrow> ''PATH_PAYMENT''
      | TRUST \<Rightarrow> ''TRUST'' | OpTypeN n \<Rightarrow> (if n < 0 then ''-'' else '''') @ dec (nat \<bar>n\<bar>))"

text \<open>The getters of the payload return nil when the operation carries another one.\<close>

definition txOp :: "txcfg \<Rightarrow> string \<Rightarrow> 64 word \<Rightarrow> op \<Rightarrow> tx_op res" where
  "txOp c accountID ledgerSeqNum o1 =
     (case op_Type o1 of
        CREATE_ACCOUNT \<Rightarrow>
          bindR (derefR ''ca'' (case op_Op o1 of Some (PCreateAccount ca) \<Rightarrow> Some ca | _ \<Rightarrow> None)) (\<lambda>ca.
          Inr (CreateAccountOf \<lparr>c_SrcAccountID = accountID, c_DstAccountID = ca_AccountID ca, c_Balance = ca_Balance ca,
            c_BaseReserve = x_baseReserve c, c_LedgerSeqNum = ledgerSeqNum\<rparr>))
      | PAYMENT \<Rightarrow>
          bindR (derefR ''payment'' (case op_Op o1 of Some (PPayment pa) \<Rightarrow> Some pa | _ \<Rightarrow> None)) (\<lambda>pa.
          Inr (PaymentOf \<lparr>py_SrcAccountID = accountID, py_DstAccountID = pa_AccountID pa, py_Asset = pa_Asset pa,
            py_Amount = pa_Amount pa\<rparr>))
      | TRUST \<Rightarrow>
          bindR (derefR ''trust'' (case op_Op o1 of Some (PTrust t) \<Rightarrow> Some t | _ \<Rightarrow> None)) (\<lambda>t.
          Inr (TrustOf \<lparr>tc_SrcAccountID = accountID, tc_Asset = to_Asset t, tc_Limit = to_Limit t\<rparr>))
      | t \<Rightarrow> Inl (Error (''received invalid op type: '' @ opTypeName t)))"

fun getTxOpList :: "txcfg \<Rightarrow> op list \<Rightarrow> string \<Rightarrow> 64 word \<Rightarrow> tx_op list res" where
  "getTxOpList c [] accountID ledgerSeqNum = Inr []"
| "getTxOpList c (o1 # opList) accountID ledgerSeqNum =
     bindR (txOp c accountID ledgerSeqNum o1) (\<lambda>x.
     bindR (getTxOpList c opList accountID ledgerSeqNum) (\<lambda>ops. Inr (x # ops)))"

fun tx_op_Apply :: "txcfg \<Rightarrow> tx_op \<Rightarrow> (db, unit) act" where
  "tx_op_Apply c (CreateAccountOf x) = CreateAccount_Apply (x_amReserve c) x"
| "tx_op_Apply c (PaymentOf x) = Payment_Apply (x_amReserve c) (x_dbOrder c) x"
| "tx_op_Apply c (TrustOf x) = Trust_Apply (x_amReserve c) x"

fun applyOps :: "txcfg \<Rightarrow> tx_op list \<Rightarrow> (db, unit) act" where
  "applyOps c [] = retA ()"
| "applyOps c (o1 # ops) = thenA (tx_op_Apply c o1) (applyOps c ops)"

text \<open>
  The operations run in a transaction of the store.  An error of the operation list is recorded, and
  then the empty list is applied.
\<close>

definition opsOf :: "tx_op list res \<Rightarrow> tx_op list" where
  "opsOf r = (case r of Inl _ \<Rightarrow> [] | Inr ops \<Rightarrow> ops)"

definition runTx :: "txcfg \<Rightarrow> string \<Rightarrow> tx_op list \<Rightarrow> (txmgr, unit) act" where
  "runTx c txk ops =
     thenA (errorfA ''start db transaction failed: '' (onStore Begin)) (\<lambda>s.
       case applyOps c ops (tm_database s) of
         (Inr _, d) \<Rightarrow>
           thenA (errorfA ''commit changes to db failed: '' (onStore Commit))
             (errorfA ''update tx status failed: '' (UpdateTxStatus txk (TxStatus CONFIRMED [] []))) (s\<lparr>tm_database := d\<rparr>)
       | (Inl (Error msg), d) \<Rightarrow> failTx txk msg (s\<lparr>tm_database := x_undo c (tm_database s) d\<rparr>)
       | (Inl f, d) \<Rightarrow> (Inl f, s\<lparr>tm_database := d\<rparr>))"

definition applyTx :: "txcfg \<Rightarrow> 64 word \<Rightarrow> tx \<Rightarrow> (txmgr, unit) act" where
  "applyTx c ledgerSeqNum tx =
     (let txk = txKeyOf c tx; ops = getTxOpList c (tx_OpList tx) (tx_AccountID tx) ledgerSeqNum
      in thenA (case ops of
                  Inl (Error msg) \<Rightarrow> failTx txk msg
                | Inl f \<Rightarrow> failA f
                | Inr _ \<Rightarrow> retA ())
         (runTx c txk (opsOf ops)))"

fun applyTxs :: "txcfg \<Rightarrow> 64 word \<Rightarrow> tx list \<Rightarrow> (txmgr, unit) act" where
  "applyTxs c ledgerSeqNum [] = retA ()"
| "applyTxs c ledgerSeqNum (tx # txs) = thenA (applyTx c ledgerSeqNum tx) (applyTxs c ledgerSeqNum txs)"

definition ApplyTxList :: "txcfg \<Rightarrow> tx list \<Rightarrow> 64 word \<Rightarrow> (txmgr, unit) act" where
  "ApplyTxList c txList ledgerSeqNum =
     (let txList = x_sort c txList
      in bindA (chargeAccounts c txList (x_order c (remdups (map tx_AccountID txList))) []) (\<lambda>restTxList.
         applyTxs c ledgerSeqNum (x_sort c restTxList)))"


section \<open>The pending transactions\<close>

definition GetTxList :: "txcfg \<Rightarrow> (txmgr, tx list) act" where
  "GetTxList c s =
     (if tm_locked s then (Inl (Blocked ''tm.rwm''), s)
      else (Inr (concat (map (\<lambda>aid. case map_of (tm_accTxMap s) aid of None \<Rightarrow> [] | Some h \<Rightarrow> TxHistory_GetTxList (x_txOrder c) h)
                   (x_order c (map fst (tm_accTxMap s))))), s))"

text \<open>An account without pending transactions leaves the loop body before the unlock.\<close>

fun deleteAccounts :: "txcfg \<Rightarrow> tx list \<Rightarrow> string list \<Rightarrow> (txmgr, unit) act" where
  "deleteAccounts c txList [] = retA ()"
| "deleteAccounts c txList (acc # accs) =
     thenA lockTm (\<lambda>s.
       case map_of (tm_accTxMap s) acc of
         None \<Rightarrow> deleteAccounts c txList accs s
       | Some th \<Rightarrow>
           let th' = TxHistory_DeleteTxList (map (txKeyOf c) (filter (\<lambda>tx. tx_AccountID tx = acc) txList)) th
           in thenA unlockTm (deleteAccounts c txList accs)
                (s\<lparr>tm_accTxMap := (if TxHistory_Size th' = 0 then AList.delete acc (tm_accTxMap s)
                                   else AList.update acc th' (tm_accTxMap s))\<rparr>))"

definition DeleteTxList :: "txcfg \<Rightarrow> tx list \<Rightarrow> (txmgr, unit) act" where
  "DeleteTxList c txList = deleteAccounts c txList (x_order c (remdups (map tx_AccountID txList)))"


section \<open>Broadcasting\<close>

text \<open>\<open>rpc\<close> sends the encoded transaction with its signature to the live peers.\<close>

definition broadcastTx :: "txcfg \<Rightarrow> (string \<Rightarrow> string \<Rightarrow> unit res) \<Rightarrow> tx \<Rightarrow> unit res" where
  "broadcastTx c rpc tx =
     bindR (errorf ''encode tx failed: '' (EncodeTx tx)) (\<lambda>payload.
     bindR (errorf ''sign tx failed: '' (Sign (x_crypto c) (x_seed c) payload)) (\<lambda>sign.
     errorf ''rpc broadcas failed: '' (rpc payload sign)))"

text \<open>One turn of the event loop: the next transaction is taken, an error is only logged.\<close>

definition TxMgr_Start_step :: "txcfg \<Rightarrow> (string \<Rightarrow> string \<Rightarrow> unit res) \<Rightarrow> (txmgr, unit) act" where
  "TxMgr_Start_step c rpc s =
     (case tm_txChan s of
        [] \<Rightarrow> (Inl (Blocked ''tm.txChan''), s)
      | tx # rest \<Rightarrow> dropA (liftA (broadcastTx c rpc tx)) (s\<lparr>tm_txChan := rest\<rparr>))"

end
