(* ===== verification/LedgerMgr.thy ===== *)
theory LedgerMgr
  imports TxMgr
begin

text \<open>
  The ledger manager: \<open>ledger/manager.go\<close>, the buffer of ledgers that wait to be closed in
  \<open>ledger/buffer.go\<close> and the downloader of missing ledgers in \<open>ledger/downloader.go\<close>.  The manager
  shares its store with the transaction manager, which is part of its state here.
\<close>


section \<open>The buffer of externalized values\<close>

record close_info =
  ci_Index :: "64 word"
  ci_Value :: string
  ci_TxSet :: txset

type_synonym close_buffer = "close_info list"

definition Buffer_Size :: "close_buffer \<Rightarrow> nat" where
  "Buffer_Size b = length b"

definition Buffer_Clear :: "close_buffer \<Rightarrow> close_buffer" where
  "Buffer_Clear b = []"

definition Buffer_Append :: "close_info option \<Rightarrow> close_buffer \<Rightarrow> close_buffer" where
  "Buffer_Append info b =
     (case info of
        None \<Rightarrow> b
      | Some info \<Rightarrow> if b \<noteq> [] \<and> ci_Index (last b) + 1 \<noteq> ci_Index info then b else b @ [info])"

definition Buffer_PeekHead :: "close_buffer \<Rightarrow> close_info option" where
  "Buffer_PeekHead b = (case b of [] \<Rightarrow> None | h # _ \<Rightarrow> Some h)"

definition Buffer_PopHead :: "close_buffer \<Rightarrow> close_info option \<times> close_buffer" where
  "Buffer_PopHead b = (case b of [] \<Rightarrow> (None, []) | h # hs \<Rightarrow> (Some h, hs))"


section \<open>The downloader\<close>

text \<open>
  The channels between its goroutines are the lists of what they hold.  \<open>dl_ready\<close> is what the ledger
  manager receives from the downloader.
\<close>

record downloader =
  dl_nextIndex :: "64 word"
  dl_infoMap :: "(64 word \<times> close_info) list"
  dl_rangeChan :: "(64 word \<times> 64 word) list"
  dl_ready :: "close_info list"

definition NewDownloader :: downloader where
  "NewDownloader = \<lparr>dl_nextIndex = 0, dl_infoMap = [], dl_rangeChan = [], dl_ready = []\<rparr>"

text \<open>The channel of tasks holds a hundred of them.\<close>

definition AddTask :: "64 word \<Rightarrow> 64 word \<Rightarrow> (downloader, unit) act" where
  "AddTask start end d =
     (if start > end then (Inl (Error ''invalid ledger index range''), d)
      else if length (dl_rangeChan d) \<ge> 100 then (Inl (Blocked ''d.rangeChan''), d)
      else (Inr (), d\<lparr>dl_rangeChan := dl_rangeChan d @ [(start, end)]\<rparr>))"

text \<open>
  The loop that passes on the ledgers that are next: it ends at the first index that is not there.
  The fuel is the number of turns it may take.
\<close>

fun deliver :: "nat \<Rightarrow> (downloader, unit) act" where
  "deliver 0 = failA OutOfFuel"
| "deliver (Suc fuel) = (\<lambda>d.
     case map_of (dl_infoMap d) (dl_nextIndex d) of
       None \<Rightarrow> (Inr (), d)
     | Some ci \<Rightarrow> deliver fuel (d\<lparr>dl_ready := dl_ready d @ [ci], dl_nextIndex := dl_nextIndex d + 1\<rparr>))"

definition reorder :: "close_info \<Rightarrow> (downloader, unit) act" where
  "reorder info d =
     (let m = AList.update (ci_Index info) info (dl_infoMap d)
      in deliver (Suc (length m)) (d\<lparr>dl_infoMap := m\<rparr>))"

definition prepareTask :: "64 word \<times> 64 word \<Rightarrow> 64 word list" where
  "prepareTask tr = map of_nat [unat (fst tr)..<Suc (unat (snd tr))]"

text \<open>
  One query: \<open>rpc\<close> asks the peers for a ledger with the payload and its signature.  A result of None
  is nil: the error is logged.
\<close>

definition logged :: "'a res \<Rightarrow> 'a option res" where
  "logged r = (case r of Inl (Error m) \<Rightarrow> Inr None | Inl f \<Rightarrow> Inl f | Inr a \<Rightarrow> Inr (Some a))"

definition queryLedger ::
  "crypto \<Rightarrow> string \<Rightarrow> (string \<Rightarrow> string \<Rightarrow> ledger res) \<Rightarrow> 64 word \<Rightarrow> close_info option res" where
  "queryLedger c seed rpc i =
     logged
      (let payload = dec (unat i) in
       bindR (Sign c seed payload) (\<lambda>sign.
       bindR (rpc payload sign) (\<lambda>ledger.
       bindR (derefR ''ts'' (le_TxSet ledger)) (\<lambda>txset.
       bindR (GetTxSetKey c txset) (\<lambda>txsetHash.
       bindR (derefR ''header'' (le_LedgerHeader ledger)) (\<lambda>header.
       if lh_TxSetHash header \<noteq> txsetHash then Inl (Error ''header txset hash incompatible with txsetHash'')
       else
         bindR (k_b58Decode c (lh_ConsensusValue header)) (\<lambda>cvb.
         bindR (DecodeConsensusValue cvb) (\<lambda>cv.
         if TxSetHash cv \<noteq> txsetHash then Inl (Error ''cv txset hash incompatible with txsetHash'')
         else Inr \<lparr>ci_Index = i, ci_Value = lh_ConsensusValue header, ci_TxSet = txset\<rparr>))))))))"

text \<open>The results of the workers in the order in which they come in; nil results are left out.\<close>

fun mergeInfo :: "close_info option list \<Rightarrow> close_info list" where
  "mergeInfo [] = []"
| "mergeInfo (None # rs) = mergeInfo rs"
| "mergeInfo (Some info # rs) = info # mergeInfo rs"

fun reorderAll :: "close_info list \<Rightarrow> (downloader, unit) act" where
  "reorderAll [] = retA ()"
| "reorderAll (info # infos) = thenA (reorder info) (reorderAll infos)"

text \<open>
  One task: the indices are queried by eight workers, and \<open>arrive\<close> is the order in which the results
  reach the downloader.
\<close>

definition download ::
  "(64 word \<Rightarrow> close_info option res) \<Rightarrow> (close_info option list \<Rightarrow> close_info option list)
    \<Rightarrow> 64 word \<times> 64 word \<Rightarrow> (downloader, unit) act" where
  "download query arrive tr =
     bindA (liftA (collect (map query (prepareTask tr)))) (\<lambda>results. reorderAll (mergeInfo (arrive results)))"

definition runDownloader ::
  "(64 word \<Rightarrow> close_info option res) \<Rightarrow> (close_info option list \<Rightarrow> close_info option list) \<Rightarrow> (downloader, unit) act" where
  "runDownloader query arrive d =
     (case dl_rangeChan d of
        [] \<Rightarrow> (Inl (Blocked ''d.rangeChan''), d)
      | tr # trs \<Rightarrow> dropA (download query arrive tr) (d\<lparr>dl_rangeChan := trs, dl_nextIndex := fst tr\<rparr>))"


section \<open>The manager\<close>

datatype LedgerState = LedgerStateSynced | LedgerStateSyncing | LedgerStateNotSynced

record ledgermgr =
  lm_tm :: txmgr
  lm_downloader :: downloader
  lm_headers :: "(string, ledger_header) lru"
  lm_txsetCache :: "(string, txset) lru"
  lm_buffer :: close_buffer
  lm_ledgerState :: LedgerState
  lm_lastCloseTime :: int
  lm_ledgerHeaderCount :: int
  lm_largestConsensusIndex :: "64 word"
  lm_prevLedgerHeader :: "ledger_header option"
  lm_prevLedgerHeaderHash :: string
  lm_currLedgerHeader :: "ledger_header option"
  lm_currLedgerHeaderHash :: string

definition LEDGER :: string where
  "LEDGER = ''LEDGER''"

definition TXSET :: string where
  "TXSET = ''TXSET''"

abbreviation lm_database :: "ledgermgr \<Rightarrow> db" where
  "lm_database s \<equiv> tm_database (lm_tm s)"

definition onTm :: "(txmgr, 'a) act \<Rightarrow> (ledgermgr, 'a) act" where
  "onTm m s = (case m (lm_tm s) of (r, t) \<Rightarrow> (r, s\<lparr>lm_tm := t\<rparr>))"

abbreviation onLedgerStore :: "(db, 'a) act \<Rightarrow> (ledgermgr, 'a) act" where
  "onLedgerStore m \<equiv> onTm (onStore m)"

definition onDownloader :: "(downloader, 'a) act \<Rightarrow> (ledgermgr, 'a) act" where
  "onDownloader m s = (case m (lm_downloader s) of (r, t) \<Rightarrow> (r, s\<lparr>lm_downloader := t\<rparr>))"

definition newLedgerMgr :: "txmgr \<Rightarrow> ledgermgr" where
  "newLedgerMgr tm =
     \<lparr>lm_tm = tm, lm_downloader = NewDownloader, lm_headers = [], lm_txsetCache = [], lm_buffer = [],
      lm_ledgerState = LedgerStateNotSynced, lm_lastCloseTime = 0, lm_ledgerHeaderCount = 0, lm_largestConsensusIndex = 0,
      lm_prevLedgerHeader = None, lm_prevLedgerHeaderHash = [], lm_currLedgerHeader = None, lm_currLedgerHeaderHash = []\<rparr>"

definition LedgerMgr_NewManager :: "(txmgr, ledgermgr) act" where
  "LedgerMgr_NewManager =
     thenA (onStore (mustBucket LEDGER)) (thenA (onStore (mustBucket TXSET)) (bindA (readA Inr) (\<lambda>tm. retA (newLedgerMgr tm))))"

definition CurrLedgerHeader :: "ledgermgr \<Rightarrow> ledger_header res" where
  "CurrLedgerHeader s =
     (case lm_currLedgerHeader s of None \<Rightarrow> Inl (Fatal ''current ledger header is nil'') | Some h \<Rightarrow> Inr h)"

definition CurrLedgerHeaderHash :: "ledgermgr \<Rightarrow> string res" where
  "CurrLedgerHeaderHash s =
     (if lm_currLedgerHeaderHash s = [] then Inl (Fatal ''current ledger header hash is empty'')
      else Inr (lm_currLedgerHeaderHash s))"

definition NextLedgerHeaderSeq :: "ledgermgr \<Rightarrow> 64 word" where
  "NextLedgerHeaderSeq s = (case lm_currLedgerHeader s of None \<Rightarrow> 1 | Some h \<Rightarrow> lh_SeqNum h + 1)"

definition LedgerSynced :: "ledgermgr \<Rightarrow> bool" where
  "LedgerSynced s \<longleftrightarrow> lm_ledgerState s = LedgerStateSynced"

definition GetLedgerHeader :: "string \<Rightarrow> (ledgermgr, ledger_header option) act" where
  "GetLedgerHeader seq s =
     (case lru_Get seq (lm_headers s) of
        (Some h, c) \<Rightarrow> (Inr (Some h), s\<lparr>lm_headers := c\<rparr>)
      | (None, _) \<Rightarrow>
          (case errorf ''query ledger from db failed: '' (Get LEDGER seq (lm_database s)) of
             Inl f \<Rightarrow> (Inl f, s)
           | Inr None \<Rightarrow> (Inr None, s)
           | Inr (Some lb) \<Rightarrow>
               (case errorf ''decode ledger failed: '' (DecodeLedgerHeader lb) of
                  Inl f \<Rightarrow> (Inl f, s)
                | Inr header \<Rightarrow> (Inr (Some header), s\<lparr>lm_headers := lru_Add 100 seq header (lm_headers s)\<rparr>))))"

definition AddTxSet :: "string \<Rightarrow> txset \<Rightarrow> (ledgermgr, unit) act" where
  "AddTxSet txsetHash txset =
     bindA (liftA (errorf ''encode txset failed: '' (EncodeTxSet txset))) (\<lambda>tb.
     thenA (errorfA ''save tx list to db failed: '' (onLedgerStore (Put TXSET txsetHash tb)))
    (modifyA (\<lambda>s. s\<lparr>lm_txsetCache := lru_Add 100 txsetHash txset (lm_txsetCache s)\<rparr>)))"

definition GetTxSet :: "string \<Rightarrow> (ledgermgr, txset option) act" where
  "GetTxSet txsetHash s =
     (case lru_Get txsetHash (lm_txsetCache s) of
        (Some txs, c) \<Rightarrow> (Inr (Some txs), s\<lparr>lm_txsetCache := c\<rparr>)
      | (None, _) \<Rightarrow>
          (case errorf ''get txset from db failed: '' (Get TXSET txsetHash (lm_database s)) of
             Inl f \<Rightarrow> (Inl f, s)
           | Inr None \<Rightarrow> (Inr None, s)
           | Inr (Some txb) \<Rightarrow>
               (case errorf ''decode txset failed: '' (DecodeTxSet txb) of
                  Inl f \<Rightarrow> (Inl f, s)
                | Inr txset \<Rightarrow> (Inr (Some txset), s\<lparr>lm_txsetCache := lru_Add 100 txsetHash txset (lm_txsetCache s)\<rparr>))))"

definition GetLedger :: "string \<Rightarrow> (ledgermgr, ledger) act" where
  "GetLedger seq =
     bindA (errorfA ''get ledger header failed: '' (GetLedgerHeader seq)) (\<lambda>header.
     bindA (present (Error ''ledger header not exist'') header) (\<lambda>header.
     bindA (errorfA ''get txset failed: '' (GetTxSet (lh_TxSetHash header))) (\<lambda>txset.
     retA (Ledger (Some header) txset))))"


section \<open>Closing a ledger\<close>

definition saveCheckpoint :: "(ledgermgr, unit) act" where
  "saveCheckpoint =
     bindA (readA Inr) (\<lambda>s.
     let ckpt = \<lparr>lc_LastCloseTime = lm_lastCloseTime s, lc_LedgerHeaderCount = lm_ledgerHeaderCount s,
           lc_LargestConsensusIndex = 0, lc_PrevLedgerHeader = lm_prevLedgerHeader s,
           lc_PrevLedgerHeaderHash = lm_prevLedgerHeaderHash s, lc_CurrLedgerHeader = lm_currLedgerHeader s,
           lc_CurrLedgerHeaderHash = lm_currLedgerHeaderHash s\<rparr>
     in bindA (liftA (errorf ''encode checkpoint failed: '' (EncodeLedgerCheckpoint ckpt))) (\<lambda>b.
        errorfA ''save checkpoint in db failed: '' (onLedgerStore (Put LEDGER ''CHECKPOINT'' b))))"

definition genesisHeader :: "64 word \<Rightarrow> string \<Rightarrow> string \<Rightarrow> string \<Rightarrow> ledger_header" where
  "genesisHeader seq prevHeaderHash txHash cv =
     \<lparr>lh_Version = 1, lh_PrevLedgerHash = prevHeaderHash, lh_TxSetHash = txHash, lh_ConsensusValue = cv,
      lh_MaxTxListSize = 100, lh_SeqNum = seq, lh_TotalTokens = 4500000000000000000, lh_BaseFee = 1000,
      lh_BaseReserve = 100000000\<rparr>"

text \<open>
  The error of saving the header is built and dropped.  \<open>now\<close> is the clock when the ledger of a sequence
  number is closed.
\<close>

definition advanceLedger ::
  "txcfg \<Rightarrow> (64 word \<Rightarrow> int) \<Rightarrow> 64 word \<Rightarrow> string \<Rightarrow> string \<Rightarrow> string \<Rightarrow> (ledgermgr, unit) act" where
  "advanceLedger c now seq prevHeaderHash txHash cv =
     (let header = genesisHeader seq prevHeaderHash txHash cv in
      bindA (liftA (errorf ''encode ledger header failed: '' (EncodeLedgerHeader header))) (\<lambda>b.
      bindA (liftA (errorf ''encode ledger header to key failed: '' (GetLedgerHeaderKey (x_crypto c) (Some header)))) (\<lambda>h.
      thenA (dropA (onLedgerStore (Put LEDGER (dec (unat seq)) b)))
     (thenA (modifyA (\<lambda>s. s\<lparr>lm_headers := lru_Add 100 (dec (unat seq)) header (lm_headers s),
          lm_prevLedgerHeader := lm_currLedgerHeader s, lm_prevLedgerHeaderHash := lm_currLedgerHeaderHash s,
          lm_currLedgerHeader := Some header, lm_currLedgerHeaderHash := h,
          lm_ledgerHeaderCount := i64 (lm_ledgerHeaderCount s + 1), lm_lastCloseTime := now seq\<rparr>))
     (errorfA ''save ledger checkpoint failed: '' saveCheckpoint)))))"

text \<open>An error of \<open>advanceLedger\<close> exits the process.\<close>

definition fatalf :: "string \<Rightarrow> (ledgermgr, unit) act \<Rightarrow> (ledgermgr, unit) act" where
  "fatalf p m s = (case m s of (Inl (Error e), t) \<Rightarrow> (Inl (Fatal (p @ e)), t) | r \<Rightarrow> r)"

definition CreateGenesisLedger :: "txcfg \<Rightarrow> (64 word \<Rightarrow> int) \<Rightarrow> (ledgermgr, unit) act" where
  "CreateGenesisLedger c now =
     thenA (modifyA (\<lambda>s. s\<lparr>lm_ledgerState := LedgerStateSynced\<rparr>))
    (fatalf ''advance ledger failed: '' (advanceLedger c now 1 [] [] []))"

definition closeLedger :: "txcfg \<Rightarrow> (64 word \<Rightarrow> int) \<Rightarrow> 64 word \<Rightarrow> string \<Rightarrow> txset \<Rightarrow> (ledgermgr, unit) act" where
  "closeLedger c now index value txset =
     bindA (readA Inr) (\<lambda>s.
     if lm_currLedgerHeader s \<noteq> None \<and> NextLedgerHeaderSeq s \<noteq> index
     then failA (Error (''ledger seqnum mismatch: expect '' @ dec (unat (NextLedgerHeaderSeq s)) @ '', got '' @ dec (unat index)))
     else if lm_currLedgerHeader s \<noteq> None \<and> lm_currLedgerHeaderHash s \<noteq> ts_PrevLedgerHash txset
     then failA (Fatal ''ledger tx header hash mismatch'')
     else
       bindA (liftA (errorf ''get txset hash failed: '' (GetTxSetKey (x_crypto c) txset))) (\<lambda>txsetHash.
       bindA (liftA (errorf ''hex decode consensus value failed: '' (k_b58Decode (x_crypto c) value))) (\<lambda>b.
       bindA (liftA (errorf ''decode consensus value failed: '' (DecodeConsensusValue b))) (\<lambda>cv.
       if TxSetHash cv \<noteq> txsetHash
       then failA (Error (''txset hash mismatch: cv txset hash '' @ TxSetHash cv @ '', computed txset hash '' @ txsetHash))
       else
         thenA (errorfA ''apply tx list failed: '' (onTm (ApplyTxList c (ts_TxList txset) (NextLedgerHeaderSeq s))))
        (fatalf ''advance ledger failed: '' (advanceLedger c now index (ts_PrevLedgerHash txset) txsetHash value))))))"


section \<open>Externalized values\<close>

definition RecvExtVal :: "txcfg \<Rightarrow> (64 word \<Rightarrow> int) \<Rightarrow> 64 word \<Rightarrow> string \<Rightarrow> txset \<Rightarrow> (ledgermgr, unit) act" where
  "RecvExtVal c now index value txset =
     bindA (readA Inr) (\<lambda>s.
     let append = modifyA (\<lambda>s. s\<lparr>lm_buffer :=
           Buffer_Append (Some \<lparr>ci_Index = index, ci_Value = value, ci_TxSet = txset\<rparr>) (lm_buffer s)\<rparr>)
     in
     case lm_ledgerState s of
       LedgerStateSyncing \<Rightarrow> append
     | _ \<Rightarrow>
         if NextLedgerHeaderSeq s = index then
           bindA (readA CurrLedgerHeaderHash) (\<lambda>h.
           thenA (if h = ts_PrevLedgerHash txset
                  then errorfA ''close ledger failed: '' (closeLedger c now index value txset)
                  else failA (Fatal ''ledger hash inconsistent''))
          (modifyA (\<lambda>s. s\<lparr>lm_largestConsensusIndex := index, lm_ledgerState := LedgerStateSynced\<rparr>)))
         else if index < NextLedgerHeaderSeq s then retA ()
         else
           thenA append
          (if index \<le> lm_largestConsensusIndex s then retA ()
           else
             thenA (errorfA ''add task to downloader failed: '' (onDownloader (AddTask (lm_largestConsensusIndex s + 1) (index - 1))))
            (modifyA (\<lambda>s. s\<lparr>lm_largestConsensusIndex := index - 1, lm_ledgerState := LedgerStateSyncing\<rparr>))))"

text \<open>Closing the buffered ledgers until the buffer is empty or one fails.\<close>

fun closeBuffered :: "txcfg \<Rightarrow> (64 word \<Rightarrow> int) \<Rightarrow> close_info list \<Rightarrow> (ledgermgr, unit) act" where
  "closeBuffered c now [] = retA ()"
| "closeBuffered c now (head # rest) =
     thenA (modifyA (\<lambda>s. s\<lparr>lm_buffer := rest\<rparr>)) (\<lambda>s.
       case closeLedger c now (ci_Index head) (ci_Value head) (ci_TxSet head) s of
         (Inl (Error _), t) \<Rightarrow> (Inr (), t)
       | (Inl f, t) \<Rightarrow> (Inl f, t)
       | (Inr _, t) \<Rightarrow> closeBuffered c now rest t)"

text \<open>
  One turn of the event loop: a downloaded ledger.  A wrong index and a wrong hash are only logged
  before the ledger is closed, and so is the error of closing it.
\<close>

definition recvDownloaded :: "txcfg \<Rightarrow> (64 word \<Rightarrow> int) \<Rightarrow> close_info \<Rightarrow> (ledgermgr, unit) act" where
  "recvDownloaded c now info =
     thenA (readA CurrLedgerHeaderHash)
    (thenA (dropA (closeLedger c now (ci_Index info) (ci_Value info) (ci_TxSet info)))
    (bindA (readA Inr) (\<lambda>s.
     case Buffer_PeekHead (lm_buffer s) of
       None \<Rightarrow> retA ()
     | Some head \<Rightarrow>
         if NextLedgerHeaderSeq s \<noteq> ci_Index head then retA ()
         else
           thenA (closeBuffered c now (lm_buffer s))
          (modifyA (\<lambda>s. s\<lparr>lm_buffer := Buffer_Clear (lm_buffer s), lm_ledgerState := LedgerStateSynced\<rparr>)))))"

text \<open>The manager takes the next ledger that the downloader passes on.\<close>

definition LedgerMgr_Start_step :: "txcfg \<Rightarrow> (64 word \<Rightarrow> int) \<Rightarrow> (ledgermgr, unit) act" where
  "LedgerMgr_Start_step c now s =
     (case dl_ready (lm_downloader s) of
        [] \<Rightarrow> (Inl (Blocked ''lm.downloader.Ready''), s)
      | info # infos \<Rightarrow> recvDownloaded c now info (s\<lparr>lm_downloader := (lm_downloader s)\<lparr>dl_ready := infos\<rparr>\<rparr>))"


section \<open>Recovery\<close>

definition checkCheckpoint :: "txcfg \<Rightarrow> int \<Rightarrow> ledger_checkpoint \<Rightarrow> ledger_header res" where
  "checkCheckpoint c now ckpt =
     (if lc_LastCloseTime ckpt < 0 \<or> lc_LastCloseTime ckpt > now then Inl (Error ''invalid LastCloseTime'')
      else if lc_LedgerHeaderCount ckpt < 0 then Inl (Error ''invalid LedgerHeaderCount'')
      else if lc_PrevLedgerHeader ckpt = None \<and> lc_LedgerHeaderCount ckpt \<noteq> 1 then Inl (Error ''PrevLedgerHeader is missing'')
      else
        bindR (if lc_LargestConsensusIndex ckpt > 1 then
                 bindR (errorf ''get prev ledger header key failed: '' (GetLedgerHeaderKey (x_crypto c) (lc_PrevLedgerHeader ckpt)))
                   (\<lambda>prevHash. if prevHash \<noteq> lc_PrevLedgerHeaderHash ckpt then Inl (Error ''incompatible prev ledger hash'') else Inr ())
               else Inr ()) (\<lambda>_.
        bindR (errorf ''get curr ledger header key failed: '' (GetLedgerHeaderKey (x_crypto c) (lc_CurrLedgerHeader ckpt))) (\<lambda>currHash.
        if currHash \<noteq> lc_CurrLedgerHeaderHash ckpt then Inl (Error ''incompatible curr ledger hash'')
        else
          bindR (derefR ''checkpoint.CurrLedgerHeader'' (lc_CurrLedgerHeader ckpt)) (\<lambda>curr.
          if lh_PrevLedgerHash curr \<noteq> lc_PrevLedgerHeaderHash ckpt then Inl (Error ''incompatible prev hash of current ledger'')
          else Inr curr))))"

definition RecoverFromCheckpoint :: "txcfg \<Rightarrow> int \<Rightarrow> (ledgermgr, unit) act" where
  "RecoverFromCheckpoint c now =
     bindA (errorfA ''get ledger checkpoint failed: '' (readA (\<lambda>s. Get LEDGER ''CHECKPOINT'' (lm_database s)))) (\<lambda>b.
     bindA (present (Error ''ledger checkpoint is nil'') b) (\<lambda>b.
     thenA (modifyA (\<lambda>s. s\<lparr>lm_ledgerState := LedgerStateNotSynced\<rparr>))
    (bindA (liftA (errorf ''decode ledger checkpoint failed: '' (DecodeLedgerCheckpoint b))) (\<lambda>ckpt.
     bindA (liftA (checkCheckpoint c now ckpt)) (\<lambda>curr.
     modifyA (\<lambda>s. s\<lparr>lm_lastCloseTime := lc_LastCloseTime ckpt, lm_ledgerHeaderCount := lc_LedgerHeaderCount ckpt,
       lm_prevLedgerHeader := lc_PrevLedgerHeader ckpt, lm_prevLedgerHeaderHash := lc_PrevLedgerHeaderHash ckpt,
       lm_currLedgerHeader := lc_CurrLedgerHeader ckpt, lm_currLedgerHeaderHash := lc_CurrLedgerHeaderHash ckpt,
       lm_largestConsensusIndex := lh_SeqNum curr\<rparr>))))))"

end
