(* ===== verification/Float64.thy ===== *)
theory Float64
  imports Ult_Prelude "HOL-Library.Log_Nat"
begin

text \<open>
  The IEEE 754 double-precision arithmetic that the quorum thresholds are computed with.  A finite
  double is its exact rational value; every operation computes the exact result and rounds it to
  the nearest double, ties to even.  The sign of zero is not kept: no comparison, ceiling or
  conversion of the sources can see it.
\<close>

datatype f64 = Fin rat | PInf | NInf | NaN

section \<open>Rounding\<close>

text \<open>Round to the nearest integer, ties to even.\<close>

definition rne :: "rat \<Rightarrow> int" where
  "rne x = (let f = \<lfloor>x\<rfloor>; d = x - of_int f
            in if d < 1/2 then f else if 1/2 < d then f + 1 else if even f then f else f + 1)"

text \<open>The exponent of the last place of a double near a non-zero rational.\<close>

definition ulp_exp :: "rat \<Rightarrow> int" where
  "ulp_exp x =
     (let (n, d) = quotient_of \<bar>x\<bar>; k = bitlen n - bitlen d - 1;
          l = (if 2 powi (k + 1) \<le> \<bar>x\<bar> then k + 1 else k)
      in max (- 1074) (l - 52))"

text \<open>A result of this magnitude or more overflows to an infinity.\<close>

definition f64_limit :: rat where
  "f64_limit = 2 ^ 1024"

definition round64 :: "rat \<Rightarrow> f64" where
  "round64 x =
     (if x = 0 then Fin 0
      else let e = ulp_exp x; y = of_int (rne (x / 2 powi e)) * 2 powi e
           in if f64_limit \<le> y then PInf else if y \<le> - f64_limit then NInf else Fin y)"


section \<open>Operations the sources use\<close>

definition f64_of_int :: "int \<Rightarrow> f64" where
  "f64_of_int n = round64 (of_int n)"

text \<open>Products and differences; the cases with an infinity or NaN follow the standard.\<close>

fun f64_sgn :: "f64 \<Rightarrow> int" where
  "f64_sgn (Fin x) = (if x < 0 then -1 else if x = 0 then 0 else 1)"
| "f64_sgn PInf = 1"
| "f64_sgn NInf = -1"
| "f64_sgn NaN = 0"

definition f64_mul :: "f64 \<Rightarrow> f64 \<Rightarrow> f64" where
  "f64_mul a b =
     (case (a, b) of
        (Fin x, Fin y) \<Rightarrow> round64 (x * y)
      | (NaN, _) \<Rightarrow> NaN
      | (_, NaN) \<Rightarrow> NaN
      | _ \<Rightarrow> (let s = f64_sgn a * f64_sgn b in if s = 0 then NaN else if 0 < s then PInf else NInf))"

fun f64_neg :: "f64 \<Rightarrow> f64" where
  "f64_neg (Fin x) = Fin (- x)"
| "f64_neg PInf = NInf"
| "f64_neg NInf = PInf"
| "f64_neg NaN = NaN"

fun f64_add :: "f64 \<Rightarrow> f64 \<Rightarrow> f64" where
  "f64_add (Fin x) (Fin y) = round64 (x + y)"
| "f64_add NaN _ = NaN"
| "f64_add _ NaN = NaN"
| "f64_add PInf NInf = NaN"
| "f64_add NInf PInf = NaN"
| "f64_add PInf _ = PInf"
| "f64_add _ PInf = PInf"
| "f64_add NInf _ = NInf"
| "f64_add _ NInf = NInf"

definition f64_sub :: "f64 \<Rightarrow> f64 \<Rightarrow> f64" where
  "f64_sub a b = f64_add a (f64_neg b)"

text \<open>Every ordered comparison with NaN is false.\<close>

fun f64_less :: "f64 \<Rightarrow> f64 \<Rightarrow> bool" where
  "f64_less (Fin x) (Fin y) = (x < y)"
| "f64_less NaN _ = False"
| "f64_less _ NaN = False"
| "f64_less NInf y = (y \<noteq> NInf)"
| "f64_less _ NInf = False"
| "f64_less x PInf = (x \<noteq> PInf)"
| "f64_less PInf _ = False"

definition f64_eq :: "f64 \<Rightarrow> f64 \<Rightarrow> bool" where
  "f64_eq a b \<longleftrightarrow> a \<noteq> NaN \<and> a = b"

definition f64_le :: "f64 \<Rightarrow> f64 \<Rightarrow> bool" where
  "f64_le a b \<longleftrightarrow> f64_less a b \<or> f64_eq a b"

text \<open>\<open>math.Ceil\<close>: exact, since the ceiling of a double is a double.\<close>

fun math_Ceil :: "f64 \<Rightarrow> f64" where
  "math_Ceil (Fin x) = Fin (of_int \<lceil>x\<rceil>)"
| "math_Ceil a = a"

text \<open>
  Conversions to integers truncate.  A value outside the range (NaN included) converts to a result
  the language leaves to the implementation; the one written here is that of the compiler for
  \<open>amd64\<close>, whose conversion instruction returns the least integer.  The conversion to \<open>uint64\<close> of a
  value of at least \<open>2 ^ 63\<close> and below \<open>2 ^ 64\<close> is in range and exact.
\<close>

definition rat_trunc :: "rat \<Rightarrow> int" where
  "rat_trunc x = (if 0 \<le> x then \<lfloor>x\<rfloor> else \<lceil>x\<rceil>)"

definition f64_to_int :: "f64 \<Rightarrow> int" where
  "f64_to_int a =
     (case a of
        Fin x \<Rightarrow> (if in64 (rat_trunc x) then rat_trunc x else - (2 ^ 63))
      | _ \<Rightarrow> - (2 ^ 63))"

definition f64_to_uint64 :: "f64 \<Rightarrow> 64 word" where
  "f64_to_uint64 a =
     (case a of
        Fin x \<Rightarrow> (if 0 \<le> rat_trunc x \<and> rat_trunc x < 2 ^ 64
                  then word_of_int (rat_trunc x) else word_of_int (2 ^ 63))
      | _ \<Rightarrow> word_of_int (2 ^ 63))"


section \<open>Exactness on small integers\<close>

lemma rne_of_int [simp]: "rne (of_int n) = n"
  by (simp add: rne_def)

lemma round64_0 [simp]: "round64 0 = Fin 0"
  by (simp add: round64_def)

text \<open>
  An integer below \<open>2 ^ 53\<close> is a double, so rounding leaves it: its last place is at most one, and a
  multiple of a power of two below one is an integer at that scale.
\<close>

lemma ulp_exp_small_int:
  fixes n :: int
  assumes "n \<noteq> 0" "\<bar>n\<bar> < 2 ^ 53"
  shows "ulp_exp (of_int n) \<le> 0"
proof -
  have q: "quotient_of \<bar>of_int n :: rat\<bar> = (\<bar>n\<bar>, 1)"
  proof -
    have "\<bar>of_int n :: rat\<bar> = Rat.of_int \<bar>n\<bar>" by (simp add: Rat.of_int_def)
    then show ?thesis by (simp add: quotient_of_int)
  qed
  define k where "k = bitlen \<bar>n\<bar> - bitlen 1 - 1"
  have b1: "bitlen (1::int) = 1" by (simp add: bitlen_def floorlog_def)
  have "nat \<bar>n\<bar> < 2 ^ 53" using assms(2) by (simp add: nat_less_iff)
  then have "floorlog 2 (nat \<bar>n\<bar>) \<le> 53" by (rule floorlog_leI) auto
  then have "bitlen \<bar>n\<bar> \<le> 53" by (simp add: bitlen_def)
  then have "k + 1 \<le> 52" by (simp add: k_def b1)
  then have le: "max (- 1074) ((if c then k + 1 else k) - 52) \<le> 0" for c
    by (cases c) simp_all
  show ?thesis unfolding ulp_exp_def q Let_def prod.case k_def [symmetric] by (rule le)
qed

lemma powi_nonpos:
  assumes "e \<le> 0"
  shows "(2::rat) powi e = 1 / 2 ^ nat (- e)"
proof (cases "e = 0")
  case True
  then show ?thesis by simp
next
  case False
  then have "\<not> 0 \<le> e" using assms by simp
  then show ?thesis
    unfolding power_int_def by (simp only: if_False power_inverse divide_inverse mult_1)
qed

lemma f64_limit_large: "(2::rat) ^ 53 \<le> f64_limit"
proof -
  have "(53::nat) \<le> 1024" and "(1::rat) \<le> 2" by simp_all
  then show ?thesis unfolding f64_limit_def by (rule power_increasing)
qed

lemma round64_small_int:
  fixes n :: int
  assumes "\<bar>n\<bar> < 2 ^ 53"
  shows "round64 (of_int n) = Fin (of_int n)"
proof (cases "n = 0")
  case True
  then show ?thesis by simp
next
  case False
  define e where "e = ulp_exp (of_int n)"
  define m where "m = nat (- e)"
  have "e \<le> 0" using ulp_exp_small_int [OF False assms] by (simp add: e_def)
  then have e: "(2::rat) powi e = 1 / 2 ^ m"
    unfolding m_def by (rule powi_nonpos)
  have sc: "(of_int n :: rat) / 2 powi e = of_int (n * 2 ^ m)" by (simp add: e)
  have y: "of_int (rne (of_int n / 2 powi e)) * 2 powi e = (of_int n :: rat)"
    unfolding sc rne_of_int by (simp add: e)
  have "\<bar>of_int n :: rat\<bar> = of_int \<bar>n\<bar>" by simp
  also have "\<dots> < of_int (2 ^ 53)" using assms by (simp only: of_int_less_iff)
  also have "\<dots> = (2::rat) ^ 53" by simp
  also have "\<dots> \<le> f64_limit" by (rule f64_limit_large)
  finally have "\<bar>of_int n :: rat\<bar> < f64_limit" .
  then have "\<not> f64_limit \<le> of_int n" "\<not> (of_int n :: rat) \<le> - f64_limit"
    by linarith+
  with False y show ?thesis
    unfolding round64_def Let_def e_def [symmetric] by (simp only: of_int_eq_0_iff if_False)
qed

lemma f64_of_small_int:
  "\<bar>n\<bar> < 2 ^ 53 \<Longrightarrow> f64_of_int n = Fin (of_int n)"
  by (simp add: f64_of_int_def round64_small_int)

lemma rat_trunc_of_int [simp]: "rat_trunc (of_int n) = n"
  by (simp add: rat_trunc_def)

lemma f64_to_int_of_int [simp]: "in64 n \<Longrightarrow> f64_to_int (Fin (of_int n)) = n"
  by (simp add: f64_to_int_def)

lemma f64_sub_self [simp]: "f64_sub (Fin x) (Fin x) = Fin 0"
  by (simp add: f64_sub_def)


section \<open>Rounding stays between representable bounds\<close>

lemma rne_le: "x \<le> of_int m \<Longrightarrow> rne x \<le> m"
proof -
  assume le: "x \<le> of_int m"
  show ?thesis
  proof (cases "x = of_int m")
    case True
    then show ?thesis by simp
  next
    case False
    with le have "x < of_int m" by simp
    then have "\<lfloor>x\<rfloor> < m" by (simp add: floor_less_iff)
    then show ?thesis by (simp add: rne_def Let_def)
  qed
qed

lemma rne_ge: "of_int m \<le> x \<Longrightarrow> m \<le> rne x"
proof -
  assume "of_int m \<le> x"
  then have "m \<le> \<lfloor>x\<rfloor>" by (simp add: le_floor_iff)
  then show ?thesis by (simp add: rne_def Let_def)
qed

text \<open>The exponent is the one of the leading bit, lowered by 52 places and cut off at the subnormals.\<close>

lemma lead_bit_lower:
  fixes x :: rat
  assumes "0 < x" "quotient_of x = (n, d)"
  shows "2 powi (bitlen n - bitlen d - 1) \<le> x"
proof -
  have d: "0 < d" using assms(2) by (rule quotient_of_denom_pos)
  have x: "x = of_int n / of_int d" using assms(2) by (rule quotient_of_div)
  have n: "0 < n" using assms(1) x d by (simp add: zero_less_divide_iff)
  define a where "a = nat (bitlen n - 1)"
  define b where "b = nat (bitlen d)"
  have bn: "1 \<le> bitlen n" using n bitlen_eq_zero_iff [of n] bitlen_nonneg [of n] by linarith
  have la: "2 ^ a \<le> n" using bitlen_bounds [OF n] by (simp add: a_def)
  have lb: "d < 2 ^ b" using bitlen_bounds [OF d] by (simp add: b_def)
  have "(2::rat) powi (bitlen n - bitlen d - 1) = 2 powi (int a - int b)"
    using bn bitlen_nonneg [of d] by (simp add: a_def b_def algebra_simps)
  also have "\<dots> = 2 ^ a / 2 ^ b" by (simp add: power_int_diff)
  also have "\<dots> \<le> of_int n / of_int d"
  proof (rule frac_le)
    show "(2::rat) ^ a \<le> of_int n" using la by (metis of_int_le_iff of_int_numeral of_int_power)
    show "of_int d \<le> (2::rat) ^ b" using lb by (metis less_imp_le of_int_le_iff of_int_numeral of_int_power)
    show "0 < (of_int d :: rat)" using d by simp
    show "0 \<le> (of_int n :: rat)" using n by simp
  qed
  finally show ?thesis by (simp add: x)
qed

lemma ulp_exp_below:
  fixes x :: rat
  assumes "0 < x"
  obtains l where "2 powi l \<le> x" "ulp_exp x = max (- 1074) (l - 52)"
proof -
  obtain n d where q: "quotient_of x = (n, d)" by (cases "quotient_of x")
  define k where "k = bitlen n - bitlen d - 1"
  define l where "l = (if 2 powi (k + 1) \<le> x then k + 1 else k)"
  have "2 powi k \<le> x" unfolding k_def by (rule lead_bit_lower [OF assms q])
  then have "2 powi l \<le> x" by (simp only: l_def split: if_split) blast
  moreover have "\<bar>x\<bar> = x" using assms by simp
  then have "ulp_exp x = max (- 1074) (l - 52)"
    by (simp only: ulp_exp_def q Let_def prod.case l_def k_def)
  ultimately show ?thesis by (rule that)
qed

lemma round64_within:
  fixes x :: rat and n :: int
  assumes x: "2 powi (- 1074) \<le> x" and xn: "x \<le> of_int n" and n: "n < 2 ^ 53"
  obtains y where "round64 x = Fin y" "0 < y" "y \<le> of_int n"
proof -
  have p: "0 < (2::rat) powi e" for e by (rule zero_less_power_int) simp
  have x0: "0 < x" using x p [of "- 1074"] by linarith
  obtain l where l: "2 powi l \<le> x" and u: "ulp_exp x = max (- 1074) (l - 52)"
    by (rule ulp_exp_below [OF x0])
  define e where "e = ulp_exp x"
  define m where "m = nat (- e)"
  have "(of_int n :: rat) < of_int (2 ^ 53)" using n by (simp only: of_int_less_iff)
  also have "\<dots> = 2 powi 53" by simp
  finally have "2 powi l < (2::rat) powi 53" using l xn by linarith
  then have "l < 53" by (rule power_int_le_imp_less_exp [rotated]) simp_all
  then have e0: "e \<le> 0" by (simp add: e_def u)
  have pe: "(2::rat) powi e = 1 / 2 ^ m" unfolding m_def by (rule powi_nonpos [OF e0])
  have ex: "2 powi e \<le> x"
  proof (cases "e = - 1074")
    case True
    then show ?thesis using x by simp
  next
    case False
    then have "e = l - 52" using u by (simp add: e_def)
    then have "(2::rat) powi e \<le> 2 powi l" by (intro power_int_increasing) simp_all
    then show ?thesis using l by linarith
  qed
  define r where "r = rne (x / 2 powi e)"
  have "x / 2 powi e \<le> of_int (n * 2 ^ m)" using xn by (simp add: pe mult_right_mono)
  then have r1: "r \<le> n * 2 ^ m" unfolding r_def by (rule rne_le)
  have "of_int 1 \<le> x / 2 powi e" using ex p [of e] by (simp add: le_divide_eq)
  then have r2: "1 \<le> r" unfolding r_def by (rule rne_ge)
  have y0: "0 < of_int r * (2::rat) powi e" using r2 p [of e] by simp
  have "of_int r * (2::rat) powi e \<le> of_int (n * 2 ^ m) * 2 powi e"
    using r1 p [of e] by (intro mult_right_mono) (simp_all only: of_int_le_iff less_imp_le)
  also have "\<dots> = of_int n" by (simp add: pe)
  finally have yn: "of_int r * (2::rat) powi e \<le> of_int n" .
  have "(of_int n :: rat) < 2 ^ 53"
    using n by (metis of_int_less_iff of_int_numeral of_int_power)
  then have "\<not> f64_limit \<le> of_int r * 2 powi e" "\<not> of_int r * 2 powi e \<le> - f64_limit"
    using yn y0 f64_limit_large by linarith+
  then have "round64 x = Fin (of_int r * 2 powi e)"
    using x0 unfolding round64_def Let_def e_def [symmetric] r_def [symmetric] by simp
  then show ?thesis using y0 yn by (rule that)
qed


section \<open>Exactness on short binary fractions\<close>

text \<open>
  A positive fraction with a numerator below \<open>2 ^ 53\<close> over a power of two is a double: rounding
  leaves it.
\<close>

lemma round64_dyadic:
  fixes m :: int
  assumes m: "0 < m" "m < 2 ^ 53" and k: "k \<le> 1074"
  shows "round64 (of_int m / 2 ^ k) = Fin (of_int m / 2 ^ k)"
proof -
  define x :: rat where "x = of_int m / 2 ^ k"
  have x0: "0 < x" using m(1) by (simp add: x_def)
  obtain l where l: "2 powi l \<le> x" and u: "ulp_exp x = max (- 1074) (l - 52)"
    by (rule ulp_exp_below [OF x0])
  have m53: "(of_int m :: rat) < of_int (2 ^ 53)" using m(2) by (simp only: of_int_less_iff)
  have xk: "x = of_int m * 2 powi (- int k)"
    by (simp add: x_def power_int_minus divide_inverse)
  have "x < of_int (2 ^ 53) * 2 powi (- int k)"
    unfolding xk using m53 by (rule mult_strict_right_mono) simp
  also have "\<dots> = 2 powi 53 * 2 powi (- int k)"
    by (simp only: of_int_power of_int_numeral power_int_numeral)
  also have "\<dots> = 2 powi (53 + - int k)" by (rule power_int_add [symmetric]) simp
  finally have "2 powi l < (2::rat) powi (53 + - int k)" using l by linarith
  then have "l < 53 + - int k"
    using power_int_increasing [of "53 + - int k" l "2::rat"] by (meson less_le_not_le not_le one_le_numeral)
  define e where "e = ulp_exp x"
  have "int k \<le> 1074" using k by linarith
  then have e: "e \<le> - int k" using \<open>l < 53 + - int k\<close> by (simp only: e_def u max_def split: if_split) linarith
  define j where "j = nat (- int k - e)"
  have p: "(2::rat) powi e \<noteq> 0" by simp
  have "(2::rat) powi (- int k) = 2 powi (int j + e)" using e by (simp add: j_def)
  also have "\<dots> = 2 ^ j * 2 powi e" by (simp add: power_int_add)
  finally have xe: "x = of_int (m * 2 ^ j) * 2 powi e" by (simp add: xk)
  then have sc: "x / 2 powi e = of_int (m * 2 ^ j)" using p by simp
  have y: "of_int (rne (x / 2 powi e)) * 2 powi e = x"
    unfolding sc rne_of_int by (simp only: xe)
  have "x \<le> of_int m" using m(1) by (simp add: x_def divide_le_eq_1 divide_le_eq mult_le_cancel_left1)
  then have "x < 2 ^ 53" using m53 by (simp only: of_int_power of_int_numeral)
  then have "\<not> f64_limit \<le> x" "\<not> x \<le> - f64_limit" using f64_limit_large x0 by linarith+
  with y x0 have "round64 x = Fin x"
    unfolding round64_def Let_def e_def [symmetric] by (simp only: if_False less_imp_neq [THEN not_sym])
  then show ?thesis by (simp only: x_def)
qed

text \<open>The instances the concrete examples of the development evaluate.\<close>

lemma round64_div_numeral:
  assumes "(numeral b :: int) = 2 ^ k" "k \<le> 1074" "(numeral a :: int) < 2 ^ 53"
  shows "round64 (numeral a / numeral b) = Fin (numeral a / numeral b)"
proof -
  have "(numeral b :: rat) = 2 ^ k" using assms(1) by (metis of_int_numeral of_int_power)
  then show ?thesis using round64_dyadic [of "numeral a" k] assms(2,3) by simp
qed

lemma round64_numeral:
  assumes "(numeral a :: int) < 2 ^ 53"
  shows "round64 (numeral a) = Fin (numeral a)"
  using round64_small_int [of "numeral a"] assms by simp

lemma round64_1: "round64 1 = Fin 1"
  using round64_small_int [of 1] by simp

lemma round64_div_1:
  assumes "(numeral b :: int) = 2 ^ k" "k \<le> 1074"
  shows "round64 (1 / numeral b) = Fin (1 / numeral b)"
proof -
  have "(numeral b :: rat) = 2 ^ k" using assms(1) by (metis of_int_numeral of_int_power)
  then show ?thesis using round64_dyadic [of 1 k] assms(2) by simp
qed

lemma ceiling_div_numeral:
  "\<lceil>numeral a / numeral b :: rat\<rceil> = - ((- numeral a) div numeral b)"
  "\<lceil>1 / numeral b :: rat\<rceil> = - ((- 1) div numeral b)"
  using floor_divide_of_int_eq [of "- numeral a" "numeral b", where ?'a = rat]
    floor_divide_of_int_eq [of "- 1" "numeral b", where ?'a = rat]
  by (simp_all add: ceiling_def)

lemmas f64_eval = ceiling_div_numeral f64_mul_def f64_sub_def f64_of_int_def round64_numeral round64_1
  round64_div_numeral [of _ 1, simplified] round64_div_numeral [of _ 2, simplified]
  round64_div_numeral [of _ 3, simplified] round64_div_1 [of _ 1, simplified]
  round64_div_1 [of _ 2, simplified] round64_div_1 [of _ 3, simplified]
  f64_to_int_def rat_trunc_def in64_def

end
