(* ===== verification/Quorum.thy ===== *)
theory Quorum
  imports Float64
begin

text \<open>
  The quorums of \<open>consensus/util.go\<close> and \<open>consensus/sorter.go\<close>: validation, the v-blocking and the
  quorum-slice test that federated voting rests on, and the normal form the leader election reads.
  A node set is a set of node identifiers; the counting loops keep the source's countdown and its
  early returns.
\<close>


section \<open>Data\<close>

datatype quorum =
  Quorum (q_Threshold: f64) (q_Validators: "string list") (q_NestQuorums: "quorum list")

text \<open>The number of members: validators and nested quorums together.\<close>

definition qsize :: "quorum \<Rightarrow> int" where
  "qsize q = int (length (q_Validators q) + length (q_NestQuorums q))"


section \<open>Validation\<close>

text \<open>The loop over the validators with the set of those already seen.\<close>

fun dup_loop :: "string set \<Rightarrow> string list \<Rightarrow> bool" where
  "dup_loop nodes [] = False"
| "dup_loop nodes (v # vs) = (if v \<in> nodes then True else dup_loop (insert v nodes) vs)"

fun ValidateQuorum :: "quorum \<Rightarrow> int \<Rightarrow> bool \<Rightarrow> unit res" where
  "ValidateQuorum (Quorum t vs ns) depth extraChecks =
     (if depth > 2 then Inl (Error ''invalid quorum depth'')
      else if f64_le t (Fin 0) \<or> f64_less (Fin 1) t then Inl (Error ''invalid quorum threshold'')
      else if extraChecks \<and> f64_less t (f64_sub (Fin 1) t)
        then Inl (Error ''bad quorum threshold range'')
      else if dup_loop {} vs then Inl (Error ''duplicated quorum nodes'')
      else fold (\<lambda>q r. bindR r (\<lambda>_. ValidateQuorum q (depth + 1) extraChecks)) ns (Inr ()))"


section \<open>V-blocking sets and quorum slices\<close>

text \<open>
  The two countdowns.  \<open>isVblocking\<close> returns when the count is exactly zero, \<open>isQuorumSlice\<close> when it
  is zero or less; both look only after a member has been counted.
\<close>

fun vblocking_loop :: "bool list \<Rightarrow> int \<Rightarrow> bool" where
  "vblocking_loop [] threshold = False"
| "vblocking_loop (h # hs) threshold =
     (let threshold' = (if h then threshold - 1 else threshold)
      in if threshold' = 0 then True else vblocking_loop hs threshold')"

fun slice_loop :: "bool list \<Rightarrow> int \<Rightarrow> bool" where
  "slice_loop [] threshold = False"
| "slice_loop (h # hs) threshold =
     (let threshold' = (if h then threshold - 1 else threshold)
      in if threshold' \<le> 0 then True else slice_loop hs threshold')"

definition vblockThreshold :: "f64 \<Rightarrow> int \<Rightarrow> int" where
  "vblockThreshold t n = f64_to_int (math_Ceil (f64_mul (f64_of_int n) (f64_sub (Fin 1) t)))"

definition sliceThreshold :: "f64 \<Rightarrow> int \<Rightarrow> int" where
  "sliceThreshold t n = f64_to_int (math_Ceil (f64_mul (f64_of_int n) t))"

fun isVblocking :: "quorum \<Rightarrow> string set \<Rightarrow> bool" where
  "isVblocking (Quorum t vs ns) nodeSet =
     vblocking_loop (map (\<lambda>v. v \<in> nodeSet) vs @ map (\<lambda>nq. isVblocking nq nodeSet) ns)
       (vblockThreshold t (int (length vs + length ns)))"

text \<open>The nested quorums of a slice are tested with \<open>isVblocking\<close>, as the source does.\<close>

definition isQuorumSlice :: "quorum \<Rightarrow> string set \<Rightarrow> bool" where
  "isQuorumSlice q nodeSet =
     slice_loop (map (\<lambda>v. v \<in> nodeSet) (q_Validators q)
                 @ map (\<lambda>nq. isVblocking nq nodeSet) (q_NestQuorums q))
       (sliceThreshold (q_Threshold q) (qsize q))"

definition getSingletonQuorum :: "string \<Rightarrow> quorum" where
  "getSingletonQuorum nodeID = Quorum (Fin 1) [nodeID] []"

fun getQuorumNodes :: "quorum \<Rightarrow> string list" where
  "getQuorumNodes (Quorum t vs ns) = vs @ concat (map getQuorumNodes ns)"


section \<open>Comparison and normal form\<close>

fun compareStrings :: "string list \<Rightarrow> string list \<Rightarrow> int" where
  "compareStrings [] [] = 0"
| "compareStrings [] (_ # _) = -1"
| "compareStrings (_ # _) [] = 1"
| "compareStrings (a # as) (b # bs) =
     (let cmp = strings_Compare a b in if cmp \<noteq> 0 then cmp else compareStrings as bs)"

text \<open>\<open>compareQuorum\<close> compares the validators of its first argument with themselves.\<close>

fun compareQuorum :: "quorum \<Rightarrow> quorum \<Rightarrow> int"
  and compareQuorums :: "quorum list \<Rightarrow> quorum list \<Rightarrow> int" where
  "compareQuorum (Quorum t1 vs1 ns1) (Quorum t2 vs2 ns2) =
     (let cmp = compareStrings vs1 vs1
      in if cmp \<noteq> 0 then cmp
         else let cmp = compareQuorums ns1 ns2
              in if cmp \<noteq> 0 then cmp
                 else if f64_less t1 t2 then -1 else if f64_less t2 t1 then 1 else 0)"
| "compareQuorums [] [] = 0"
| "compareQuorums [] (_ # _) = -1"
| "compareQuorums (_ # _) [] = 1"
| "compareQuorums (a # as) (b # bs) =
     (let cmp = compareQuorum a b in if cmp \<noteq> 0 then cmp else compareQuorums as bs)"

definition QuorumSlice_Less :: "quorum \<Rightarrow> quorum \<Rightarrow> bool" where
  "QuorumSlice_Less a b \<longleftrightarrow> compareQuorum a b \<le> 0"

text \<open>
  \<open>simplifyQuorum\<close> drops the node from every level; the test that flattens reads the original
  quorum, and its result is the original nested quorum, with the node still in it.
\<close>

fun simplifyQuorum :: "quorum \<Rightarrow> string \<Rightarrow> quorum" where
  "simplifyQuorum (Quorum t vs ns) nodeID =
     (if f64_eq t (Fin 1) \<and> length vs = 0 \<and> length ns = 1 then hd ns
      else Quorum t (filter (\<lambda>v. v \<noteq> nodeID) vs) (map (\<lambda>q. simplifyQuorum q nodeID) ns))"

definition sort_Strings :: "string list \<Rightarrow> string list" where
  "sort_Strings = go_sort (<)"

fun sortQuorum :: "quorum \<Rightarrow> quorum" where
  "sortQuorum (Quorum t vs ns) =
     Quorum t (sort_Strings vs) (go_sort QuorumSlice_Less (map sortQuorum ns))"

definition normalizeQuorum :: "quorum \<Rightarrow> string \<Rightarrow> quorum" where
  "normalizeQuorum quorum nodeID = sortQuorum (simplifyQuorum quorum nodeID)"

text \<open>
  The sort is in place.  Where \<open>simplifyQuorum\<close> returned a nested quorum of its argument, that part
  of the argument is sorted too: this is the argument after \<open>normalizeQuorum\<close>.
\<close>

fun normalized_in_place :: "quorum \<Rightarrow> quorum" where
  "normalized_in_place (Quorum t vs ns) =
     (if f64_eq t (Fin 1) \<and> length vs = 0 \<and> length ns = 1
      then Quorum t vs [sortQuorum (hd ns)]
      else Quorum t vs (map normalized_in_place ns))"


section \<open>The countdowns are counts\<close>

definition hits :: "bool list \<Rightarrow> int" where
  "hits hs = int (length (filter (\<lambda>h. h) hs))"

lemma hits_simps [simp]:
  "hits [] = 0"
  "hits (h # hs) = (if h then 1 else 0) + hits hs"
  "hits (hs @ gs) = hits hs + hits gs"
  by (auto simp: hits_def)

lemma hits_nonneg [simp]: "0 \<le> hits hs"
  by (simp add: hits_def)

lemma hits_le_length: "hits hs \<le> int (length hs)"
  by (simp add: hits_def)

lemma hits_mono: "list_all2 (\<longrightarrow>) hs gs \<Longrightarrow> hits hs \<le> hits gs"
  by (induction rule: list_all2_induct) auto

lemma vblocking_loop_count: "1 \<le> th \<Longrightarrow> vblocking_loop hs th \<longleftrightarrow> th \<le> hits hs"
proof (induction hs arbitrary: th)
  case Nil
  then show ?case by simp
next
  case (Cons h hs)
  then show ?case
    by (cases h; cases "th = 1") (auto simp: Let_def)
qed

lemma vblocking_loop_neg: "th < 0 \<Longrightarrow> \<not> vblocking_loop hs th"
  by (induction hs arbitrary: th) (auto simp: Let_def)

lemma vblocking_loop_zero: "vblocking_loop hs 0 \<longleftrightarrow> hs \<noteq> [] \<and> \<not> hd hs"
  by (cases hs) (auto simp: Let_def vblocking_loop_neg)

lemma slice_loop_count: "slice_loop hs th \<longleftrightarrow> hs \<noteq> [] \<and> th \<le> hits hs"
proof (induction hs arbitrary: th)
  case Nil
  then show ?case by simp
next
  case (Cons h hs)
  define th' where "th' = (if h then th - 1 else th)"
  have le: "th \<le> hits (h # hs) \<longleftrightarrow> th' \<le> hits hs" unfolding th'_def by (cases h) auto
  have step: "slice_loop (h # hs) th = (th' \<le> 0 \<or> slice_loop hs th')"
    by (simp add: th'_def Let_def)
  show ?case
  proof (cases "th' \<le> 0")
    case True
    then have "th' \<le> hits hs" using hits_nonneg [of hs] by linarith
    with True step le show ?thesis by simp
  next
    case False
    then have "th' \<le> hits hs \<Longrightarrow> hs \<noteq> []" by auto
    with False step le Cons.IH show ?thesis by auto
  qed
qed

text \<open>The members of a quorum that a node set has: one entry per validator and per nested quorum.\<close>

definition members_in :: "quorum \<Rightarrow> string set \<Rightarrow> bool list" where
  "members_in q S =
     map (\<lambda>v. v \<in> S) (q_Validators q) @ map (\<lambda>nq. isVblocking nq S) (q_NestQuorums q)"

lemma length_members_in [simp]: "int (length (members_in q S)) = qsize q"
  by (simp add: members_in_def qsize_def)

lemma isQuorumSlice_iff:
  "isQuorumSlice q S \<longleftrightarrow> 0 < qsize q \<and> sliceThreshold (q_Threshold q) (qsize q) \<le> hits (members_in q S)"
proof -
  have "members_in q S \<noteq> [] \<longleftrightarrow> 0 < qsize q"
    by (metis length_greater_0_conv length_members_in of_nat_0_less_iff)
  then show ?thesis
    by (auto simp: isQuorumSlice_def slice_loop_count simp flip: members_in_def)
qed

lemma isVblocking_loop:
  "isVblocking q S = vblocking_loop (members_in q S) (vblockThreshold (q_Threshold q) (qsize q))"
  by (cases q) (simp add: members_in_def qsize_def)

lemma isVblocking_iff:
  assumes "1 \<le> vblockThreshold (q_Threshold q) (qsize q)"
  shows "isVblocking q S \<longleftrightarrow> vblockThreshold (q_Threshold q) (qsize q) \<le> hits (members_in q S)"
  using assms by (simp add: isVblocking_loop vblocking_loop_count)


section \<open>Thresholds\<close>

text \<open>
  A threshold that a double can hold and that validation admits: above zero by at least the least
  positive double, at most one.
\<close>

definition unit_f64 :: "rat \<Rightarrow> bool" where
  "unit_f64 t \<longleftrightarrow> 2 powi (- 1074) \<le> t \<and> t \<le> 1"

lemma small_in64: "1 \<le> c \<Longrightarrow> c \<le> n \<Longrightarrow> n < 2 ^ 53 \<Longrightarrow> in64 c"
  by (simp add: in64_def)

lemma ceil_to_int_bounds:
  fixes y :: rat
  assumes "0 < y" "y \<le> of_int n" "n < 2 ^ 53"
  shows "1 \<le> f64_to_int (math_Ceil (Fin y)) \<and> f64_to_int (math_Ceil (Fin y)) \<le> n"
proof -
  have "1 \<le> \<lceil>y\<rceil>" using assms(1) by (simp add: less_ceiling_iff one_le_ceiling)
  moreover have "\<lceil>y\<rceil> \<le> n" using assms(2) by (simp add: ceiling_le)
  ultimately have "in64 \<lceil>y\<rceil>" by (rule small_in64 [OF _ _ assms(3)])
  then show ?thesis using \<open>1 \<le> \<lceil>y\<rceil>\<close> \<open>\<lceil>y\<rceil> \<le> n\<close> by simp
qed

lemma ceil_mul_bounds:
  fixes t :: rat
  assumes "unit_f64 t" "0 < n" "n < 2 ^ 53"
  shows "1 \<le> f64_to_int (math_Ceil (f64_mul (f64_of_int n) (Fin t)))
    \<and> f64_to_int (math_Ceil (f64_mul (f64_of_int n) (Fin t))) \<le> n"
proof -
  have t: "2 powi (- 1074) \<le> t" "t \<le> 1" using assms(1) by (simp_all only: unit_f64_def)
  have p: "0 < (2::rat) powi (- 1074)" by (rule zero_less_power_int) simp
  have "1 \<le> (of_int n :: rat)" using assms(2) by simp
  then have "1 * t \<le> of_int n * t" using t(1) p by (intro mult_right_mono) linarith+
  then have lo: "2 powi (- 1074) \<le> of_int n * t" using t(1) by linarith
  have hi: "of_int n * t \<le> of_int n" using t(2) assms(2) by (simp add: mult_left_le)
  obtain y where y: "round64 (of_int n * t) = Fin y" "0 < y" "y \<le> of_int n"
    by (rule round64_within [OF lo hi assms(3)])
  have "f64_mul (f64_of_int n) (Fin t) = Fin y"
    using assms(2,3) y(1) by (simp add: f64_of_small_int f64_mul_def)
  then show ?thesis using ceil_to_int_bounds [OF y(2,3) assms(3)] by simp
qed

lemma sliceThreshold_bounds:
  assumes "unit_f64 t" "0 < n" "n < 2 ^ 53"
  shows "1 \<le> sliceThreshold (Fin t) n \<and> sliceThreshold (Fin t) n \<le> n"
  using ceil_mul_bounds [OF assms] by (simp add: sliceThreshold_def)

lemma vblockThreshold_one:
  assumes "0 \<le> n" "n < 2 ^ 53"
  shows "vblockThreshold (Fin 1) n = 0"
  using assms by (simp add: vblockThreshold_def f64_of_small_int f64_mul_def f64_to_int_def
      rat_trunc_def in64_def)

text \<open>The complement of a threshold below one rounds to a threshold again.\<close>

lemma vblockThreshold_bounds:
  assumes "f64_sub (Fin 1) t = Fin c" "unit_f64 c" "0 < n" "n < 2 ^ 53"
  shows "1 \<le> vblockThreshold t n \<and> vblockThreshold t n \<le> n"
  using ceil_mul_bounds [OF assms(2-4)] assms(1) by (simp add: vblockThreshold_def)


section \<open>Monotonicity\<close>

text \<open>
  More nodes never lose a slice, as long as no quorum below it has a v-blocking threshold under
  one.  (With a threshold of exactly one the countdown starts at zero; see below.)
\<close>

fun vb_sound :: "quorum \<Rightarrow> bool" where
  "vb_sound (Quorum t vs ns) \<longleftrightarrow>
     1 \<le> vblockThreshold t (int (length vs + length ns)) \<and> (\<forall>n \<in> set ns. vb_sound n)"

definition nests_sound :: "quorum \<Rightarrow> bool" where
  "nests_sound q \<longleftrightarrow> (\<forall>n \<in> set (q_NestQuorums q). vb_sound n)"

lemma members_in_mono:
  assumes "S \<subseteq> T" "\<And>n. n \<in> set (q_NestQuorums q) \<Longrightarrow> isVblocking n S \<Longrightarrow> isVblocking n T"
  shows "hits (members_in q S) \<le> hits (members_in q T)"
proof (rule hits_mono)
  show "list_all2 (\<longrightarrow>) (members_in q S) (members_in q T)"
    unfolding members_in_def
    by (rule list_all2_appendI) (use assms in \<open>auto simp: list_all2_conv_all_nth\<close>)
qed

lemma isVblocking_mono: "vb_sound q \<Longrightarrow> S \<subseteq> T \<Longrightarrow> isVblocking q S \<Longrightarrow> isVblocking q T"
proof (induction q)
  case (Quorum t vs ns)
  let ?q = "Quorum t vs ns"
  have th: "1 \<le> vblockThreshold (q_Threshold ?q) (qsize ?q)"
    using Quorum.prems(1) by (simp add: qsize_def)
  have "hits (members_in ?q S) \<le> hits (members_in ?q T)"
    by (rule members_in_mono) (use Quorum in auto)
  then show ?case
    using Quorum.prems(3) isVblocking_iff [OF th, of S] isVblocking_iff [OF th, of T] by linarith
qed

lemma isQuorumSlice_mono:
  assumes "nests_sound q" "S \<subseteq> T" "isQuorumSlice q S"
  shows "isQuorumSlice q T"
proof -
  have "hits (members_in q S) \<le> hits (members_in q T)"
    by (rule members_in_mono) (use assms in \<open>auto simp: nests_sound_def intro: isVblocking_mono\<close>)
  with assms(3) show ?thesis by (simp add: isQuorumSlice_iff)
qed

text \<open>A quorum with validators only.\<close>

definition flat :: "quorum \<Rightarrow> bool" where
  "flat q \<longleftrightarrow> q_NestQuorums q = []"

lemma flat_nests_sound [simp]: "flat q \<Longrightarrow> nests_sound q"
  by (simp add: flat_def nests_sound_def)

lemma hits_flat:
  assumes "flat q" "distinct (q_Validators q)"
  shows "hits (members_in q S) = int (card (S \<inter> set (q_Validators q)))"
proof -
  have "hits (members_in q S) = int (length (filter (\<lambda>v. v \<in> S) (q_Validators q)))"
    using assms(1) by (simp add: members_in_def flat_def hits_def filter_map o_def)
  also have "\<dots> = int (card (set (filter (\<lambda>v. v \<in> S) (q_Validators q))))"
    using distinct_card [OF distinct_filter [OF assms(2)]] by metis
  finally show ?thesis by (simp add: Int_commute Int_def conj_commute)
qed

lemma card_overlap:
  fixes A B V :: "'a set"
  assumes "finite V" "card V < card (A \<inter> V) + card (B \<inter> V)"
  shows "A \<inter> B \<inter> V \<noteq> {}"
proof
  assume "A \<inter> B \<inter> V = {}"
  then have "(A \<inter> V) \<inter> (B \<inter> V) = {}" by blast
  then have "card ((A \<inter> V) \<union> (B \<inter> V)) = card (A \<inter> V) + card (B \<inter> V)"
    using assms(1) by (simp add: card_Un_disjoint)
  moreover have "card ((A \<inter> V) \<union> (B \<inter> V)) \<le> card V"
    using assms(1) by (intro card_mono) auto
  ultimately show False using assms(2) by simp
qed


section \<open>Intersection\<close>

lemma flat_slice_card:
  assumes "flat q" "distinct (q_Validators q)" "isQuorumSlice q S"
  shows "sliceThreshold (q_Threshold q) (qsize q) \<le> int (card (S \<inter> set (q_Validators q)))"
  using assms by (simp add: isQuorumSlice_iff hits_flat)

lemma flat_qsize:
  "flat q \<Longrightarrow> distinct (q_Validators q) \<Longrightarrow> qsize q = int (card (set (q_Validators q)))"
  by (simp add: qsize_def flat_def distinct_card)

text \<open>
  Quorum intersection inside one quorum: two node sets that both contain a slice of the same
  flat quorum share one of its validators, as soon as the slice threshold is more than half of the
  members.
\<close>

theorem slices_intersect:
  assumes "flat q" "distinct (q_Validators q)"
    and "qsize q < 2 * sliceThreshold (q_Threshold q) (qsize q)"
    and "isQuorumSlice q S" "isQuorumSlice q T"
  shows "S \<inter> T \<inter> set (q_Validators q) \<noteq> {}"
  using flat_slice_card [OF assms(1,2,4)] flat_slice_card [OF assms(1,2,5)]
    flat_qsize [OF assms(1,2)] assms(3)
  by (intro card_overlap) auto

theorem slices_intersect_witness:
  "{''a'', ''b'', ''c''} \<inter> {''b'', ''c'', ''d''}
     \<inter> set (q_Validators (Quorum (Fin (3/4)) [''a'', ''b'', ''c'', ''d''] [])) \<noteq> {}"
  by (rule slices_intersect)
    (simp_all add: flat_def qsize_def isQuorumSlice_def sliceThreshold_def f64_eval)

text \<open>
  A v-blocking set meets every slice of a flat quorum, as soon as the two thresholds together
  are more than the number of members.
\<close>

theorem vblocking_meets_slice:
  assumes "flat q" "distinct (q_Validators q)"
    and "1 \<le> vblockThreshold (q_Threshold q) (qsize q)"
    and "qsize q < vblockThreshold (q_Threshold q) (qsize q) + sliceThreshold (q_Threshold q) (qsize q)"
    and "isVblocking q S" "isQuorumSlice q T"
  shows "S \<inter> T \<inter> set (q_Validators q) \<noteq> {}"
proof -
  have "vblockThreshold (q_Threshold q) (qsize q) \<le> int (card (S \<inter> set (q_Validators q)))"
    using assms(5) by (simp add: isVblocking_iff [OF assms(3)] hits_flat [OF assms(1,2)])
  then show ?thesis
    using flat_slice_card [OF assms(1,2,6)] flat_qsize [OF assms(1,2)] assms(4)
    by (intro card_overlap) auto
qed

theorem vblocking_meets_slice_witness:
  "{''a'', ''b''} \<inter> {''b'', ''c''}
     \<inter> set (q_Validators (Quorum (Fin (5/8)) [''a'', ''b'', ''c''] [])) \<noteq> {}"
  by (rule vblocking_meets_slice)
    (simp_all add: flat_def qsize_def isQuorumSlice_def sliceThreshold_def vblockThreshold_def
      f64_eval)

text \<open>
  Where the slice threshold takes exactly the members that the v-blocking one leaves, which is
  what the code computes whenever the number of members times the threshold is a whole number, the
  guarantee fails: with four validators and a threshold of one half, two validators are reported
  v-blocking although the two others are a slice without them.
\<close>

theorem vblocking_misses_slice:
  "let q = Quorum (Fin (1/2)) [''a'', ''b'', ''c'', ''d''] []
   in ValidateQuorum q 0 True = Inr () \<and> isVblocking q {''a'', ''b''}
      \<and> isQuorumSlice q {''c'', ''d''} \<and> {''a'', ''b''} \<inter> {''c'', ''d''} = {}"
  by (simp add: qsize_def isQuorumSlice_def sliceThreshold_def vblockThreshold_def f64_eval f64_le_def
      f64_eq_def)

text \<open>
  With a threshold of exactly one the v-blocking countdown starts at zero: the answer is
  whether the first member is missing from the set.  In particular the empty set is v-blocking.
\<close>

theorem isVblocking_full_threshold:
  assumes "q_Threshold q = Fin 1" "qsize q < 2 ^ 53"
  shows "isVblocking q S \<longleftrightarrow> members_in q S \<noteq> [] \<and> \<not> hd (members_in q S)"
  using assms vblockThreshold_one [of "qsize q"]
  by (simp add: isVblocking_loop vblocking_loop_zero qsize_def)

theorem isVblocking_full_threshold_witness:
  "isVblocking (Quorum (Fin 1) [''a'', ''b''] []) {} \<and>
   \<not> isVblocking (Quorum (Fin 1) [''a'', ''b''] []) {''a'', ''b''}"
  using isVblocking_full_threshold [of "Quorum (Fin 1) [''a'', ''b''] []"]
  by (simp add: members_in_def qsize_def del: isVblocking.simps)

text \<open>
  Adding nodes to a set keeps the slices it contains, when no nested quorum counts down from
  zero.
\<close>

theorem isQuorumSlice_monotone:
  assumes "nests_sound q" "S \<subseteq> T" "isQuorumSlice q S"
  shows "isQuorumSlice q T"
  using assms by (rule isQuorumSlice_mono)

theorem isQuorumSlice_monotone_witness:
  "isQuorumSlice (Quorum (Fin (1/2)) [''a'', ''b''] [Quorum (Fin (1/2)) [''c'', ''d''] []])
     {''a'', ''c'', ''d''}"
  by (rule isQuorumSlice_monotone [where S = "{''a'', ''c''}"])
    (simp_all add: nests_sound_def qsize_def isQuorumSlice_def sliceThreshold_def vblockThreshold_def
      f64_eval)


section \<open>What validation admits\<close>

fun depth_of :: "quorum \<Rightarrow> int" where
  "depth_of (Quorum t vs ns) = fold (\<lambda>n d. max d (depth_of n + 1)) ns 0"

fun subquorums :: "quorum \<Rightarrow> quorum list" where
  "subquorums (Quorum t vs ns) = Quorum t vs ns # concat (map subquorums ns)"

definition sane_threshold :: "bool \<Rightarrow> f64 \<Rightarrow> bool" where
  "sane_threshold extra t \<longleftrightarrow>
     \<not> f64_le t (Fin 0) \<and> \<not> f64_less (Fin 1) t \<and> (extra \<longrightarrow> \<not> f64_less t (f64_sub (Fin 1) t))"

lemma dup_loop_iff: "dup_loop seen vs \<longleftrightarrow> \<not> distinct vs \<or> set vs \<inter> seen \<noteq> {}"
  by (induction vs arbitrary: seen) auto

lemma fold_bindR_ok:
  "fold (\<lambda>q r. bindR r (\<lambda>_. f q)) ns r = Inr () \<longleftrightarrow> r = Inr () \<and> (\<forall>n \<in> set ns. f n = Inr ())"
  by (induction ns arbitrary: r) (auto simp: bindR_eq_Inr)

lemma fold_max_le:
  "fold (\<lambda>n d. max d (f n + 1)) ns (k::int) \<le> b \<longleftrightarrow> k \<le> b \<and> (\<forall>n \<in> set ns. f n + 1 \<le> b)"
  by (induction ns arbitrary: k) auto

lemma depth_of_le: "depth_of (Quorum t vs ns) \<le> b \<longleftrightarrow> 0 \<le> b \<and> (\<forall>n \<in> set ns. depth_of n + 1 \<le> b)"
  by (simp add: fold_max_le)

lemma ValidateQuorum_iff:
  "ValidateQuorum q d extra = Inr () \<longleftrightarrow>
     d + depth_of q \<le> 2 \<and>
     (\<forall>s \<in> set (subquorums q). sane_threshold extra (q_Threshold s) \<and> distinct (q_Validators s))"
proof (induction q arbitrary: d)
  case (Quorum t vs ns)
  have "ValidateQuorum (Quorum t vs ns) d extra = Inr () \<longleftrightarrow>
      d \<le> 2 \<and> sane_threshold extra t \<and> distinct vs \<and>
      (\<forall>n \<in> set ns. ValidateQuorum n (d + 1) extra = Inr ())"
    by (auto simp: fold_bindR_ok dup_loop_iff sane_threshold_def)
  moreover have "d + depth_of (Quorum t vs ns) \<le> 2 \<longleftrightarrow> d \<le> 2 \<and> (\<forall>n \<in> set ns. d + 1 + depth_of n \<le> 2)"
    using depth_of_le [of t vs ns "2 - d"] by (auto simp: algebra_simps)
  ultimately show ?case using Quorum.IH by (auto simp del: depth_of.simps ValidateQuorum.simps)
qed

text \<open>
  Validation accepts exactly the quorums nested at most two levels below the level it starts
  at whose every level has a threshold in range and no validator twice.
\<close>

theorem ValidateQuorum_ok_iff:
  "ValidateQuorum q d extra = Inr () \<longleftrightarrow>
     d + depth_of q \<le> 2 \<and>
     list_all (\<lambda>s. sane_threshold extra (q_Threshold s) \<and> distinct (q_Validators s)) (subquorums q)"
  by (simp add: ValidateQuorum_iff list_all_iff)


section \<open>The normal form\<close>

interpretation strs: sort_order "(\<le>) :: string \<Rightarrow> string \<Rightarrow> bool" "(<)"
  by unfold_locales auto

lemma sorted_sort_Strings: "sorted_wrt (\<le>) (sort_Strings xs)"
  by (simp add: sort_Strings_def strs.sorted_go_sort)

lemma mset_concat_map: "mset xs = mset ys \<Longrightarrow> mset (concat (map f xs)) = mset (concat (map f ys))"
proof -
  have "mset (concat (map f zs)) = (\<Sum>x\<in>#mset zs. mset (f x))" for zs
    by (induction zs) auto
  then show "mset xs = mset ys \<Longrightarrow> ?thesis" by metis
qed

lemma mset_nodes_sortQuorum: "mset (getQuorumNodes (sortQuorum q)) = mset (getQuorumNodes q)"
proof (induction q)
  case (Quorum t vs ns)
  have "mset (concat (map getQuorumNodes (go_sort QuorumSlice_Less (map sortQuorum ns))))
      = mset (concat (map getQuorumNodes (map sortQuorum ns)))"
    by (rule mset_concat_map) simp
  also have "\<dots> = mset (concat (map getQuorumNodes ns))"
    using Quorum by (induction ns) auto
  finally show ?case by (simp add: sort_Strings_def)
qed

lemma others_simplifyQuorum:
  "filter (\<lambda>v. v \<noteq> self) (getQuorumNodes (simplifyQuorum q self)) =
   filter (\<lambda>v. v \<noteq> self) (getQuorumNodes q)"
proof (induction q)
  case (Quorum t vs ns)
  have "filter (\<lambda>v. v \<noteq> self) (concat (map (getQuorumNodes \<circ> (\<lambda>q. simplifyQuorum q self)) ns))
      = filter (\<lambda>v. v \<noteq> self) (concat (map getQuorumNodes ns))"
    using Quorum by (induction ns) auto
  then show ?case by (cases ns) (auto simp: o_def)
qed

text \<open>
  Normalising a quorum for a node loses and invents no other node: apart from the node itself
  the same nodes are listed, equally often, and the validators of the outer level come out sorted.
\<close>

theorem normalizeQuorum_keeps_others:
  "filter_mset (\<lambda>v. v \<noteq> self) (mset (getQuorumNodes (normalizeQuorum q self))) =
   filter_mset (\<lambda>v. v \<noteq> self) (mset (getQuorumNodes q))
   \<and> sorted_wrt (\<le>) (q_Validators (normalizeQuorum q self))"
proof
  show "filter_mset (\<lambda>v. v \<noteq> self) (mset (getQuorumNodes (normalizeQuorum q self))) =
        filter_mset (\<lambda>v. v \<noteq> self) (mset (getQuorumNodes q))"
    using others_simplifyQuorum [of self q]
    by (simp add: normalizeQuorum_def mset_nodes_sortQuorum flip: mset_filter)
  show "sorted_wrt (\<le>) (q_Validators (normalizeQuorum q self))"
    by (cases "simplifyQuorum q self") (simp add: normalizeQuorum_def sorted_sort_Strings)
qed

text \<open>
  The node itself is dropped from every level that is not flattened, but not from a nested quorum
  that replaces its parent.
\<close>

lemma simplifyQuorum_keeps_self:
  "simplifyQuorum (Quorum (Fin 1) [] [Quorum (Fin (1/2)) [''me'', ''you''] []]) ''me''
     = Quorum (Fin (1/2)) [''me'', ''you''] []"
  by (simp add: f64_eq_def)

lemma compareStrings_refl [simp]: "compareStrings vs vs = 0"
  by (induction vs) (auto simp: Let_def)

text \<open>Two quorums that differ in their validators only compare as equal.\<close>

lemma compareQuorum_ignores_validators:
  "compareQuorum (Quorum t1 vs1 ns1) (Quorum t2 vs2 ns2)
     = compareQuorum (Quorum t1 ws1 ns1) (Quorum t2 ws2 ns2)"
  by simp

end
