(* ===== verification/Ballot.thy ===== *)
theory Ballot
  imports Quorum "HOL-Library.AList"
begin

text \<open>
  Ballots and statements: \<open>ultpb/consensus.proto\<close>, the comparisons of \<open>consensus/util.go\<close>, the
  sorter of \<open>consensus/sorter.go\<close> and the vote and accept filters of \<open>consensus/filter.go\<close>.

  A statement type has exactly the statements whose tag names their payload and which carry a
  working ballot.  A statement from the network with another payload than its tag, or without a
  ballot, makes the first handler that looks at it dereference nil; such a statement is not in the
  types below, and the default branches that call \<open>log.Fatal\<close> on an unknown tag are not reachable
  from them.
\<close>


section \<open>Data\<close>

datatype ballot = Ballot (Counter: "32 word") (Value: string)

definition zero_ballot :: ballot where
  "zero_ballot = Ballot 0 []"

text \<open>
  The payloads refer to ballots.  The parameter is what stands for a ballot: a ballot itself where
  the values matter, and an address of the decree's heap where its pointers matter.
\<close>

datatype 'b payload =
    Prepare (pl_B: 'b) (pl_Q: "'b option") (pl_P: "'b option") (pl_HC: "32 word") (pl_LC: "32 word")
      (pl_QuorumHash: string)
  | Confirm (pl_B: 'b) (pl_PC: "32 word") (pl_LC: "32 word") (pl_HC: "32 word") (pl_QuorumHash: string)
  | Externalize (pl_B: 'b) (pl_HC: "32 word") (pl_QuorumHash: string)

datatype 'b bstmt = BStmt (s_NodeID: string) (s_Index: "64 word") (s_Stmt: "'b payload")

datatype nominate =
  Nominate (VoteList: "string list") (AcceptList: "string list") (n_QuorumHash: string)

datatype nstmt = NStmt (ns_NodeID: string) (ns_Index: "64 word") (ns_Stmt: nominate)

type_synonym vstmt = "ballot bstmt"

fun stmt_type :: "'b payload \<Rightarrow> nat" where
  "stmt_type (Prepare _ _ _ _ _ _) = 1"
| "stmt_type (Confirm _ _ _ _ _) = 2"
| "stmt_type (Externalize _ _ _) = 3"


abbreviation MaxUint32 :: "32 word" where
  "MaxUint32 \<equiv> - 1"


section \<open>Comparison\<close>

fun compareBallots :: "ballot option \<Rightarrow> ballot option \<Rightarrow> int" where
  "compareBallots None None = 0"
| "compareBallots None (Some _) = -1"
| "compareBallots (Some _) None = 1"
| "compareBallots (Some lb) (Some rb) =
     (if Counter lb < Counter rb then -1
      else if Counter rb < Counter lb then 1
      else strings_Compare (Value lb) (Value rb))"

fun compatibleBallots :: "ballot option \<Rightarrow> ballot option \<Rightarrow> bool" where
  "compatibleBallots (Some lb) (Some rb) \<longleftrightarrow> strings_Compare (Value lb) (Value rb) = 0"
| "compatibleBallots _ _ \<longleftrightarrow> False"

definition lessAndCompatibleBallots :: "ballot option \<Rightarrow> ballot option \<Rightarrow> bool" where
  "lessAndCompatibleBallots lb rb \<longleftrightarrow> compareBallots lb rb \<le> 0 \<and> compatibleBallots lb rb"

definition lessAndIncompatibleBallots :: "ballot option \<Rightarrow> ballot option \<Rightarrow> bool" where
  "lessAndIncompatibleBallots lb rb \<longleftrightarrow> compareBallots lb rb \<le> 0 \<and> \<not> compatibleBallots lb rb"

text \<open>\<open>BallotSlice.Less\<close>: descending, and not strict.\<close>

definition BallotSlice_Less :: "ballot \<Rightarrow> ballot \<Rightarrow> bool" where
  "BallotSlice_Less x y \<longleftrightarrow>
     Counter y < Counter x \<or> (Counter x = Counter y \<and> 0 \<le> strings_Compare (Value x) (Value y))"

definition isNewerBallot :: "vstmt \<Rightarrow> vstmt \<Rightarrow> bool" where
  "isNewerBallot lb rb =
     (if stmt_type (s_Stmt lb) \<noteq> stmt_type (s_Stmt rb)
      then stmt_type (s_Stmt lb) < stmt_type (s_Stmt rb)
      else case (s_Stmt lb, s_Stmt rb) of
        (Prepare b q p hc lc qh, Prepare b' q' p' hc' lc' qh') \<Rightarrow>
          (let cmp = compareBallots (Some b) (Some b')
           in if cmp < 0 then True
              else if cmp = 0 then
                (let cmpp = compareBallots p p'
                 in if cmpp < 0 then True
                    else if cmpp = 0 then
                      (let cmpq = compareBallots q q'
                       in if cmpq < 0 then True else if cmpq = 0 then hc < hc' else False)
                    else False)
              else False)
      | (Confirm b pc lc hc qh, Confirm b' pc' lc' hc' qh') \<Rightarrow>
          (let cmp = compareBallots (Some b) (Some b')
           in if cmp < 0 then True
              else if cmp = 0 then (if pc = pc' then hc < hc' else pc < pc')
              else False)
      | _ \<Rightarrow> False)"

text \<open>The length test comes first: a list with repetitions can be longer than a larger set.\<close>

definition isProperSubset :: "string list \<Rightarrow> string list \<Rightarrow> bool" where
  "isProperSubset a b = (if length a > length b then False else set a \<subset> set b)"

definition isNewerNomination :: "nominate option \<Rightarrow> nominate \<Rightarrow> bool" where
  "isNewerNomination anom bnom =
     (case anom of
        None \<Rightarrow> True
      | Some a \<Rightarrow> isProperSubset (VoteList a) (VoteList bnom)
                 \<or> isProperSubset (AcceptList a) (AcceptList bnom))"

definition getWorkingBallot :: "vstmt \<Rightarrow> ballot" where
  "getWorkingBallot stmt =
     (case s_Stmt stmt of
        Prepare b _ _ _ _ _ \<Rightarrow> b
      | Confirm b _ lc _ _ \<Rightarrow> Ballot lc (Value b)
      | Externalize b _ _ \<Rightarrow> b)"


section \<open>Filters\<close>

definition voteFilter :: "string \<Rightarrow> nominate \<Rightarrow> bool" where
  "voteFilter vote nom = list_ex (\<lambda>v. strings_Compare vote v = 0) (VoteList nom)"

definition acceptFilter :: "string \<Rightarrow> nominate \<Rightarrow> bool" where
  "acceptFilter vote nom = list_ex (\<lambda>v. strings_Compare vote v = 0) (AcceptList nom)"

definition prepareVoteFilter :: "ballot \<Rightarrow> vstmt \<Rightarrow> bool" where
  "prepareVoteFilter b stmt =
     (case s_Stmt stmt of
        Prepare pb _ _ _ _ _ \<Rightarrow> lessAndCompatibleBallots (Some b) (Some pb)
      | Confirm cb _ _ _ _ \<Rightarrow> compatibleBallots (Some b) (Some cb)
      | Externalize eb _ _ \<Rightarrow> compatibleBallots (Some b) (Some eb))"

definition prepareAcceptFilter :: "ballot \<Rightarrow> vstmt \<Rightarrow> bool" where
  "prepareAcceptFilter b stmt =
     (case s_Stmt stmt of
        Prepare _ q p _ _ _ \<Rightarrow>
          (p \<noteq> None \<and> lessAndCompatibleBallots (Some b) p)
          \<or> (q \<noteq> None \<and> lessAndCompatibleBallots (Some b) q)
      | Confirm cb pc _ _ _ \<Rightarrow> lessAndCompatibleBallots (Some b) (Some (Ballot pc (Value cb)))
      | Externalize eb _ _ \<Rightarrow> compatibleBallots (Some b) (Some eb))"

definition commitVoteFilter :: "ballot \<Rightarrow> 32 word \<Rightarrow> 32 word \<Rightarrow> vstmt \<Rightarrow> bool" where
  "commitVoteFilter b l r stmt =
     (case s_Stmt stmt of
        Prepare pb _ _ hc lc _ \<Rightarrow>
          compatibleBallots (Some b) (Some pb) \<and> lc \<noteq> 0 \<and> lc \<le> l \<and> r \<le> hc
      | Confirm cb _ lc _ _ \<Rightarrow> compatibleBallots (Some b) (Some cb) \<and> lc \<le> l
      | Externalize eb _ _ \<Rightarrow> compatibleBallots (Some b) (Some eb) \<and> Counter eb \<le> l)"

definition commitAcceptFilter :: "ballot \<Rightarrow> 32 word \<Rightarrow> 32 word \<Rightarrow> vstmt \<Rightarrow> bool" where
  "commitAcceptFilter b l r stmt =
     (case s_Stmt stmt of
        Prepare _ _ _ _ _ _ \<Rightarrow> False
      | Confirm cb _ lc hc _ \<Rightarrow> compatibleBallots (Some b) (Some cb) \<and> lc \<le> l \<and> r \<le> hc
      | Externalize eb _ _ \<Rightarrow> compatibleBallots (Some b) (Some eb) \<and> Counter eb \<le> l)"


section \<open>Counters of a commit\<close>

definition commit_counters_of :: "ballot \<Rightarrow> vstmt \<Rightarrow> 32 word list" where
  "commit_counters_of b s =
     (case s_Stmt s of
        Prepare pb _ _ hc lc _ \<Rightarrow>
          if compatibleBallots (Some b) (Some pb) \<and> 0 < lc then [lc, hc] else []
      | Confirm cb _ lc hc _ \<Rightarrow> if compatibleBallots (Some b) (Some cb) then [lc, hc] else []
      | Externalize eb hc _ \<Rightarrow>
          if compatibleBallots (Some b) (Some eb) then [Counter eb, hc, MaxUint32] else [])"

text \<open>The set of counters as a list in descending order.\<close>

definition getCommitCounters :: "ballot \<Rightarrow> vstmt list \<Rightarrow> 32 word list" where
  "getCommitCounters b stmts = rev (sort (remdups (concat (map (commit_counters_of b) stmts))))"

fun findCommitInterval_loop ::
  "32 word list \<Rightarrow> (32 word \<Rightarrow> 32 word \<Rightarrow> bool res) \<Rightarrow> 32 word \<Rightarrow> 32 word
     \<Rightarrow> (32 word \<times> 32 word) res" where
  "findCommitInterval_loop [] flt lb rb = Inr (lb, rb)"
| "findCommitInterval_loop (c # cs) flt lb rb =
     (if lb \<noteq> 0 \<and> c > rb then findCommitInterval_loop cs flt lb rb
      else let l = c; r = (if lb = 0 then c else rb)
           in case flt l r of
                Inl f \<Rightarrow> Inl f
              | Inr ok \<Rightarrow>
                  (if ok then findCommitInterval_loop cs flt l r
                   else if lb \<noteq> 0 then Inr (lb, rb)
                   else findCommitInterval_loop cs flt lb rb))"

definition findCommitInterval ::
  "32 word list \<Rightarrow> (32 word \<Rightarrow> 32 word \<Rightarrow> bool res) \<Rightarrow> (32 word \<times> 32 word) res" where
  "findCommitInterval counters flt = findCommitInterval_loop counters flt 0 0"

text \<open>The ballots a statement proposes as prepared, and those a stored statement adds for one of them.\<close>

definition stmt_ballots :: "vstmt \<Rightarrow> ballot list" where
  "stmt_ballots stmt =
     (case s_Stmt stmt of
        Prepare b q p _ _ _ \<Rightarrow> [b] @ (case p of None \<Rightarrow> [] | Some x \<Rightarrow> [x])
                                   @ (case q of None \<Rightarrow> [] | Some x \<Rightarrow> [x])
      | Confirm b pc _ _ _ \<Rightarrow> [Ballot pc (Value b), Ballot MaxUint32 (Value b)]
      | Externalize b _ _ \<Rightarrow> [Ballot MaxUint32 (Value b)])"

definition ballots_below :: "ballot \<Rightarrow> vstmt \<Rightarrow> ballot list" where
  "ballots_below b stmt =
     (case s_Stmt stmt of
        Prepare pb q p _ _ _ \<Rightarrow>
          (if lessAndCompatibleBallots (Some pb) (Some b) then [pb] else [])
          @ (case p of Some x \<Rightarrow> if lessAndCompatibleBallots p (Some b) then [x] else [] | None \<Rightarrow> [])
          @ (case q of Some x \<Rightarrow> if lessAndCompatibleBallots q (Some b) then [x] else [] | None \<Rightarrow> [])
      | Confirm cb pc _ _ _ \<Rightarrow>
          if compatibleBallots (Some cb) (Some b)
          then [b] @ (if pc < Counter b then [Ballot pc (Value b)] else []) else []
      | Externalize eb _ _ \<Rightarrow> if compatibleBallots (Some eb) (Some b) then [b] else [])"

definition getPreparedCandidates :: "vstmt \<Rightarrow> vstmt list \<Rightarrow> ballot list" where
  "getPreparedCandidates stmt stmts =
     go_sort BallotSlice_Less
       (remdups (concat (map (\<lambda>b. concat (map (ballots_below b) stmts)) (remdups (stmt_ballots stmt)))))"


section \<open>The comparisons are orders\<close>

text \<open>
  What a three-way comparison of the sources promises: it is zero on equal arguments only, it
  changes sign with its arguments, and it is transitive.
\<close>

locale comparator =
  fixes cmp :: "'a \<Rightarrow> 'a \<Rightarrow> int"
  assumes cmp_eq0: "cmp x y = 0 \<longleftrightarrow> x = y"
    and cmp_swap: "0 < cmp x y \<longleftrightarrow> cmp y x < 0"
    and cmp_trans: "cmp x y \<le> 0 \<Longrightarrow> cmp y z \<le> 0 \<Longrightarrow> cmp x z \<le> 0"
begin

lemma cmp_refl [simp]: "cmp x x = 0"
  by (simp add: cmp_eq0)

lemma cmp_le_total: "cmp x y \<le> 0 \<or> cmp y x \<le> 0"
  using cmp_swap [of x y] by linarith

lemma cmp_le_antisym: "cmp x y \<le> 0 \<Longrightarrow> cmp y x \<le> 0 \<Longrightarrow> x = y"
  using cmp_swap [of y x] cmp_eq0 [of x y] by linarith

lemma cmp_less_iff: "cmp x y < 0 \<longleftrightarrow> cmp x y \<le> 0 \<and> x \<noteq> y"
  using cmp_eq0 [of x y] by linarith

lemma cmp_less_trans: "cmp x y < 0 \<Longrightarrow> cmp y z < 0 \<Longrightarrow> cmp x z < 0"
  using cmp_trans [of x y z] cmp_le_antisym [of x y] by (auto simp: cmp_less_iff)

lemma cmp_less_le_trans: "cmp x y < 0 \<Longrightarrow> cmp y z \<le> 0 \<Longrightarrow> cmp x z < 0"
  using cmp_trans [of x y z] cmp_le_antisym [of x y] by (auto simp: cmp_less_iff)

end

sublocale comparator \<subseteq> asc: sort_order "\<lambda>x y. cmp x y \<le> 0" "\<lambda>x y. cmp x y < 0"
proof
  fix x y z
  show "cmp x y \<le> 0 \<or> cmp y x \<le> 0" by (rule cmp_le_total)
  show "cmp x y \<le> 0 \<Longrightarrow> cmp y z \<le> 0 \<Longrightarrow> cmp x z \<le> 0" by (rule cmp_trans)
  show "cmp x y < 0 \<Longrightarrow> cmp x y \<le> 0" by simp
  show "\<not> cmp x y < 0 \<Longrightarrow> cmp y x \<le> 0" using cmp_swap [of y x] by linarith
qed

interpretation strc: comparator strings_Compare
  by unfold_locales (auto dest: order_trans)

lemma compareBallots_le0:
  "compareBallots (Some x) (Some y) \<le> 0 \<longleftrightarrow>
     Counter x < Counter y \<or> Counter x = Counter y \<and> Value x \<le> Value y"
  by auto

interpretation bcmp: comparator compareBallots
proof
  fix x y z
  show "compareBallots x y = 0 \<longleftrightarrow> x = y"
    by (cases x; cases y) (auto intro: ballot.expand)
  show "0 < compareBallots x y \<longleftrightarrow> compareBallots y x < 0"
    by (cases x; cases y) auto
  show "compareBallots x y \<le> 0 \<Longrightarrow> compareBallots y z \<le> 0 \<Longrightarrow> compareBallots x z \<le> 0"
    by (cases x; cases y; cases z) (auto split: if_splits)
qed

interpretation bdesc: sort_order "\<lambda>x y. compareBallots (Some y) (Some x) \<le> 0" BallotSlice_Less
proof
  fix x y z
  show "compareBallots (Some y) (Some x) \<le> 0 \<or> compareBallots (Some x) (Some y) \<le> 0"
    using bcmp.cmp_le_total by blast
  show "compareBallots (Some y) (Some x) \<le> 0 \<Longrightarrow> compareBallots (Some z) (Some y) \<le> 0
      \<Longrightarrow> compareBallots (Some z) (Some x) \<le> 0"
    using bcmp.cmp_trans by blast
  show "BallotSlice_Less x y \<Longrightarrow> compareBallots (Some y) (Some x) \<le> 0"
    by (auto simp: BallotSlice_Less_def compareBallots_le0)
  show "\<not> BallotSlice_Less x y \<Longrightarrow> compareBallots (Some x) (Some y) \<le> 0"
    by (auto simp: BallotSlice_Less_def compareBallots_le0 not_less le_less)
qed

lemma sorted_getPreparedCandidates:
  "sorted_wrt (\<lambda>x y. compareBallots (Some y) (Some x) \<le> 0) (getPreparedCandidates stmt stmts)"
  unfolding getPreparedCandidates_def by (rule bdesc.sorted_go_sort)

lemma set_getPreparedCandidates:
  "set (getPreparedCandidates stmt stmts) =
     (\<Union>b \<in> set (stmt_ballots stmt). \<Union>s \<in> set stmts. set (ballots_below b s))"
  by (simp add: getPreparedCandidates_def)

lemma compatible_sym: "compatibleBallots x y \<longleftrightarrow> compatibleBallots y x"
  by (cases x; cases y) auto

lemma compatible_trans: "compatibleBallots x y \<Longrightarrow> compatibleBallots y z \<Longrightarrow> compatibleBallots x z"
  by (cases x; cases y; cases z) auto

lemma lac_trans:
  "lessAndCompatibleBallots x y \<Longrightarrow> lessAndCompatibleBallots y z \<Longrightarrow> lessAndCompatibleBallots x z"
  unfolding lessAndCompatibleBallots_def using bcmp.cmp_trans compatible_trans by blast


section \<open>Statements\<close>

text \<open>The part of a statement that the order looks at.\<close>

lemma isNewerBallot_irrefl: "\<not> isNewerBallot s s"
  by (cases "s_Stmt s") (auto simp: isNewerBallot_def Let_def)

lemma newer_lex:
  "(if (c::int) < 0 then True else if c = 0 then P else False) \<longleftrightarrow> c < 0 \<or> c = 0 \<and> P"
  by auto

lemma isNewerBallot_Prepare:
  "isNewerBallot (BStmt n i (Prepare b q p hc lc qh)) (BStmt n' i' (Prepare b' q' p' hc' lc' qh')) \<longleftrightarrow>
     compareBallots (Some b) (Some b') < 0 \<or> b = b' \<and>
       (compareBallots p p' < 0 \<or> p = p' \<and>
         (compareBallots q q' < 0 \<or> q = q' \<and> hc < hc'))"
  unfolding isNewerBallot_def Let_def bstmt.sel payload.case prod.case newer_lex
  by (auto simp: bcmp.cmp_eq0 simp del: compareBallots.simps)

lemma isNewerBallot_Confirm:
  "isNewerBallot (BStmt n i (Confirm b pc lc hc qh)) (BStmt n' i' (Confirm b' pc' lc' hc' qh')) \<longleftrightarrow>
     compareBallots (Some b) (Some b') < 0 \<or> b = b' \<and> (pc < pc' \<or> pc = pc' \<and> hc < hc')"
  unfolding isNewerBallot_def Let_def bstmt.sel payload.case prod.case newer_lex
  by (auto simp: bcmp.cmp_eq0 simp del: compareBallots.simps)

lemma isNewerBallot_trans:
  assumes "isNewerBallot r s" "isNewerBallot s t"
  shows "isNewerBallot r t"
proof (cases "stmt_type (s_Stmt r) = stmt_type (s_Stmt s) \<and> stmt_type (s_Stmt s) = stmt_type (s_Stmt t)")
  case False
  have "stmt_type (s_Stmt r) \<le> stmt_type (s_Stmt s)" "stmt_type (s_Stmt s) \<le> stmt_type (s_Stmt t)"
    using assms by (auto simp: isNewerBallot_def split: if_splits)
  with False have "stmt_type (s_Stmt r) < stmt_type (s_Stmt t)" by linarith
  then show ?thesis by (simp add: isNewerBallot_def)
next
  case True
  obtain n i pr n' i' ps n'' i'' pt where e: "r = BStmt n i pr" "s = BStmt n' i' ps" "t = BStmt n'' i'' pt"
    by (cases r; cases s; cases t)
  show ?thesis
  proof (cases pr)
    case (Prepare b q p hc lc qh)
    with True e obtain b' q' p' hc' lc' qh' b'' q'' p'' hc'' lc'' qh''
      where s: "ps = payload.Prepare b' q' p' hc' lc' qh'" "pt = payload.Prepare b'' q'' p'' hc'' lc'' qh''"
      by (cases ps; cases pt) auto
    show ?thesis using assms unfolding e Prepare s isNewerBallot_Prepare
      by (auto intro: bcmp.cmp_less_trans simp del: compareBallots.simps)
  next
    case (Confirm b pc lc hc qh)
    with True e obtain b' pc' lc' hc' qh' b'' pc'' lc'' hc'' qh''
      where s: "ps = payload.Confirm b' pc' lc' hc' qh'" "pt = payload.Confirm b'' pc'' lc'' hc'' qh''"
      by (cases ps; cases pt) auto
    show ?thesis using assms unfolding e Confirm s isNewerBallot_Confirm
      by (auto intro: bcmp.cmp_less_trans simp del: compareBallots.simps)
  next
    case (Externalize b hc qh)
    with True e assms show ?thesis by (cases ps) (auto simp: isNewerBallot_def)
  qed
qed

text \<open>
  The order in which a node's ballot statements replace each other is a strict order: no
  statement is newer than itself, and newer than newer is newer.  So the statements stored for a
  node never come back.
\<close>

theorem isNewerBallot_strict_order:
  "\<not> isNewerBallot s s \<and> (isNewerBallot r s \<and> isNewerBallot s t \<longrightarrow> isNewerBallot r t)
   \<and> \<not> (isNewerBallot r s \<and> isNewerBallot s r)"
  using isNewerBallot_irrefl isNewerBallot_trans by blast


theorem isNewerBallot_strict_order_witness:
  "isNewerBallot (BStmt ''n'' 1 (Prepare (Ballot 1 ''v'') None None 0 0 ''q''))
     (BStmt ''n'' 1 (Externalize (Ballot 1 ''v'') 1 ''q''))"
  using isNewerBallot_strict_order [of
      "BStmt ''n'' 1 (Prepare (Ballot 1 ''v'') None None 0 0 ''q'')"
      "BStmt ''n'' 1 (Confirm (Ballot 1 ''v'') 1 1 1 ''q'')"
      "BStmt ''n'' 1 (Externalize (Ballot 1 ''v'') 1 ''q'')"]
  by (simp add: isNewerBallot_def)

text \<open>
  Nominations have no such order: of two nominations each can count as newer than the other,
  when one has more votes and the other more accepted values.
\<close>

theorem isNewerNomination_not_antisymmetric:
  "let a = Nominate [''x''] [''x''] ''q''; b = Nominate [''x'', ''y''] [] ''q''
   in isNewerNomination (Some a) b \<and> isNewerNomination (Some b) a"
  by (auto simp: isNewerNomination_def isProperSubset_def)


section \<open>The filters\<close>

lemma prepareVoteFilter_down:
  "lessAndCompatibleBallots (Some b') (Some b) \<Longrightarrow> prepareVoteFilter b s \<Longrightarrow> prepareVoteFilter b' s"
  by (cases "s_Stmt s")
    (auto simp: prepareVoteFilter_def intro: lac_trans dest: compatible_trans
      simp: lessAndCompatibleBallots_def simp del: compareBallots.simps intro: bcmp.cmp_trans)

lemma prepareAcceptFilter_down:
  "lessAndCompatibleBallots (Some b') (Some b) \<Longrightarrow> prepareAcceptFilter b s \<Longrightarrow> prepareAcceptFilter b' s"
proof (cases "s_Stmt s")
  case (Externalize eb hc qh)
  assume "lessAndCompatibleBallots (Some b') (Some b)" "prepareAcceptFilter b s"
  with Externalize show ?thesis
    unfolding prepareAcceptFilter_def lessAndCompatibleBallots_def
    by (simp del: compareBallots.simps)
qed (auto simp: prepareAcceptFilter_def intro: lac_trans)

text \<open>
  Preparing is downward closed: a statement that votes for, or accepts, a ballot as prepared
  also does so for every lower ballot of the same value.
\<close>

theorem prepare_filters_downward:
  assumes "lessAndCompatibleBallots (Some b') (Some b)"
  shows "(prepareVoteFilter b s \<longrightarrow> prepareVoteFilter b' s)
    \<and> (prepareAcceptFilter b s \<longrightarrow> prepareAcceptFilter b' s)"
  using assms prepareVoteFilter_down prepareAcceptFilter_down by blast

theorem prepare_filters_downward_witness:
  "prepareVoteFilter (Ballot 1 ''v'') (BStmt ''n'' 1 (Prepare (Ballot 2 ''v'') None None 0 0 ''q''))"
  using prepare_filters_downward [of "Ballot 1 ''v''" "Ballot 2 ''v''"
      "BStmt ''n'' 1 (Prepare (Ballot 2 ''v'') None None 0 0 ''q'')"]
  by (simp add: prepareVoteFilter_def lessAndCompatibleBallots_def)

lemma commitVoteFilter_sub:
  "l \<le> l' \<Longrightarrow> r' \<le> r \<Longrightarrow> commitVoteFilter b l r s \<Longrightarrow> commitVoteFilter b l' r' s"
  by (cases "s_Stmt s") (auto simp: commitVoteFilter_def)

lemma commitAcceptFilter_sub:
  "l \<le> l' \<Longrightarrow> r' \<le> r \<Longrightarrow> commitAcceptFilter b l r s \<Longrightarrow> commitAcceptFilter b l' r' s"
  by (cases "s_Stmt s") (auto simp: commitAcceptFilter_def)


section \<open>The commit interval\<close>

lemma sorted_getCommitCounters: "sorted_wrt (\<ge>) (getCommitCounters b stmts)"
  by (simp add: getCommitCounters_def sorted_wrt_rev)

text \<open>
  What the loop is for: the highest counter that passes alone, and from there the lowest counter
  such that everything down to it passes with that upper end.
\<close>

definition commit_interval_spec :: "32 word list \<Rightarrow> (32 word \<Rightarrow> 32 word \<Rightarrow> bool) \<Rightarrow> 32 word \<times> 32 word" where
  "commit_interval_spec cs flt =
     (case dropWhile (\<lambda>c. \<not> flt c c) cs of
        [] \<Rightarrow> (0, 0)
      | rb # rest \<Rightarrow> (last (rb # takeWhile (\<lambda>c. flt c rb) rest), rb))"

lemma findCommitInterval_loop_extend:
  assumes "lb \<noteq> 0" "\<forall>c \<in> set cs. c \<le> rb \<and> c \<noteq> 0"
  shows "findCommitInterval_loop cs (\<lambda>l r. Inr (flt l r)) lb rb
    = Inr (last (lb # takeWhile (\<lambda>c. flt c rb) cs), rb)"
  using assms by (induction cs arbitrary: lb) auto

lemma findCommitInterval_eq_spec:
  assumes "sorted_wrt (\<ge>) cs" "0 \<notin> set cs"
  shows "findCommitInterval cs (\<lambda>l r. Inr (flt l r)) = Inr (commit_interval_spec cs flt)"
  unfolding findCommitInterval_def using assms
proof (induction cs)
  case Nil
  then show ?case by (simp add: commit_interval_spec_def)
next
  case (Cons c cs)
  then have "\<forall>x \<in> set cs. x \<le> c \<and> x \<noteq> 0" "c \<noteq> 0" by auto
  with Cons show ?case
    by (cases "flt c c") (auto simp: commit_interval_spec_def findCommitInterval_loop_extend)
qed

text \<open>
  C36. On the counters the caller collects, in descending order and without zero, and with a vote
  that does not end the process, the search returns the interval of the specification.
\<close>

theorem findCommitInterval_correct:
  assumes "0 \<notin> set (getCommitCounters b stmts)"
  shows "findCommitInterval (getCommitCounters b stmts) (\<lambda>l r. Inr (flt l r))
       = Inr (commit_interval_spec (getCommitCounters b stmts) flt)"
  using sorted_getCommitCounters assms by (rule findCommitInterval_eq_spec)

theorem findCommitInterval_correct_witness:
  "let stmts = [BStmt ''m'' 1 (Confirm (Ballot 5 ''v'') 5 2 4 ''q''),
                BStmt ''n'' 1 (Confirm (Ballot 5 ''v'') 5 3 5 ''q'')];
       b = Ballot 5 ''v''
   in findCommitInterval (getCommitCounters b stmts) (\<lambda>l r. Inr (\<forall>s \<in> set stmts. commitAcceptFilter b l r s))
        = Inr (3, 4)"
proof -
  let ?s = "[BStmt ''m'' 1 (Confirm (Ballot 5 ''v'') 5 2 4 ''q''),
             BStmt ''n'' 1 (Confirm (Ballot 5 ''v'') 5 3 5 ''q'')]"
  have c: "getCommitCounters (Ballot 5 ''v'') ?s = [5, 4, 3, 2]"
    by (simp add: getCommitCounters_def commit_counters_of_def)
  show ?thesis
    using findCommitInterval_correct [of "Ballot 5 ''v''" ?s]
    by (simp add: c commit_interval_spec_def commitAcceptFilter_def)
qed

lemma commit_interval_spec_sound:
  assumes "commit_interval_spec cs flt = (l, r)" "l \<noteq> 0"
  shows "l \<in> set cs \<and> r \<in> set cs \<and> flt r r \<and> flt l r"
proof (cases "dropWhile (\<lambda>c. \<not> flt c c) cs")
  case Nil
  with assms show ?thesis by (simp add: commit_interval_spec_def)
next
  case (Cons rb rest)
  let ?t = "takeWhile (\<lambda>c. flt c rb) rest"
  from Cons have hd: "flt rb rb" using hd_dropWhile [of "\<lambda>c. \<not> flt c c" cs] by simp
  have sub: "set (rb # rest) \<subseteq> set cs" using Cons by (metis set_dropWhileD subsetI)
  have "set (rb # ?t) \<subseteq> set (rb # rest)" by (auto dest: set_takeWhileD)
  moreover have "\<forall>c \<in> set (rb # ?t). flt c rb" using hd by (auto dest: set_takeWhileD)
  moreover have "last (rb # ?t) \<in> set (rb # ?t)" by (rule last_in_set) simp
  moreover have "l = last (rb # ?t)" "r = rb" using assms(1) Cons by (auto simp: commit_interval_spec_def)
  ultimately show ?thesis
    using hd sub by (metis (no_types, lifting) list.set_intros(1) subsetD)
qed

end
