(* ===== verification/FedVote.thy ===== *)
theory FedVote
  imports Ballot
begin

text \<open>
  Federated voting, from \<open>consensus/decree.go\<close>: accepting and ratifying a statement.  Both take the
  nodes that pass a filter, keep those that have a quorum slice among them, and ask whether the
  local node has a slice among the rest.
\<close>


section \<open>The shrinking loop\<close>

text \<open>
  \<open>quorumOf\<close> is the quorum that the stored statement of a node names (None is the nil quorum of a
  statement with an empty hash).  One pass keeps the nodes with a slice among the current nodes.
\<close>

definition shrink_step :: "(string \<Rightarrow> quorum option) \<Rightarrow> string set \<Rightarrow> string set" where
  "shrink_step quorumOf nodes =
     {n \<in> nodes. case quorumOf n of None \<Rightarrow> False | Some q \<Rightarrow> isQuorumSlice q nodes}"

text \<open>
  The loop of the source: it stops when the nodes equal the set the last pass built.  The first
  argument bounds the number of passes.
\<close>

primrec shrink_loop ::
  "nat \<Rightarrow> (string \<Rightarrow> quorum option) \<Rightarrow> string set \<Rightarrow> string set \<Rightarrow> string set option" where
  "shrink_loop 0 quorumOf nodes subnodes = (if nodes = subnodes then Some nodes else None)"
| "shrink_loop (Suc fuel) quorumOf nodes subnodes =
     (if nodes = subnodes then Some nodes
      else let subnodes' = shrink_step quorumOf nodes
           in shrink_loop fuel quorumOf (nodes \<inter> subnodes') subnodes')"

definition shrink :: "(string \<Rightarrow> quorum option) \<Rightarrow> string set \<Rightarrow> string set" where
  "shrink quorumOf nodes = the (shrink_loop 1 quorumOf nodes {})"


section \<open>Accept and ratify\<close>

text \<open>
  The stored statements are an association list from node identifiers.  \<open>getQuorum\<close> is
  \<open>getStatementQuorum\<close>; it ends the process when the quorum of a hash is not known, and the first
  pass asks it for every node of the set, so any such node is fatal.
\<close>

definition nodes_with :: "('s \<Rightarrow> bool) \<Rightarrow> (string \<times> 's) list \<Rightarrow> string set" where
  "nodes_with flt stmts = set (map fst (filter (\<lambda>(k, s). flt s) stmts))"

definition quorum_of_node ::
  "('s \<Rightarrow> quorum option res) \<Rightarrow> (string \<times> 's) list \<Rightarrow> string \<Rightarrow> quorum option" where
  "quorum_of_node getQuorum stmts n =
     (case map_of stmts n of
        None \<Rightarrow> None
      | Some s \<Rightarrow> (case getQuorum s of Inl _ \<Rightarrow> None | Inr q \<Rightarrow> q))"

definition quorum_missing ::
  "('s \<Rightarrow> quorum option res) \<Rightarrow> (string \<times> 's) list \<Rightarrow> string set \<Rightarrow> bool" where
  "quorum_missing getQuorum stmts nodes = list_ex (\<lambda>(k, s). k \<in> nodes \<and> \<not> isOk (getQuorum s)) stmts"

definition quorum_check ::
  "quorum \<Rightarrow> ('s \<Rightarrow> quorum option res) \<Rightarrow> (string \<times> 's) list \<Rightarrow> string set \<Rightarrow> bool res" where
  "quorum_check quorum getQuorum stmts nodes =
     (if quorum_missing getQuorum stmts nodes then Inl (Fatal ''failed to get quorum of hash'')
      else Inr (isQuorumSlice quorum (shrink (quorum_of_node getQuorum stmts) nodes)))"

definition federatedRatify ::
  "quorum \<Rightarrow> ('s \<Rightarrow> quorum option res) \<Rightarrow> ('s \<Rightarrow> bool) \<Rightarrow> (string \<times> 's) list \<Rightarrow> bool res" where
  "federatedRatify quorum getQuorum flt stmts =
     quorum_check quorum getQuorum stmts (nodes_with flt stmts)"

definition federatedAccept ::
  "quorum \<Rightarrow> ('s \<Rightarrow> quorum option res) \<Rightarrow> ('s \<Rightarrow> bool) \<Rightarrow> ('s \<Rightarrow> bool) \<Rightarrow> (string \<times> 's) list
     \<Rightarrow> bool res" where
  "federatedAccept quorum getQuorum voteFlt acceptFlt stmts =
     (let nodes = nodes_with voteFlt stmts
      in if isVblocking quorum nodes then Inr True
         else quorum_check quorum getQuorum stmts (nodes \<union> nodes_with acceptFlt stmts))"


section \<open>What the loop computes\<close>

lemma shrink_step_sub: "shrink_step qo N \<subseteq> N"
  by (auto simp: shrink_step_def)

text \<open>
  The loop makes one pass.  After it the nodes are the set the pass built, so the test for the
  end succeeds: whatever the bound on the passes, the result is the nodes that have a slice among
  the nodes the loop started from, and not a fixed point of the pass.
\<close>

theorem shrink_loop_one_pass:
  "shrink_loop (Suc fuel) qo N {} = Some (shrink_step qo N)"
proof -
  have "N \<inter> shrink_step qo N = shrink_step qo N" using shrink_step_sub by blast
  then show ?thesis by (cases fuel) (auto simp: Let_def shrink_step_def)
qed

lemma shrink_eq: "shrink qo N = shrink_step qo N"
proof -
  have "N \<inter> shrink_step qo N = shrink_step qo N" using shrink_step_sub by blast
  then show ?thesis by (auto simp: shrink_def Let_def shrink_step_def)
qed

text \<open>
  A set of nodes is a quorum when each of its nodes has a slice inside it.  The largest quorum
  inside a set is what a loop to the fixed point would return.
\<close>

definition is_quorum :: "(string \<Rightarrow> quorum option) \<Rightarrow> string set \<Rightarrow> bool" where
  "is_quorum qo U \<longleftrightarrow> (\<forall>n \<in> U. \<exists>q. qo n = Some q \<and> isQuorumSlice q U)"

definition sound_quorums :: "(string \<Rightarrow> quorum option) \<Rightarrow> string set \<Rightarrow> bool" where
  "sound_quorums qo N \<longleftrightarrow> (\<forall>n \<in> N. \<forall>q. qo n = Some q \<longrightarrow> nests_sound q)"

lemma is_quorum_iff_step: "is_quorum qo U \<longleftrightarrow> shrink_step qo U = U"
  by (auto simp: is_quorum_def shrink_step_def split: option.splits)

lemma quorum_survives:
  assumes "sound_quorums qo U" "is_quorum qo U" "U \<subseteq> N"
  shows "U \<subseteq> shrink_step qo N"
proof
  fix n assume "n \<in> U"
  then obtain q where q: "qo n = Some q" "isQuorumSlice q U" "nests_sound q"
    using assms(1,2) by (auto simp: is_quorum_def sound_quorums_def)
  then have "isQuorumSlice q N" using isQuorumSlice_mono assms(3) by blast
  with \<open>n \<in> U\<close> assms(3) q(1) show "n \<in> shrink_step qo N" by (auto simp: shrink_step_def)
qed

lemma quorum_check_ok:
  "quorum_check q gq stmts N = Inr b \<longleftrightarrow>
     \<not> quorum_missing gq stmts N \<and> b = isQuorumSlice q (shrink_step (quorum_of_node gq stmts) N)"
  by (auto simp: quorum_check_def shrink_eq)

text \<open>
  No quorum is missed: when all nodes of a quorum that contains a slice of the local node have
  made the statement, the statement is ratified.
\<close>

theorem federatedRatify_complete:
  assumes "\<not> quorum_missing gq stmts (nodes_with flt stmts)"
    and "is_quorum (quorum_of_node gq stmts) U" "U \<subseteq> nodes_with flt stmts"
    and "sound_quorums (quorum_of_node gq stmts) U" "nests_sound q" "isQuorumSlice q U"
  shows "federatedRatify q gq flt stmts = Inr True"
proof -
  have "U \<subseteq> shrink_step (quorum_of_node gq stmts) (nodes_with flt stmts)"
    using assms(4,2,3) by (rule quorum_survives)
  then have "isQuorumSlice q (shrink_step (quorum_of_node gq stmts) (nodes_with flt stmts))"
    using assms(5,6) isQuorumSlice_mono by blast
  with assms(1) show ?thesis by (auto simp: federatedRatify_def quorum_check_ok)
qed


lemma pair_slice:
  "isQuorumSlice (Quorum (Fin 1) [x, y] []) S \<longleftrightarrow> x \<in> S \<and> y \<in> S"
  by (simp add: isQuorumSlice_def sliceThreshold_def qsize_def f64_eval)

theorem federatedRatify_complete_witness:
  "let q = Quorum (Fin 1) [''a'', ''b''] [] in
   federatedRatify q (\<lambda>s. Inr (Some s)) (\<lambda>_. True) [(''a'', q), (''b'', q)] = Inr True"
proof -
  let ?q = "Quorum (Fin 1) [''a'', ''b''] []"
  have "federatedRatify ?q (\<lambda>s. Inr (Some s)) (\<lambda>_. True) [(''a'', ?q), (''b'', ?q)] = Inr True"
  proof (rule federatedRatify_complete [where U = "{''a'', ''b''}"])
    show "is_quorum (quorum_of_node (\<lambda>s. Inr (Some s)) [(''a'', ?q), (''b'', ?q)]) {''a'', ''b''}"
      by (simp add: is_quorum_def quorum_of_node_def pair_slice)
    show "sound_quorums (quorum_of_node (\<lambda>s. Inr (Some s)) [(''a'', ?q), (''b'', ?q)]) {''a'', ''b''}"
      by (auto simp: sound_quorums_def quorum_of_node_def nests_sound_def)
  qed (simp_all add: nodes_with_def quorum_missing_def pair_slice nests_sound_def)
  then show ?thesis by simp
qed

text \<open>
  C32. One pass is not enough: a statement is ratified although no quorum stands behind it.  Here
  the local node trusts a and b; a has a slice with b, b has one with c, but c trusts a node that
  made no statement.  No quorum among the three contains a slice of the local node.
\<close>

theorem federatedRatify_without_quorum:
  "let local = Quorum (Fin 1) [''a'', ''b''] [];
       stmts = [(''a'', Quorum (Fin 1) [''a'', ''b''] []), (''b'', Quorum (Fin 1) [''b'', ''c''] []),
                (''c'', Quorum (Fin 1) [''c'', ''d''] [])];
       gq = (\<lambda>s. Inr (Some s))
   in federatedRatify local gq (\<lambda>_. True) stmts = Inr True
      \<and> \<not> (\<exists>U. U \<subseteq> nodes_with (\<lambda>_. True) stmts \<and> is_quorum (quorum_of_node gq stmts) U
              \<and> isQuorumSlice local U)"
proof -
  let ?stmts = "[(''a'', Quorum (Fin 1) [''a'', ''b''] []), (''b'', Quorum (Fin 1) [''b'', ''c''] []),
                (''c'', Quorum (Fin 1) [''c'', ''d''] [])]"
  let ?gq = "\<lambda>s. Inr (Some s) :: quorum option res"
  let ?local = "Quorum (Fin 1) [''a'', ''b''] []"
  have n: "nodes_with (\<lambda>_. True) ?stmts = {''a'', ''b'', ''c''}"
    by (simp add: nodes_with_def insert_commute)
  have qb: "quorum_of_node ?gq ?stmts ''b'' = Some (Quorum (Fin 1) [''b'', ''c''] [])"
    and qc: "quorum_of_node ?gq ?stmts ''c'' = Some (Quorum (Fin 1) [''c'', ''d''] [])"
    and qa: "quorum_of_node ?gq ?stmts ''a'' = Some ?local"
    by (simp_all add: quorum_of_node_def)
  have "''a'' \<in> shrink_step (quorum_of_node ?gq ?stmts) {''a'', ''b'', ''c''}"
    "''b'' \<in> shrink_step (quorum_of_node ?gq ?stmts) {''a'', ''b'', ''c''}"
    by (simp_all add: shrink_step_def qa qb pair_slice)
  then have "federatedRatify ?local ?gq (\<lambda>_. True) ?stmts = Inr True"
    unfolding federatedRatify_def quorum_check_ok n by (simp add: quorum_missing_def pair_slice)
  moreover have "\<not> isQuorumSlice ?local U"
    if "U \<subseteq> {''a'', ''b'', ''c''}" "is_quorum (quorum_of_node ?gq ?stmts) U" for U
  proof
    assume "isQuorumSlice ?local U"
    then have "''b'' \<in> U" by (simp add: pair_slice)
    then have "''c'' \<in> U" using that(2) qb by (fastforce simp: is_quorum_def pair_slice)
    then have "''d'' \<in> U" using that(2) qc by (fastforce simp: is_quorum_def pair_slice)
    then show False using that(1) by auto
  qed
  ultimately show ?thesis unfolding Let_def n by blast
qed


section \<open>Agreement on a common quorum\<close>

lemma ratified_slice:
  assumes "federatedRatify q gq flt stmts = Inr True" "nests_sound q"
  shows "isQuorumSlice q (nodes_with flt stmts)"
  using assms shrink_step_sub isQuorumSlice_mono unfolding federatedRatify_def quorum_check_ok by blast

text \<open>
  C3. Two nodes that trust the same flat quorum, with a threshold of more than half, cannot ratify
  two statements without a validator that made both: whatever statements the two nodes have
  received, some validator of the quorum is recorded with the one at the first node and with the
  other at the second.
\<close>

theorem ratified_share_validator:
  assumes "flat q" "distinct (q_Validators q)"
    and "qsize q < 2 * sliceThreshold (q_Threshold q) (qsize q)"
    and "federatedRatify q gq flt stmts = Inr True" "federatedRatify q gq' flt' stmts' = Inr True"
  shows "\<exists>v \<in> set (q_Validators q). v \<in> nodes_with flt stmts \<and> v \<in> nodes_with flt' stmts'"
proof -
  have S: "isQuorumSlice q (nodes_with flt stmts)" "isQuorumSlice q (nodes_with flt' stmts')"
    using assms(1,4,5) ratified_slice flat_nests_sound by blast+
  have "nodes_with flt stmts \<inter> nodes_with flt' stmts' \<inter> set (q_Validators q) \<noteq> {}"
    using flat_slice_card [OF assms(1,2) S(1)] flat_slice_card [OF assms(1,2) S(2)]
      flat_qsize [OF assms(1,2)] assms(3)
    by (intro card_overlap) auto
  then show ?thesis by blast
qed

theorem ratified_share_validator_witness:
  "let q = Quorum (Fin 1) [''a'', ''b''] [] in
   \<exists>v \<in> set (q_Validators q). v \<in> nodes_with (\<lambda>_. True) [(''a'', q), (''b'', q)]
     \<and> v \<in> nodes_with (\<lambda>_. True) [(''b'', q), (''a'', q)]"
proof -
  let ?q = "Quorum (Fin 1) [''a'', ''b''] []"
  have r: "federatedRatify ?q (\<lambda>s. Inr (Some s)) (\<lambda>_. True) st = Inr True"
    if "st \<in> {[(''a'', ?q), (''b'', ?q)], [(''b'', ?q), (''a'', ?q)]}" for st
    using that by (auto simp: federatedRatify_def quorum_check_ok quorum_missing_def nodes_with_def
        shrink_step_def quorum_of_node_def pair_slice)
  have "\<exists>v \<in> set (q_Validators ?q). v \<in> nodes_with (\<lambda>_. True) [(''a'', ?q), (''b'', ?q)]
      \<and> v \<in> nodes_with (\<lambda>_. True) [(''b'', ?q), (''a'', ?q)]"
    by (rule ratified_share_validator [of _ "\<lambda>s. Inr (Some s)" _ _ "\<lambda>s. Inr (Some s)"], unfold flat_def)
      (simp_all add: r qsize_def sliceThreshold_def f64_eval)
  then show ?thesis by simp
qed

text \<open>
  With one quorum for all nodes the single pass is the fixed point: either everyone stays or
  everyone goes.
\<close>

lemma shrink_step_uniform:
  assumes "\<forall>n \<in> N. qo n = Some q"
  shows "shrink_step qo N = (if isQuorumSlice q N then N else {})"
  using assms by (auto simp: shrink_step_def)

lemma uniform_is_quorum:
  assumes "\<forall>n \<in> N. qo n = Some q"
  shows "is_quorum qo (shrink_step qo N)"
  using assms shrink_step_uniform [OF assms] by (auto simp: is_quorum_def)

text \<open>
  When every node names the quorum of the local node, ratification is exact: it holds iff a
  quorum of nodes that made the statement contains a slice of the local node.
\<close>

theorem federatedRatify_uniform:
  assumes "\<forall>n \<in> nodes_with flt stmts. quorum_of_node gq stmts n = Some q"
    and "\<not> quorum_missing gq stmts (nodes_with flt stmts)" "nests_sound q"
  shows "federatedRatify q gq flt stmts = Inr True \<longleftrightarrow>
    (\<exists>U \<subseteq> nodes_with flt stmts. is_quorum (quorum_of_node gq stmts) U \<and> isQuorumSlice q U)"
proof
  assume "federatedRatify q gq flt stmts = Inr True"
  then show "\<exists>U \<subseteq> nodes_with flt stmts. is_quorum (quorum_of_node gq stmts) U \<and> isQuorumSlice q U"
    using uniform_is_quorum [OF assms(1)] shrink_step_sub
    unfolding federatedRatify_def quorum_check_ok by blast
next
  assume "\<exists>U \<subseteq> nodes_with flt stmts. is_quorum (quorum_of_node gq stmts) U \<and> isQuorumSlice q U"
  then obtain U where U: "U \<subseteq> nodes_with flt stmts" "is_quorum (quorum_of_node gq stmts) U"
    "isQuorumSlice q U" by blast
  have "sound_quorums (quorum_of_node gq stmts) U"
    using assms(1,3) U(1) by (auto simp: sound_quorums_def)
  then have "isQuorumSlice q (shrink_step (quorum_of_node gq stmts) (nodes_with flt stmts))"
    using quorum_survives U isQuorumSlice_mono assms(3) by meson
  with assms(2) show "federatedRatify q gq flt stmts = Inr True"
    by (auto simp: federatedRatify_def quorum_check_ok)
qed

theorem federatedRatify_uniform_witness:
  "let q = Quorum (Fin 1) [''a'', ''b''] []; stmts = [(''a'', q)] in
   \<not> (\<exists>U \<subseteq> nodes_with (\<lambda>_. True) stmts.
        is_quorum (quorum_of_node (\<lambda>s. Inr (Some s)) stmts) U \<and> isQuorumSlice q U)"
proof -
  let ?q = "Quorum (Fin 1) [''a'', ''b''] []"
  have "federatedRatify ?q (\<lambda>s. Inr (Some s)) (\<lambda>_. True) [(''a'', ?q)] \<noteq> Inr True"
    by (simp add: federatedRatify_def quorum_check_ok nodes_with_def shrink_step_def
        quorum_of_node_def pair_slice)
  then show ?thesis
    using federatedRatify_uniform [of "\<lambda>_. True" "[(''a'', ?q)]" "\<lambda>s. Inr (Some s)" ?q]
    by (simp add: quorum_of_node_def nodes_with_def quorum_missing_def nests_sound_def)
qed

text \<open>Accepting needs one of two things of the votes.\<close>

lemma federatedAccept_cases:
  assumes "federatedAccept q gq vf af stmts = Inr True" "nests_sound q"
  shows "isVblocking q (nodes_with vf stmts)
    \<or> isQuorumSlice q (nodes_with vf stmts \<union> nodes_with af stmts)"
proof (rule disjCI)
  let ?N = "nodes_with vf stmts \<union> nodes_with af stmts"
  assume "\<not> isQuorumSlice q ?N"
  then have "\<not> isQuorumSlice q (shrink_step (quorum_of_node gq stmts) ?N)"
    using isQuorumSlice_mono [OF assms(2) shrink_step_sub] by blast
  then have "quorum_check q gq stmts ?N \<noteq> Inr True" by (simp add: quorum_check_ok)
  with assms(1) show "isVblocking q (nodes_with vf stmts)"
    unfolding federatedAccept_def Let_def by metis
qed

lemma federatedAccept_vblocking:
  "isVblocking q (nodes_with vf stmts) \<Longrightarrow> federatedAccept q gq vf af stmts = Inr True"
  by (simp add: federatedAccept_def)

end
