(* ===== verification/Decree.thy ===== *)
theory Decree
  imports FedVote Messages
begin

text \<open>
  The ballot protocol of \<open>consensus/decree.go\<close>.  The state of a decree is a record with the fields
  of the source.  Ballots are shared: the statement a node stores for itself points to its current,
  p and q ballots, the commit and the high ballot can be one object, and \<open>Reset\<close> writes through a
  pointer.  The record therefore has a heap of ballots, and a pointer is an address of it.

  \<open>sendBallot\<close>, \<open>recvBallot\<close> and \<open>step\<close> call each other.  Each operation below takes the sending of
  a ballot as an argument; \<open>sendBallot\<close> ties the knot with fuel for the nesting.
\<close>


section \<open>State and environment\<close>

datatype BallotPhase = BallotPhasePrepare | BallotPhaseConfirm | BallotPhaseExternalize

type_synonym bref = nat
type_synonym rstmt = "bref bstmt"

datatype outmsg = OutNomination nstmt | OutBallot rstmt

record decree =
  d_index :: "64 word"
  d_nodeID :: string
  d_quorum :: quorum
  d_quorumHash :: string
  d_prevConsensusValue :: string
  d_votes :: "string set"
  d_accepts :: "string set"
  d_candidates :: "string set"
  d_nominationLeaders :: "string set"
  d_nominations :: "(string \<times> nstmt) list"
  d_nominationRound :: int
  d_nominationStart :: bool
  d_latestNomination :: "nstmt option"
  d_latestComposite :: string
  d_currentPhase :: BallotPhase
  d_currentBallot :: "bref option"
  d_pBallot :: "bref option"
  d_qBallot :: "bref option"
  d_hBallot :: "bref option"
  d_cBallot :: "bref option"
  d_ballots :: "(string \<times> rstmt) list"
  d_latestBallot :: "rstmt option"
  d_nextValue :: string
  d_ballotMsgCount :: int
  d_maxRecursions :: int
  d_maxRenomCount :: int
  d_renomCount :: int
  d_heap :: "ballot list"
  d_statementChan :: "outmsg list"
  d_externalizeChan :: "(64 word \<times> string) list"
  d_timers :: "(string \<times> string) list"

type_synonym 'a dact = "(decree, 'a) act"

text \<open>
  What a decree asks of the rest of the node: the quorum of a hash (the validator; None when it
  is not known), the state of the ledger manager, its transaction sets (None is an error or nil), and
  the two codecs.
\<close>

record denv =
  e_GetQuorum :: "string \<Rightarrow> quorum option"
  e_LedgerSynced :: bool
  e_NextLedgerHeaderSeq :: "64 word"
  e_CurrConsensusValue :: string
  e_GetTxSet :: "string \<Rightarrow> txset option"
  e_b58Decode :: "string \<Rightarrow> string res"
  e_DecodeConsensusValue :: "string \<Rightarrow> consensus_value res"


text \<open>
  \<open>NewDecree\<close>: the fields that must not be empty end the process when they are; the pointers of the
  context are always set in the model.
\<close>

definition NewDecree :: "64 word \<Rightarrow> string \<Rightarrow> quorum \<Rightarrow> string \<Rightarrow> decree res" where
  "NewDecree index nodeID quorum quorumHash =
     (if nodeID = [] then Inl (Fatal ''decree context is invalid: empty node ID'')
      else if quorumHash = [] then Inl (Fatal ''decree context is invalid: initial quorum hash is empty'')
      else Inr \<lparr>d_index = index, d_nodeID = nodeID, d_quorum = quorum, d_quorumHash = quorumHash,
        d_prevConsensusValue = [], d_votes = {}, d_accepts = {}, d_candidates = {},
        d_nominationLeaders = {}, d_nominations = [], d_nominationRound = 0, d_nominationStart = False,
        d_latestNomination = None, d_latestComposite = [], d_currentPhase = BallotPhasePrepare,
        d_currentBallot = None, d_pBallot = None, d_qBallot = None, d_hBallot = None, d_cBallot = None,
        d_ballots = [], d_latestBallot = None, d_nextValue = [], d_ballotMsgCount = 0,
        d_maxRecursions = 10, d_maxRenomCount = 100, d_renomCount = 0, d_heap = [],
        d_statementChan = [], d_externalizeChan = [], d_timers = []\<rparr>)"


section \<open>The heap\<close>

definition deref :: "decree \<Rightarrow> bref \<Rightarrow> ballot" where
  "deref d r = d_heap d ! r"

definition bal :: "decree \<Rightarrow> bref option \<Rightarrow> ballot option" where
  "bal d p = map_option (deref d) p"

definition vst :: "decree \<Rightarrow> rstmt \<Rightarrow> vstmt" where
  "vst d s = map_bstmt (deref d) s"

definition view :: "decree \<Rightarrow> (string \<times> vstmt) list" where
  "view d = map (\<lambda>(k, s). (k, vst d s)) (d_ballots d)"

definition alloc :: "ballot \<Rightarrow> bref dact" where
  "alloc b d = (Inr (length (d_heap d)), d\<lparr>d_heap := d_heap d @ [b]\<rparr>)"

text \<open>\<open>Ballot.Reset\<close>: the object becomes the zero ballot; every pointer to it still points to it.\<close>

definition reset :: "bref option \<Rightarrow> decree \<Rightarrow> decree" where
  "reset p d = (case p of None \<Rightarrow> d | Some r \<Rightarrow> d\<lparr>d_heap := (d_heap d)[r := zero_ballot]\<rparr>)"


section \<open>Validation\<close>

definition getStatementQuorum :: "denv \<Rightarrow> decree \<Rightarrow> vstmt \<Rightarrow> quorum option res" where
  "getStatementQuorum env d stmt =
     (let by_hash = (\<lambda>hash. if hash = [] then Inr None
                            else case e_GetQuorum env hash of
                                   None \<Rightarrow> Inl (Fatal ''failed to get quorum of hash'')
                                 | Some q \<Rightarrow> Inr (Some q))
      in case s_Stmt stmt of
           Prepare _ _ _ _ _ hash \<Rightarrow> by_hash hash
         | Confirm _ _ _ _ hash \<Rightarrow> by_hash hash
         | Externalize _ _ _ \<Rightarrow> Inr (Some (getSingletonQuorum (d_nodeID d))))"

definition validateConsensusValueFull :: "denv \<Rightarrow> decree \<Rightarrow> consensus_value \<Rightarrow> unit res" where
  "validateConsensusValueFull env d cv =
     (if e_LedgerSynced env \<and> e_NextLedgerHeaderSeq env \<noteq> d_index d
        then Inl (Error ''consensus value is not compatible with ledger state'')
      else bindR
        (if e_CurrConsensusValue env \<noteq> [] then
           bindR (errorf ''decode hex string failed: '' (e_b58Decode env (e_CurrConsensusValue env))) (\<lambda>vb.
           bindR (errorf ''decode ledger header consensus value failed: '' (e_DecodeConsensusValue env vb))
             (\<lambda>headerCV.
           if ProposeTime headerCV > ProposeTime cv then Inl (Error ''consensus value is too old'')
           else Inr ()))
         else Inr ())
        (\<lambda>_. if e_GetTxSet env (TxSetHash cv) = None then Inl (Error ''get txset failed'') else Inr ()))"

definition validateConsensusValue :: "denv \<Rightarrow> decree \<Rightarrow> string \<Rightarrow> unit res" where
  "validateConsensusValue env d val =
     bindR (errorf ''decode hex string failed: '' (e_b58Decode env val)) (\<lambda>vb.
     bindR (errorf ''decode consensus value failed: '' (e_DecodeConsensusValue env vb)) (\<lambda>cv.
     errorf ''consensus value is not valid: '' (validateConsensusValueFull env d cv)))"

text \<open>The sanity conditions on the counters of a statement.\<close>

definition counters_error :: "bool \<Rightarrow> vstmt \<Rightarrow> string option" where
  "counters_error fromSelf stmt =
     (case s_Stmt stmt of
        Prepare b q p hc lc _ \<Rightarrow>
          if \<not> fromSelf \<and> Counter b = 0
            then Some ''prepare ballot counter is zero and not self msg''
          else if q \<noteq> None \<and> p \<noteq> None \<and> \<not> (compareBallots q p \<le> 0 \<and> \<not> compatibleBallots q p)
            then Some ''prepare q ballot and p ballot are not in expected states''
          else if \<not> (hc = 0 \<or> (case p of None \<Rightarrow> False | Some x \<Rightarrow> hc \<le> Counter x))
            then Some ''prepare p ballot and higher counters are not in expected states''
          else if \<not> (lc = 0 \<or> (hc \<noteq> 0 \<and> hc \<le> Counter b \<and> lc \<le> hc))
            then Some ''prepare ballot counters are not in expected states''
          else None
      | Confirm b _ lc hc _ \<Rightarrow>
          if Counter b = 0 then Some ''confirm current ballot counter should not be zero''
          else if \<not> (lc \<le> hc \<and> hc \<le> Counter b)
            then Some ''confirm ballot counters are not in expected states''
          else None
      | Externalize b hc _ \<Rightarrow>
          if \<not> (Counter b > 0 \<and> Counter b \<le> hc)
            then Some ''externalize ballot counters are not in expected states''
          else None)"

text \<open>The values that must pass the consensus constraints.\<close>

definition stmt_values :: "vstmt \<Rightarrow> string list" where
  "stmt_values stmt =
     (case s_Stmt stmt of
        Prepare b _ p _ _ _ \<Rightarrow>
          (if Counter b > 0 then [Value b] else [])
          @ (case p of None \<Rightarrow> [] | Some x \<Rightarrow> [Value x])
      | Confirm b _ _ _ _ \<Rightarrow> [Value b]
      | Externalize b _ _ \<Rightarrow> [Value b])"

definition validateBallot :: "denv \<Rightarrow> decree \<Rightarrow> vstmt \<Rightarrow> unit res" where
  "validateBallot env d stmt =
     bindR (getStatementQuorum env d stmt) (\<lambda>quorum.
     bindR (derefR ''quorum.Threshold'' quorum) (\<lambda>q.
     bindR (errorf ''validate quorum failed: '' (ValidateQuorum q 0 False)) (\<lambda>_.
     case counters_error (d_nodeID d = s_NodeID stmt) stmt of
       Some msg \<Rightarrow> Inl (Error msg)
     | None \<Rightarrow>
         (case filter (\<lambda>v. \<not> isOk (validateConsensusValue env d v)) (stmt_values stmt) of
            [] \<Rightarrow> Inr ()
          | v # _ \<Rightarrow> validateConsensusValue env d v))))"


section \<open>Invariants of the ballots\<close>

definition checkBallotInvariants :: "decree \<Rightarrow> unit res" where
  "checkBallotInvariants d =
     (let cur = bal d (d_currentBallot d); p = bal d (d_pBallot d); q = bal d (d_qBallot d);
          h = bal d (d_hBallot d); c = bal d (d_cBallot d)
      in if (case cur of None \<Rightarrow> False | Some b \<Rightarrow> Counter b = 0)
           then Inl (Fatal ''current ballot is not nil but counter is zero'')
         else if p \<noteq> None \<and> q \<noteq> None \<and> \<not> (compareBallots q p \<le> 0 \<and> \<not> compatibleBallots q p)
           then Inl (Fatal ''q ballot and p ballot invariant not satisfied'')
         else if h \<noteq> None \<and> cur = None
           then Inl (Fatal ''high ballot is not nil but current ballot is nil'')
         else if h \<noteq> None \<and> \<not> (compareBallots h cur \<le> 0 \<and> compatibleBallots h cur)
           then Inl (Fatal ''current ballot and higher ballot invariant not satisfied'')
         else if c \<noteq> None \<and> cur = None
           then Inl (Fatal ''commit ballot is not nil but current ballot is nil'')
         else if c \<noteq> None \<and> \<not> (compareBallots c h \<le> 0 \<and> compatibleBallots c h)
           then Inl (Fatal ''commit ballot and higher ballot invariant not satisfied'')
         else if c \<noteq> None \<and> \<not> (compareBallots h cur \<le> 0 \<and> compatibleBallots h cur)
           then Inl (Fatal ''current ballot and higher ballot invariant not satisfied'')
         else case d_currentPhase d of
                BallotPhasePrepare \<Rightarrow> Inr ()
              | BallotPhaseConfirm \<Rightarrow>
                  if c = None then Inl (Fatal ''commit ballot should not be nil in confirm phase'')
                  else Inr ()
              | BallotPhaseExternalize \<Rightarrow>
                  if c = None then Inl (Fatal ''commit ballot should not be nil in externalize phase'')
                  else if h = None
                    then Inl (Fatal ''higher ballot should not be nil in externalize phase'')
                  else Inr ())"


section \<open>The current ballot\<close>

definition in_ballot_phase :: "decree \<Rightarrow> bool" where
  "in_ballot_phase d \<longleftrightarrow> d_currentPhase d = BallotPhasePrepare \<or> d_currentPhase d = BallotPhaseConfirm"

text \<open>The argument is cloned, so it is passed by value; None is the nil ballot.\<close>

definition updateBallot :: "ballot option \<Rightarrow> bool \<Rightarrow> unit dact" where
  "updateBallot b check d =
     (case b of
        None \<Rightarrow> (Inl (Fatal ''cannot update ballot with nil ballot''), d)
      | Some v \<Rightarrow>
          if d_currentPhase d = BallotPhaseExternalize
            then (Inl (Fatal ''should not update ballot in externalize phase''), d)
          else if check \<and> d_currentBallot d \<noteq> None \<and> compareBallots (bal d (d_currentBallot d)) b > 0
            then (Inl (Fatal ''cannot update current ballot with smaller one''), d)
          else let d1 = d\<lparr>d_heap := d_heap d @ [v], d_currentBallot := Some (length (d_heap d))\<rparr>
               in (Inr (),
                   if d_hBallot d1 \<noteq> None \<and> \<not> compatibleBallots b (bal d1 (d_hBallot d1))
                   then reset (d_hBallot d1) d1 else d1))"

definition updateBallotIfNeeded :: "bref option \<Rightarrow> bool dact" where
  "updateBallotIfNeeded b d =
     (if d_currentBallot d = None \<or> compareBallots (bal d (d_currentBallot d)) (bal d b) < 0
      then thenA (updateBallot (bal d b) True) (retA True) d
      else (Inr False, d))"

definition updateBallotValue :: "ballot \<Rightarrow> bool dact" where
  "updateBallotValue b d =
     (if \<not> in_ballot_phase d then (Inr False, d)
      else if d_currentBallot d = None
        then thenA (updateBallot (Some b) True) (thenA (readA checkBallotInvariants) (retA True)) d
      else if d_cBallot d \<noteq> None \<and> \<not> compatibleBallots (bal d (d_cBallot d)) (Some b)
        then (Inr False, d)
      else if compareBallots (bal d (d_currentBallot d)) (Some b) \<le> 0
        then thenA (updateBallot (Some b) True) (thenA (readA checkBallotInvariants) (retA True)) d
      else thenA (readA checkBallotInvariants) (retA False) d)"

definition updateBallotPhaseWithCounter :: "unit dact \<Rightarrow> string \<Rightarrow> 32 word \<Rightarrow> bool dact" where
  "updateBallotPhaseWithCounter send val counter d =
     (if \<not> in_ballot_phase d then (Inr False, d)
      else let b = Ballot counter (if d_nextValue d \<noteq> [] then d_nextValue d else val)
           in bindA (updateBallotValue b) (\<lambda>updated.
              thenA (if updated then dropA send else retA ()) (retA updated)) d)"

definition updateBallotPhase :: "unit dact \<Rightarrow> string \<Rightarrow> bool \<Rightarrow> bool dact" where
  "updateBallotPhase send val force d =
     (if \<not> force \<and> d_currentBallot d \<noteq> None then (Inr False, d)
      else let counter = (case bal d (d_currentBallot d) of None \<Rightarrow> 1 | Some b \<Rightarrow> Counter b + 1)
           in updateBallotPhaseWithCounter send val counter d)"

definition abandonBallot :: "unit dact \<Rightarrow> 32 word \<Rightarrow> bool dact" where
  "abandonBallot send c d =
     (let cv = (if d_latestComposite d = []
                then (case bal d (d_currentBallot d) of None \<Rightarrow> [] | Some b \<Rightarrow> Value b)
                else d_latestComposite d)
      in if cv \<noteq> []
         then (if c = 0 then updateBallotPhase send cv True d
               else updateBallotPhaseWithCounter send cv c d)
         else (Inr False, d))"


section \<open>Catching up with a v-blocking set\<close>

definition stmt_counter :: "vstmt \<Rightarrow> 32 word" where
  "stmt_counter s =
     (case s_Stmt s of
        Prepare b _ _ _ _ _ \<Rightarrow> Counter b
      | Confirm b _ _ _ _ \<Rightarrow> Counter b
      | Externalize _ _ _ \<Rightarrow> MaxUint32)"

definition ahead_of :: "32 word \<Rightarrow> vstmt \<Rightarrow> bool" where
  "ahead_of counter s =
     (case s_Stmt s of
        Prepare b _ _ _ _ _ \<Rightarrow> counter < Counter b
      | Confirm b _ _ _ _ \<Rightarrow> counter < Counter b
      | Externalize _ _ _ \<Rightarrow> counter \<noteq> MaxUint32)"

text \<open>The node set is not cleared when it is v-blocking: it grows from counter to counter.\<close>

fun update_loop :: "unit dact \<Rightarrow> 32 word \<Rightarrow> 32 word list \<Rightarrow> string set \<Rightarrow> bool dact" where
  "update_loop send target [] nodes d = (Inr False, d)"
| "update_loop send target (c # cs) nodes d =
     (if c < target then (Inr False, d)
      else let nodes' = nodes \<union> set (map s_NodeID (filter (ahead_of c) (map snd (view d))))
           in if isVblocking (d_quorum d) nodes' then update_loop send target cs nodes' d
              else if c = target then (Inr False, d)
              else abandonBallot send c d)"

definition update :: "unit dact \<Rightarrow> bool dact" where
  "update send d =
     (if \<not> in_ballot_phase d then (Inr False, d)
      else let target = (case bal d (d_currentBallot d) of None \<Rightarrow> 0 | Some b \<Rightarrow> Counter b);
               counters = sort (remdups (target # map (\<lambda>(k, s). stmt_counter s) (view d)))
           in update_loop send target counters {} d)"

text \<open>The loop of \<open>step\<close> that updates until nothing changes; it returns whether something did.\<close>

fun update_all :: "nat \<Rightarrow> unit dact \<Rightarrow> bool \<Rightarrow> bool dact" where
  "update_all 0 send updated d = (Inl OutOfFuel, d)"
| "update_all (Suc n) send updated d =
     bindA (update send) (\<lambda>counterUpdated.
       if counterUpdated then update_all n send True else retA updated) d"


section \<open>Accepting a ballot as prepared\<close>

definition setAcceptPrepared :: "ballot \<Rightarrow> bool dact" where
  "setAcceptPrepared b d =
     (let p = bal d (d_pBallot d); q = bal d (d_qBallot d); r = length (d_heap d);
          d1 = d\<lparr>d_heap := d_heap d @ [b]\<rparr>
      in if d_pBallot d \<noteq> None then
           (let cmp = compareBallots (Some b) p
            in if cmp < 0 then
                 (if d_qBallot d = None \<or> (compareBallots (Some b) q > 0 \<and> \<not> compatibleBallots (Some b) p)
                  then (Inr True, d1\<lparr>d_qBallot := Some r\<rparr>)
                  else (Inr False, d))
               else if cmp > 0 then
                 (let d2 = (if \<not> compatibleBallots (Some b) p then d1\<lparr>d_qBallot := d_pBallot d\<rparr> else d1)
                  in (Inr True, d2\<lparr>d_pBallot := Some r\<rparr>))
               else (Inr False, d))
         else (Inr True, d1\<lparr>d_pBallot := Some r\<rparr>))"

definition fedAcceptB :: "denv \<Rightarrow> (vstmt \<Rightarrow> bool) \<Rightarrow> (vstmt \<Rightarrow> bool) \<Rightarrow> decree \<Rightarrow> bool res" where
  "fedAcceptB env vf af d = federatedAccept (d_quorum d) (getStatementQuorum env d) vf af (view d)"

definition fedRatifyB :: "denv \<Rightarrow> (vstmt \<Rightarrow> bool) \<Rightarrow> decree \<Rightarrow> bool res" where
  "fedRatifyB env flt d = federatedRatify (d_quorum d) (getStatementQuorum env d) flt (view d)"

text \<open>
  A prepared ballot above the high ballot and incompatible with it aborts the commit ballot.
\<close>

definition abort_commit :: "bool \<Rightarrow> bool dact" where
  "abort_commit updated d =
     (let p = bal d (d_pBallot d); q = bal d (d_qBallot d); h = bal d (d_hBallot d)
      in if d_cBallot d \<noteq> None \<and> d_hBallot d \<noteq> None
            \<and> ((p \<noteq> None \<and> lessAndIncompatibleBallots h p) \<or> (q \<noteq> None \<and> lessAndIncompatibleBallots h q))
            \<and> d_currentPhase d = BallotPhasePrepare
         then (Inr True, reset (d_cBallot d) d)
         else (Inr updated, d))"

definition skip_prepared :: "decree \<Rightarrow> ballot \<Rightarrow> bool" where
  "skip_prepared d cand \<longleftrightarrow>
     (d_qBallot d \<noteq> None \<and> compareBallots (Some cand) (bal d (d_qBallot d)) \<le> 0)
     \<or> (d_pBallot d \<noteq> None \<and> lessAndCompatibleBallots (Some cand) (bal d (d_pBallot d)))"

fun acceptPrepared_loop :: "denv \<Rightarrow> unit dact \<Rightarrow> ballot list \<Rightarrow> bool dact" where
  "acceptPrepared_loop env send [] d = (Inr False, d)"
| "acceptPrepared_loop env send (cand # cands) d =
     (if d_currentPhase d = BallotPhaseConfirm
         \<and> \<not> lessAndCompatibleBallots (bal d (d_pBallot d)) (Some cand)
        then acceptPrepared_loop env send cands d
      else if d_currentPhase d = BallotPhaseConfirm
         \<and> \<not> compatibleBallots (bal d (d_cBallot d)) (Some cand)
        then (Inl (Fatal ''candidate ballot and commit ballot are not compatible''), d)
      else if skip_prepared d cand then acceptPrepared_loop env send cands d
      else case fedAcceptB env (prepareVoteFilter cand) (prepareAcceptFilter cand) d of
             Inl f \<Rightarrow> (Inl f, d)
           | Inr accepted \<Rightarrow>
               (if accepted
                then bindA (setAcceptPrepared cand) (\<lambda>updated.
                     bindA (abort_commit updated) (\<lambda>updated'.
                     thenA (if updated' then dropA send else retA ()) (retA updated'))) d
                else acceptPrepared_loop env send cands d))"

definition acceptPrepared :: "denv \<Rightarrow> unit dact \<Rightarrow> rstmt \<Rightarrow> bool dact" where
  "acceptPrepared env send stmt d =
     (if \<not> in_ballot_phase d then (Inr False, d)
      else acceptPrepared_loop env send (getPreparedCandidates (vst d stmt) (map snd (view d))) d)"


section \<open>Confirming a ballot as prepared\<close>

text \<open>The first candidate that is ratified, with the candidates after it.\<close>

fun find_high :: "denv \<Rightarrow> decree \<Rightarrow> ballot list \<Rightarrow> (ballot \<times> ballot list) option res" where
  "find_high env d [] = Inr None"
| "find_high env d (cand # cands) =
     (if d_hBallot d \<noteq> None \<and> compareBallots (Some cand) (bal d (d_hBallot d)) \<le> 0 then Inr None
      else case fedRatifyB env (prepareAcceptFilter cand) d of
             Inl f \<Rightarrow> Inl f
           | Inr ok \<Rightarrow> if ok then Inr (Some (cand, cands)) else find_high env d cands)"

text \<open>From the high candidate on: the lowest ballot of its value that is still ratified.\<close>

fun find_commit ::
  "denv \<Rightarrow> decree \<Rightarrow> ballot \<Rightarrow> ballot \<Rightarrow> ballot list \<Rightarrow> ballot option \<Rightarrow> ballot option res" where
  "find_commit env d curb hCand [] acc = Inr acc"
| "find_commit env d curb hCand (cand # cands) acc =
     (if compareBallots (Some cand) (Some curb) < 0 then Inr acc
      else if \<not> lessAndCompatibleBallots (Some cand) (Some hCand)
        then find_commit env d curb hCand cands acc
      else case fedRatifyB env (prepareAcceptFilter cand) d of
             Inl f \<Rightarrow> Inl f
           | Inr ok \<Rightarrow> if ok then find_commit env d curb hCand cands (Some cand) else Inr acc)"

definition setConfirmPrepared :: "unit dact \<Rightarrow> bref option \<Rightarrow> bref \<Rightarrow> bool dact" where
  "setConfirmPrepared send cb hb d0 =
     (let d = d0\<lparr>d_nextValue := Value (deref d0 hb)\<rparr>;
          b = Some (deref d hb);
          compat = (d_currentBallot d = None \<or> compatibleBallots (bal d (d_currentBallot d)) b);
          updH = (compat \<and> (d_hBallot d = None \<or> compareBallots (bal d (d_hBallot d)) b < 0));
          d1 = (if updH then d\<lparr>d_hBallot := Some hb\<rparr> else d);
          updC = (compat \<and> (d_cBallot d1 = None \<or> compareBallots (bal d1 cb) (bal d1 (d_cBallot d1)) < 0));
          d2 = (if updC then d1\<lparr>d_cBallot := cb\<rparr> else d1)
      in bindA (updateBallotIfNeeded (Some hb)) (\<lambda>needed.
         let updated = (needed \<or> updH \<or> updC)
         in thenA (if updated then dropA send else retA ()) (retA updated)) d2)"

text \<open>A commit candidate is looked for only when there is no commit ballot yet and none is aborted.\<close>

definition commit_candidate :: "denv \<Rightarrow> decree \<Rightarrow> ballot \<Rightarrow> ballot list \<Rightarrow> ballot option res" where
  "commit_candidate env d hCand cands =
     (let curb = (case bal d (d_currentBallot d) of None \<Rightarrow> zero_ballot | Some b \<Rightarrow> b);
          p = bal d (d_pBallot d); q = bal d (d_qBallot d)
      in if d_cBallot d = None
            \<and> (p = None \<or> \<not> lessAndIncompatibleBallots (Some hCand) p)
            \<and> (q = None \<or> \<not> lessAndIncompatibleBallots (Some hCand) q)
         then find_commit env d curb hCand (hCand # cands) None
         else Inr None)"

text \<open>The commit candidate is the same object as the high candidate when it is the same ballot.\<close>

definition adopt_prepared :: "unit dact \<Rightarrow> ballot \<Rightarrow> ballot option \<Rightarrow> bool dact" where
  "adopt_prepared send hCand cCand =
     bindA (alloc hCand) (\<lambda>hb.
     bindA (case cCand of
              None \<Rightarrow> retA None
            | Some c \<Rightarrow> if c = hCand then retA (Some hb) else bindA (alloc c) (\<lambda>r. retA (Some r))) (\<lambda>cb.
     setConfirmPrepared send cb hb))"

definition confirmPrepared :: "denv \<Rightarrow> unit dact \<Rightarrow> rstmt \<Rightarrow> bool dact" where
  "confirmPrepared env send stmt d =
     (if d_currentPhase d \<noteq> BallotPhasePrepare \<or> d_pBallot d = None then (Inr False, d)
      else case find_high env d (getPreparedCandidates (vst d stmt) (map snd (view d))) of
             Inl f \<Rightarrow> (Inl f, d)
           | Inr None \<Rightarrow> (Inr False, d)
           | Inr (Some (hCand, cands)) \<Rightarrow>
               (case commit_candidate env d hCand cands of
                  Inl f \<Rightarrow> (Inl f, d)
                | Inr cCand \<Rightarrow> adopt_prepared send hCand cCand d))"


section \<open>Accepting and confirming a commit\<close>

definition record_commit :: "bref \<Rightarrow> bref \<Rightarrow> bool dact" where
  "record_commit cb hb d0 =
     (let d = d0\<lparr>d_nextValue := Value (deref d0 hb)\<rparr>
      in if d_hBallot d = None \<or> d_cBallot d = None
            \<or> compareBallots (bal d (d_hBallot d)) (Some (deref d hb)) \<noteq> 0
            \<or> compareBallots (bal d (d_cBallot d)) (Some (deref d cb)) \<noteq> 0
         then (Inr True, d\<lparr>d_hBallot := Some hb, d_cBallot := Some cb\<rparr>)
         else (Inr False, d))"

definition enter_confirm :: "bref \<Rightarrow> bool dact" where
  "enter_confirm hb d =
     (if d_currentPhase d = BallotPhasePrepare
      then let b = Some (deref d hb); d1 = d\<lparr>d_currentPhase := BallotPhaseConfirm\<rparr>
           in bindA (if d_currentBallot d1 \<noteq> None
                        \<and> \<not> lessAndCompatibleBallots b (bal d1 (d_currentBallot d1))
                     then updateBallot b False else retA ())
                (\<lambda>_. thenA (modifyA (\<lambda>d. reset (d_qBallot d) d)) (retA True)) d1
      else (Inr False, d))"

definition setAcceptCommit :: "unit dact \<Rightarrow> bref \<Rightarrow> bref \<Rightarrow> bool dact" where
  "setAcceptCommit send cb hb =
     bindA (record_commit cb hb) (\<lambda>upd.
     bindA (enter_confirm hb) (\<lambda>entered.
     thenA (if upd \<or> entered
            then thenA (\<lambda>d. updateBallotIfNeeded (d_hBallot d) d) (dropA send) else retA ())
           (retA (upd \<or> entered))))"

text \<open>The ballot whose commit the statement is about; None where there is none.\<close>

definition commit_ballot :: "vstmt \<Rightarrow> ballot option" where
  "commit_ballot stmt =
     (case s_Stmt stmt of
        Prepare b _ _ hc lc _ \<Rightarrow> if lc = 0 then None else Some (Ballot hc (Value b))
      | Confirm b _ _ hc _ \<Rightarrow> Some (Ballot hc (Value b))
      | Externalize b hc _ \<Rightarrow> Some (Ballot hc (Value b)))"

definition acceptCommit :: "denv \<Rightarrow> unit dact \<Rightarrow> rstmt \<Rightarrow> bool dact" where
  "acceptCommit env send stmt d =
     (if \<not> in_ballot_phase d then (Inr False, d)
      else case commit_ballot (vst d stmt) of
        None \<Rightarrow> (Inr False, d)
      | Some ballot \<Rightarrow>
          if d_currentPhase d = BallotPhaseConfirm
             \<and> \<not> compatibleBallots (Some ballot) (bal d (d_hBallot d))
            then (Inr False, d)
          else let counters = getCommitCounters ballot (map snd (view d))
               in if counters = [] then (Inr False, d)
                  else case findCommitInterval counters
                         (\<lambda>l r. fedAcceptB env (commitVoteFilter ballot l r) (commitAcceptFilter ballot l r) d) of
                    Inl f \<Rightarrow> (Inl f, d)
                  | Inr (lb, rb) \<Rightarrow>
                      if lb \<noteq> 0
                         \<and> (d_currentPhase d \<noteq> BallotPhaseConfirm
                            \<or> (case bal d (d_hBallot d) of None \<Rightarrow> False | Some h \<Rightarrow> rb > Counter h))
                      then bindA (alloc (Ballot lb (Value ballot))) (\<lambda>cb.
                           bindA (alloc (Ballot rb (Value ballot))) (\<lambda>hb.
                           setAcceptCommit send cb hb)) d
                      else (Inr False, d))"

definition setConfirmCommit :: "unit dact \<Rightarrow> bref \<Rightarrow> bref \<Rightarrow> bool dact" where
  "setConfirmCommit send cb hb =
     thenA (modifyA (\<lambda>d. d\<lparr>d_cBallot := Some cb, d_hBallot := Some hb\<rparr>))
    (thenA (updateBallotIfNeeded (Some hb))
    (thenA (modifyA (\<lambda>d. d\<lparr>d_currentPhase := BallotPhaseExternalize\<rparr>))
    (thenA (dropA send)
    (thenA (modifyA (\<lambda>d. d\<lparr>d_nominationStart := False\<rparr>))
    (bindA (\<lambda>d. liftA (derefR ''d.cBallot.Value'' (bal d (d_cBallot d))) d) (\<lambda>c.
     thenA (modifyA (\<lambda>d. d\<lparr>d_externalizeChan := d_externalizeChan d @ [(d_index d, Value c)]\<rparr>))
     (retA True)))))))"

definition confirmCommit :: "denv \<Rightarrow> unit dact \<Rightarrow> rstmt \<Rightarrow> bool dact" where
  "confirmCommit env send stmt d =
     (if d_currentPhase d \<noteq> BallotPhaseConfirm then (Inr False, d)
      else if d_hBallot d = None \<or> d_cBallot d = None then (Inr False, d)
      else case (case s_Stmt (vst d stmt) of
                   Prepare _ _ _ _ _ _ \<Rightarrow> None
                 | _ \<Rightarrow> commit_ballot (vst d stmt)) of
        None \<Rightarrow> (Inr False, d)
      | Some ballot \<Rightarrow>
          if \<not> compatibleBallots (bal d (d_cBallot d)) (Some ballot) then (Inr False, d)
          else let counters = getCommitCounters ballot (map snd (view d))
               in if counters = [] then (Inr False, d)
                  else case findCommitInterval counters
                         (\<lambda>l r. fedRatifyB env (commitAcceptFilter ballot l r) d) of
                    Inl f \<Rightarrow> (Inl f, d)
                  | Inr (lb, rb) \<Rightarrow>
                      if lb \<noteq> 0
                      then bindA (alloc (Ballot lb (Value ballot))) (\<lambda>cb.
                           bindA (alloc (Ballot rb (Value ballot))) (\<lambda>hb.
                           setConfirmCommit send cb hb)) d
                      else (Inr False, d))"


section \<open>Step, receive, send\<close>

definition step :: "nat \<Rightarrow> denv \<Rightarrow> unit dact \<Rightarrow> rstmt \<Rightarrow> unit dact" where
  "step n env send stmt d0 =
     (let d = d0\<lparr>d_ballotMsgCount := d_ballotMsgCount d0 + 1\<rparr>
      in if d_ballotMsgCount d = d_maxRecursions d
         then (Inl (Error ''max number of invoking reached in step''), d)
         else bindA (acceptPrepared env send stmt) (\<lambda>u1.
              bindA (confirmPrepared env send stmt) (\<lambda>u2.
              bindA (acceptCommit env send stmt) (\<lambda>u3.
              bindA (confirmCommit env send stmt) (\<lambda>u4.
              bindA (\<lambda>d. if d_ballotMsgCount d = 1 then update_all n send False d else (Inr False, d))
                (\<lambda>u5.
              thenA (modifyA (\<lambda>d. d\<lparr>d_ballotMsgCount := d_ballotMsgCount d - 1\<rparr>))
             (modifyA (\<lambda>d. case d_latestBallot d of
                 None \<Rightarrow> d
               | Some s \<Rightarrow>
                   if u1 \<or> u2 \<or> u3 \<or> u4 \<or> u5
                   then d\<lparr>d_statementChan := d_statementChan d @ [OutBallot s]\<rparr> else d))))))) d)"

definition recv_body :: "nat \<Rightarrow> denv \<Rightarrow> unit dact \<Rightarrow> rstmt \<Rightarrow> unit dact" where
  "recv_body n env send stmt d =
     (if s_Index stmt \<noteq> d_index d then (Inl (Error ''ballot indices are incompatible''), d)
      else if (case map_of (d_ballots d) (s_NodeID stmt) of
                 None \<Rightarrow> False | Some s \<Rightarrow> \<not> isNewerBallot (vst d s) (vst d stmt))
        then (Inr (), d)
      else case errorf ''ballot is invalid: '' (validateBallot env d (vst d stmt)) of
             Inl f \<Rightarrow> (Inl f, d)
           | Inr _ \<Rightarrow>
               if d_currentPhase d \<noteq> BallotPhaseExternalize
               then thenA (modifyA (\<lambda>d. d\<lparr>d_ballots := AList.update (s_NodeID stmt) stmt (d_ballots d)\<rparr>))
                      (errorfA ''step forward ballot state failed: '' (step n env send stmt)) d
               else case derefR ''d.cBallot.Value'' (bal d (d_cBallot d)) of
                      Inl f \<Rightarrow> (Inl f, d)
                    | Inr c \<Rightarrow>
                        if Value c \<noteq> Value (getWorkingBallot (vst d stmt))
                        then (Inl (Error ''incompatible working ballot value''), d)
                        else (Inr (), d\<lparr>d_ballots := AList.update (s_NodeID stmt) stmt (d_ballots d)\<rparr>))"

text \<open>The statement of the current phase; None when there is no current ballot.\<close>

definition make_ballot_stmt :: "decree \<Rightarrow> rstmt option res" where
  "make_ballot_stmt d =
     (let counter = (\<lambda>p. case bal d p of None \<Rightarrow> 0 | Some b \<Rightarrow> Counter b);
          with_cur = (\<lambda>pl. map_option (\<lambda>cur. BStmt (d_nodeID d) (d_index d) (pl cur)) (d_currentBallot d))
      in case d_currentPhase d of
           BallotPhasePrepare \<Rightarrow>
             Inr (with_cur (\<lambda>cur. Prepare cur (d_qBallot d) (d_pBallot d)
               (counter (d_hBallot d)) (counter (d_cBallot d)) (d_quorumHash d)))
         | BallotPhaseConfirm \<Rightarrow>
             bindR (derefR ''d.pBallot.Counter'' (bal d (d_pBallot d))) (\<lambda>p.
             bindR (derefR ''d.cBallot.Counter'' (bal d (d_cBallot d))) (\<lambda>c.
             bindR (derefR ''d.hBallot.Counter'' (bal d (d_hBallot d))) (\<lambda>h.
             Inr (with_cur (\<lambda>cur. Confirm cur (Counter p) (Counter c) (Counter h) (d_quorumHash d))))))
         | BallotPhaseExternalize \<Rightarrow>
             bindR (derefR ''d.hBallot.Counter'' (bal d (d_hBallot d))) (\<lambda>h.
             bindR (derefR ''d.cBallot'' (d_cBallot d)) (\<lambda>c.
             Inr (with_cur (\<lambda>_. Externalize c (Counter h) (d_quorumHash d))))))"

definition send_body :: "(rstmt \<Rightarrow> unit dact) \<Rightarrow> unit dact" where
  "send_body recv d =
     (case bindR (checkBallotInvariants d) (\<lambda>_. make_ballot_stmt d) of
        Inl f \<Rightarrow> (Inl f, d)
      | Inr None \<Rightarrow> (Inr (), d)
      | Inr (Some stmt) \<Rightarrow>
          if (case map_of (d_ballots d) (s_NodeID stmt) of
                None \<Rightarrow> True | Some s \<Rightarrow> vst d s \<noteq> vst d stmt)
          then thenA (errorfA ''recv local ballot failed: '' (recv stmt))
                 (modifyA (\<lambda>d.
                    if d_currentBallot d \<noteq> None
                       \<and> (case d_latestBallot d of
                            None \<Rightarrow> True | Some l \<Rightarrow> isNewerBallot (vst d l) (vst d stmt))
                    then d\<lparr>d_latestBallot := Some stmt,
                           d_statementChan := d_statementChan d @ [OutBallot stmt]\<rparr>
                    else d)) d
          else (Inr (), d))"

primrec sendBallot :: "nat \<Rightarrow> denv \<Rightarrow> unit dact" where
  "sendBallot 0 env = (\<lambda>d. (Inl OutOfFuel, d))"
| "sendBallot (Suc n) env = send_body (recv_body n env (sendBallot n env))"

text \<open>A statement from a peer: its ballots are new objects.\<close>

definition alloc_payload :: "vstmt \<Rightarrow> rstmt dact" where
  "alloc_payload stmt =
     (let allocO = (\<lambda>p. case p of None \<Rightarrow> retA None | Some b \<Rightarrow> bindA (alloc b) (\<lambda>r. retA (Some r)));
          mk = BStmt (s_NodeID stmt) (s_Index stmt)
      in case s_Stmt stmt of
           Prepare b q p hc lc qh \<Rightarrow>
             bindA (alloc b) (\<lambda>b'. bindA (allocO q) (\<lambda>q'. bindA (allocO p) (\<lambda>p'.
             retA (mk (Prepare b' q' p' hc lc qh)))))
         | Confirm b pc lc hc qh \<Rightarrow> bindA (alloc b) (\<lambda>b'. retA (mk (Confirm b' pc lc hc qh)))
         | Externalize b hc qh \<Rightarrow> bindA (alloc b) (\<lambda>b'. retA (mk (Externalize b' hc qh))))"

definition recvBallot :: "nat \<Rightarrow> denv \<Rightarrow> vstmt \<Rightarrow> unit dact" where
  "recvBallot n env stmt = bindA (alloc_payload stmt) (recv_body n env (sendBallot n env))"


section \<open>The catch-up never runs\<close>

lemma ahead_of_mono: "c \<le> c' \<Longrightarrow> ahead_of c' s \<Longrightarrow> ahead_of c s"
  by (cases "s_Stmt s") (auto simp: ahead_of_def dest: order.antisym)

lemma update_loop_blocked:
  assumes "sorted (c # cs)" "isVblocking (d_quorum d) nodes"
    "set (map s_NodeID (filter (ahead_of c) (map snd (view d)))) \<subseteq> nodes"
  shows "update_loop send target cs nodes d = (Inr False, d)"
  using assms
proof (induction cs arbitrary: c)
  case Nil
  then show ?case by simp
next
  case (Cons c' cs)
  have sub: "set (map s_NodeID (filter (ahead_of c') (map snd (view d)))) \<subseteq> nodes"
    using Cons.prems(1,3) by (auto dest: ahead_of_mono)
  then have "nodes \<union> set (map s_NodeID (filter (ahead_of c') (map snd (view d)))) = nodes" by blast
  moreover have "update_loop send target cs nodes d = (Inr False, d)"
    using Cons.prems(1,2) sub by (intro Cons.IH) auto
  ultimately show ?case using Cons.prems(2) by (simp add: Let_def)
qed

lemma update_noop: "update send d = (Inr False, d)"
proof (cases "in_ballot_phase d")
  case False
  then show ?thesis by (simp add: update_def)
next
  case True
  define target where "target = (case bal d (d_currentBallot d) of None \<Rightarrow> 0 | Some b \<Rightarrow> Counter b)"
  define counters where
    "counters = sort (remdups (target # map (\<lambda>(k, s). stmt_counter s) (view d)))"
  have upd: "update send d = update_loop send target counters {} d"
    using True by (simp add: update_def Let_def target_def counters_def)
  have srt: "sorted counters" by (simp add: counters_def)
  have mem: "target \<in> set counters" by (simp add: counters_def)
  then obtain c cs where cs: "counters = c # cs" by (cases counters) auto
  have le: "c \<le> target" using srt mem cs by auto
  show ?thesis
  proof (cases "c < target")
    case True
    with upd cs show ?thesis by simp
  next
    case False
    with le have c: "c = target" by simp
    let ?N = "set (map s_NodeID (filter (ahead_of c) (map snd (view d))))"
    show ?thesis
    proof (cases "isVblocking (d_quorum d) ?N")
      case False
      with upd cs c show ?thesis by (simp add: Let_def)
    next
      case True
      then have "update_loop send target cs ?N d = (Inr False, d)"
        using srt cs by (intro update_loop_blocked [of c]) auto
      with True upd cs c show ?thesis by (simp add: Let_def)
    qed
  qed
qed

text \<open>
  C33. The update that should move a node to the lowest counter at which it is no longer behind a
  v-blocking set never changes anything: the counters are visited in ascending order and the search
  stops at the first one below the current counter, and the node set is kept while it is v-blocking,
  so it stays v-blocking for every later counter.
\<close>

theorem update_never_abandons: "update send d = (Inr False, d)"
  by (rule update_noop)

lemma update_all_noop [simp]: "update_all (Suc n) send u d = (Inr u, d)"
  by (simp add: bindA_def update_noop)


section \<open>Progress\<close>

fun rank :: "BallotPhase \<Rightarrow> nat" where
  "rank BallotPhasePrepare = 0"
| "rank BallotPhaseConfirm = 1"
| "rank BallotPhaseExternalize = 2"

text \<open>
  What every operation keeps: who the decree is (leader election sorts nested quorums in place, so
  only a flat quorum is constant), that the phase does not go back, that at most one
  value is externalized and only on the way into the last phase, and that the last phase freezes
  the commit and the high ballot.
\<close>

definition same_quorum :: "quorum \<Rightarrow> quorum \<Rightarrow> bool" where
  "same_quorum q q' \<longleftrightarrow> (flat q \<or> flat q' \<longrightarrow> q' = q)"

lemma same_quorum_refl [simp]: "same_quorum q q"
  by (simp add: same_quorum_def)

lemma same_quorum_trans: "same_quorum q q' \<Longrightarrow> same_quorum q' q'' \<Longrightarrow> same_quorum q q''"
  unfolding same_quorum_def by metis

definition same_decree :: "decree \<Rightarrow> decree \<Rightarrow> bool" where
  "same_decree d d' \<longleftrightarrow> d_index d' = d_index d \<and> d_nodeID d' = d_nodeID d
     \<and> same_quorum (d_quorum d) (d_quorum d')
     \<and> d_quorumHash d' = d_quorumHash d \<and> d_maxRecursions d' = d_maxRecursions d"

lemma same_decree_refl [simp]: "same_decree d d"
  by (simp add: same_decree_def)

lemma same_decree_trans: "same_decree d d' \<Longrightarrow> same_decree d' d'' \<Longrightarrow> same_decree d d''"
  by (auto simp: same_decree_def intro: same_quorum_trans)

definition frozen :: "decree \<Rightarrow> decree \<Rightarrow> bool" where
  "frozen d d' \<longleftrightarrow> (d_currentPhase d = BallotPhaseExternalize \<longrightarrow>
     d_cBallot d' = d_cBallot d \<and> d_hBallot d' = d_hBallot d \<and> (\<exists>ys. d_heap d' = d_heap d @ ys))"

text \<open>
  A value is externalized for a ballot whose commit was confirmed: in some state of the decree, in
  the confirm phase, the acceptance of its commit was ratified.
\<close>

definition confirmed_commit :: "denv \<Rightarrow> decree \<Rightarrow> ballot \<Rightarrow> 32 word \<Rightarrow> 32 word \<Rightarrow> bool" where
  "confirmed_commit env e b lb rb \<longleftrightarrow> d_currentPhase e = BallotPhaseConfirm \<and> lb \<noteq> 0
     \<and> fedRatifyB env (commitAcceptFilter b lb rb) e = Inr True"

definition externalized :: "decree \<Rightarrow> (64 word \<times> string) list \<Rightarrow> bool" where
  "externalized d xs \<longleftrightarrow> (\<exists>v r env e b lb rb. xs = [(d_index d, v)]
     \<and> d_cBallot d = Some r \<and> r < length (d_heap d) \<and> Value (deref d r) = v
     \<and> same_decree e d \<and> confirmed_commit env e b lb rb \<and> Value b = v)"

definition progress :: "decree \<Rightarrow> decree \<Rightarrow> bool" where
  "progress d d' \<longleftrightarrow> same_decree d d' \<and> frozen d d' \<and> length (d_heap d) \<le> length (d_heap d')
     \<and> rank (d_currentPhase d) \<le> rank (d_currentPhase d')
     \<and> (\<exists>xs. d_externalizeChan d' = d_externalizeChan d @ xs
          \<and> (xs \<noteq> [] \<longrightarrow> d_currentPhase d \<noteq> BallotPhaseExternalize
                       \<and> d_currentPhase d' = BallotPhaseExternalize \<and> externalized d' xs))"

definition quiet :: "decree \<Rightarrow> decree \<Rightarrow> bool" where
  "quiet d d' \<longleftrightarrow> same_decree d d' \<and> frozen d d' \<and> d_currentPhase d' = d_currentPhase d
     \<and> length (d_heap d) \<le> length (d_heap d') \<and> d_externalizeChan d' = d_externalizeChan d"

lemma rank_inj: "rank p = rank p' \<longleftrightarrow> p = p'"
  by (cases p; cases p') auto

lemma rank_top: "rank BallotPhaseExternalize \<le> rank p \<longleftrightarrow> p = BallotPhaseExternalize"
  by (cases p) auto

lemma quiet_progress: "quiet d d' \<Longrightarrow> progress d d'"
  by (auto simp: quiet_def progress_def)

lemma externalized_frozen:
  assumes "d_currentPhase d = BallotPhaseExternalize \<and> externalized d xs" "same_decree d d'" "frozen d d'"
  shows "externalized d' xs"
proof -
  obtain v r env e b lb rb where x: "xs = [(d_index d, v)]" "d_cBallot d = Some r" "r < length (d_heap d)"
    "Value (deref d r) = v" "same_decree e d" "confirmed_commit env e b lb rb" "Value b = v"
    using assms(1) by (auto simp: externalized_def)
  obtain zs where z: "d_heap d' = d_heap d @ zs" "d_cBallot d' = Some r"
    using assms(1,3) x(2) by (auto simp: frozen_def)
  have "xs = [(d_index d', v)]" "same_decree e d'"
    using x(1) assms(2) same_decree_trans [OF x(5) assms(2)] by (auto simp: same_decree_def)
  moreover have "r < length (d_heap d')" "Value (deref d' r) = v"
    using z x(3,4) by (auto simp: deref_def nth_append)
  ultimately show ?thesis unfolding externalized_def using z(2) x(6,7) by blast
qed

interpretation quiet: frame quiet
  by unfold_locales (auto simp: quiet_def frozen_def intro: same_decree_trans)

interpretation progress: frame progress
proof
  fix d d' d''
  show "progress d d" by (auto simp: progress_def same_decree_def frozen_def)
  assume a: "progress d d'" "progress d' d''"
  have ext: "d_currentPhase d = BallotPhaseExternalize \<Longrightarrow> d_currentPhase d' = BallotPhaseExternalize"
    "d_currentPhase d' = BallotPhaseExternalize \<Longrightarrow> d_currentPhase d'' = BallotPhaseExternalize"
    using a rank_top by (auto simp: progress_def)
  obtain xs ys where
    xs: "d_externalizeChan d' = d_externalizeChan d @ xs"
      "xs \<noteq> [] \<longrightarrow> d_currentPhase d \<noteq> BallotPhaseExternalize \<and> d_currentPhase d' = BallotPhaseExternalize
        \<and> externalized d' xs"
    and ys: "d_externalizeChan d'' = d_externalizeChan d' @ ys"
      "ys \<noteq> [] \<longrightarrow> d_currentPhase d' \<noteq> BallotPhaseExternalize \<and> d_currentPhase d'' = BallotPhaseExternalize
        \<and> externalized d'' ys"
    using a unfolding progress_def by metis
  have sd: "same_decree d' d''" and fr: "frozen d' d''" using a by (auto simp: progress_def)
  have keep: "xs \<noteq> [] \<Longrightarrow> externalized d'' xs"
    using xs(2) externalized_frozen [OF _ sd fr] by blast
  have one: "xs = [] \<or> ys = []" using xs(2) ys(2) by blast
  have "\<exists>zs. d_externalizeChan d'' = d_externalizeChan d @ zs
      \<and> (zs \<noteq> [] \<longrightarrow> d_currentPhase d \<noteq> BallotPhaseExternalize
          \<and> d_currentPhase d'' = BallotPhaseExternalize \<and> externalized d'' zs)"
  proof (rule exI [of _ "xs @ ys"])
    show "d_externalizeChan d'' = d_externalizeChan d @ (xs @ ys)
      \<and> (xs @ ys \<noteq> [] \<longrightarrow> d_currentPhase d \<noteq> BallotPhaseExternalize
          \<and> d_currentPhase d'' = BallotPhaseExternalize \<and> externalized d'' (xs @ ys))"
      using one xs ys ext keep by auto
  qed
  moreover have "same_decree d d''" "frozen d d''" "rank (d_currentPhase d) \<le> rank (d_currentPhase d'')"
    "length (d_heap d) \<le> length (d_heap d'')"
    using a ext by (auto simp: progress_def frozen_def intro: same_decree_trans)
  ultimately show "progress d d''" by (simp add: progress_def)
qed

lemmas quiet_defs = quiet_def same_decree_def frozen_def

lemma quiet_alloc: "quiet d (snd (alloc b d))"
  by (simp add: alloc_def quiet_defs)

lemma quiet_updateBallot: "quiet d (snd (updateBallot b chk d))"
  by (auto simp: updateBallot_def quiet_defs Let_def reset_def split: option.splits)

text \<open>Moving to the high ballot does not touch a commit ballot of the same value.\<close>

lemma updateBallotIfNeeded_commit:
  assumes "d_cBallot d = Some cb" "d_hBallot d = Some hb" "cb < length (d_heap d)"
    and "deref d cb = Ballot lb v" "deref d hb = Ballot rb v" "hb < length (d_heap d)"
    and "updateBallotIfNeeded (Some hb) d = (r, d')"
  shows "d_cBallot d' = Some cb \<and> deref d' cb = Ballot lb v"
  using assms
  by (auto simp: updateBallotIfNeeded_def updateBallot_def thenA_def bindA_def Let_def bal_def
      deref_def nth_append split: if_splits)

lemma quiet_updateBallotIfNeeded: "quiet d (snd (updateBallotIfNeeded b d))"
  unfolding updateBallotIfNeeded_def
  by (auto intro!: quiet.frame_then quiet_updateBallot)

lemma quiet_updateBallotValue: "quiet d (snd (updateBallotValue b d))"
  unfolding updateBallotValue_def
  by (auto intro!: quiet.frame_then quiet_updateBallot)

lemma quiet_setAcceptPrepared: "in_ballot_phase d \<Longrightarrow> quiet d (snd (setAcceptPrepared b d))"
  by (auto simp: setAcceptPrepared_def quiet_defs Let_def in_ballot_phase_def)

lemma quiet_abort_commit: "quiet d (snd (abort_commit u d))"
  by (auto simp: abort_commit_def quiet_defs Let_def reset_def split: option.splits)

lemma quiet_alloc_payload: "quiet d (snd (alloc_payload stmt d))"
  unfolding alloc_payload_def Let_def
  by (auto intro!: quiet.frame_bind quiet_alloc split: payload.splits option.splits)


lemma progress_updateBallotPhaseWithCounter:
  assumes "\<And>d. progress d (snd (send d))"
  shows "progress d (snd (updateBallotPhaseWithCounter send val ctr d))"
  unfolding updateBallotPhaseWithCounter_def Let_def
  by (auto intro!: progress.frame_bind progress.frame_then quiet_progress [OF quiet_updateBallotValue] assms)

lemma progress_updateBallotPhase:
  assumes "\<And>d. progress d (snd (send d))"
  shows "progress d (snd (updateBallotPhase send val force d))"
  unfolding updateBallotPhase_def Let_def
  by (auto intro!: progress_updateBallotPhaseWithCounter assms)

lemma progress_acceptPrepared_loop:
  assumes "\<And>d. progress d (snd (send d))" "in_ballot_phase d"
  shows "progress d (snd (acceptPrepared_loop env send cands d))"
proof (induction cands)
  case Nil
  then show ?case by simp
next
  case (Cons cand cands)
  have hit: "progress d (snd (bindA (setAcceptPrepared cand) (\<lambda>updated.
      bindA (abort_commit updated) (\<lambda>updated'.
      thenA (if updated' then dropA send else retA ()) (retA updated'))) d))"
    by (auto intro!: progress.frame_bind progress.frame_then quiet_progress [OF quiet_abort_commit]
        quiet_progress [OF quiet_setAcceptPrepared] assms)
  show ?case
    using Cons.IH hit by (auto split: sum.splits)
qed

lemma progress_acceptPrepared:
  assumes "\<And>d. progress d (snd (send d))"
  shows "progress d (snd (acceptPrepared env send stmt d))"
  unfolding acceptPrepared_def by (auto intro!: progress_acceptPrepared_loop assms)

lemma progress_setConfirmPrepared:
  assumes "\<And>d. progress d (snd (send d))" "d_currentPhase d \<noteq> BallotPhaseExternalize"
  shows "progress d (snd (setConfirmPrepared send cb hb d))"
proof -
  have q: "quiet d e \<Longrightarrow> progress d (snd (bindA (updateBallotIfNeeded (Some hb)) (\<lambda>needed.
         let updated = (needed \<or> u)
         in thenA (if updated then dropA send else retA ()) (retA updated)) e))" for e u
    by (rule progress.frame_trans, erule quiet_progress)
      (auto simp: Let_def intro!: progress.frame_bind progress.frame_then
        quiet_progress [OF quiet_updateBallotIfNeeded] assms)
  show ?thesis
    unfolding setConfirmPrepared_def Let_def [of "d\<lparr>d_nextValue := Value (deref d hb)\<rparr>"]
    unfolding Let_def [of "Some _"]
    by (subst Let_def, subst Let_def, subst Let_def, subst Let_def, subst Let_def)
      (rule q, use assms(2) in \<open>auto simp: quiet_defs\<close>)
qed

text \<open>Two quiet steps before one that makes progress, which may rely on what they keep.\<close>

lemma progress_after_quiet:
  assumes "\<And>e. quiet e (snd (m e))" "\<And>a e. quiet e (snd (n a e))"
    and "\<And>a b e. quiet d e \<Longrightarrow> progress e (snd (f a b e))"
  shows "progress d (snd (bindA m (\<lambda>a. bindA (n a) (\<lambda>b. f a b)) d))"
proof (rule progress.frame_bind)
  show "progress d (snd (m d))" by (rule quiet_progress [OF assms(1)])
  fix a t assume m: "m d = (Inr a, t)"
  have dt: "quiet d t" using assms(1) [of d] m by simp
  show "progress t (snd (bindA (n a) (\<lambda>b. f a b) t))"
  proof (rule progress.frame_bind)
    show "progress t (snd (n a t))" by (rule quiet_progress [OF assms(2)])
    fix b u assume n: "n a t = (Inr b, u)"
    have "quiet d u" using quiet.frame_trans [OF dt] assms(2) [of t a] n by simp
    then show "progress u (snd (f a b u))" by (rule assms(3))
  qed
qed

lemma progress_confirmPrepared:
  assumes "\<And>d. progress d (snd (send d))"
  shows "progress d (snd (confirmPrepared env send stmt d))"
proof -
  have p: "progress d (snd (adopt_prepared send h cCand d))"
    if "d_currentPhase d = BallotPhasePrepare" for h cCand
    unfolding adopt_prepared_def
  proof (rule progress_after_quiet [OF quiet_alloc])
    show "quiet e (snd ((case cCand of None \<Rightarrow> retA None
             | Some c \<Rightarrow> if c = h then retA (Some hb) else bindA (alloc c) (\<lambda>r. retA (Some r))) e))"
      for hb e
      by (auto split: option.splits intro!: quiet.frame_bind quiet_alloc)
    show "progress e (snd (setConfirmPrepared send cb hb e))" if "quiet d e" for hb cb e
      by (rule progress_setConfirmPrepared [OF assms])
        (use that \<open>d_currentPhase d = BallotPhasePrepare\<close> in \<open>simp add: quiet_def\<close>)
  qed
  show ?thesis
  proof (cases "d_currentPhase d \<noteq> BallotPhasePrepare \<or> d_pBallot d = None")
    case True
    then show ?thesis by (simp add: confirmPrepared_def)
  next
    case False
    then have "d_currentPhase d = BallotPhasePrepare" by simp
    from False p [OF this] show ?thesis
      unfolding confirmPrepared_def by (simp split: sum.split option.split prod.split)
  qed
qed

lemma quiet_record_commit:
  "d_currentPhase d \<noteq> BallotPhaseExternalize \<Longrightarrow> quiet d (snd (record_commit cb hb d))"
  by (simp add: record_commit_def quiet_defs Let_def)

lemma progress_enter_confirm: "progress d (snd (enter_confirm hb d))"
proof (cases "d_currentPhase d = BallotPhasePrepare")
  case False
  then show ?thesis by (simp add: enter_confirm_def)
next
  case True
  define d1 where "d1 = d\<lparr>d_currentPhase := BallotPhaseConfirm\<rparr>"
  define m where "m = (if d_currentBallot d1 \<noteq> None
      \<and> \<not> lessAndCompatibleBallots (Some (deref d hb)) (bal d1 (d_currentBallot d1))
    then updateBallot (Some (deref d hb)) False else retA ())"
  have d1: "progress d d1" using True by (auto simp: d1_def progress_def same_decree_def frozen_def)
  have q: "quiet d1 (snd (m d1))" by (simp add: m_def quiet_updateBallot)
  have "progress d1 (snd (bindA m (\<lambda>_. thenA (modifyA (\<lambda>d. reset (d_qBallot d) d)) (retA True)) d1))"
  proof (rule progress.frame_bind)
    show "progress d1 (snd (m d1))" by (rule quiet_progress [OF q])
    fix a t assume "m d1 = (Inr a, t)"
    then have "d_currentPhase t = BallotPhaseConfirm" using q by (simp add: quiet_def d1_def)
    then show "progress t (snd (thenA (modifyA (\<lambda>d. reset (d_qBallot d) d)) (retA True) t))"
      by (auto simp: thenA_def bindA_def reset_def quiet_defs intro!: quiet_progress split: option.splits)
  qed
  then have "progress d (snd (bindA m (\<lambda>_. thenA (modifyA (\<lambda>d. reset (d_qBallot d) d)) (retA True)) d1))"
    using d1 progress.frame_trans by blast
  then show ?thesis using True by (simp add: enter_confirm_def Let_def m_def d1_def)
qed

lemma progress_setAcceptCommit:
  assumes "\<And>d. progress d (snd (send d))" "d_currentPhase d \<noteq> BallotPhaseExternalize"
  shows "progress d (snd (setAcceptCommit send cb hb d))"
  unfolding setAcceptCommit_def
  by (intro progress.frame_bind progress.frame_then progress_enter_confirm
      quiet_progress [OF quiet_record_commit [OF assms(2)]])
    (auto intro!: progress.frame_then quiet_progress [OF quiet_updateBallotIfNeeded] assms(1))

lemma progress_acceptCommit:
  assumes "\<And>d. progress d (snd (send d))"
  shows "progress d (snd (acceptCommit env send stmt d))"
proof -
  have "progress d (snd (bindA (alloc x) (\<lambda>cb. bindA (alloc y) (\<lambda>hb. setAcceptCommit send cb hb)) d))"
    if "in_ballot_phase d" for x y
    using that
    by (auto intro!: progress_after_quiet quiet_alloc progress_setAcceptCommit assms
        simp: quiet_def in_ballot_phase_def)
  then show ?thesis
    unfolding acceptCommit_def Let_def by (auto split: option.splits sum.splits)
qed

lemma progress_setConfirmCommit:
  assumes "\<And>d. progress d (snd (send d))" "d_currentPhase d = BallotPhaseConfirm"
    and "cb < length (d_heap d)" "deref d cb = Ballot lb v" "deref d hb = Ballot rb v"
    and hb: "hb < length (d_heap d)"
    and "same_decree e d" "confirmed_commit env e b lb rb" "Value b = v"
  shows "progress d (snd (setConfirmCommit send cb hb d))"
proof -
  define d1 where "d1 = d\<lparr>d_cBallot := Some cb, d_hBallot := Some hb\<rparr>"
  have q1: "quiet d d1" using assms(2) by (simp add: d1_def quiet_defs)
  obtain r2 d2 where u: "updateBallotIfNeeded (Some hb) d1 = (r2, d2)"
    by (cases "updateBallotIfNeeded (Some hb) d1")
  have q2: "quiet d d2" using q1 quiet_updateBallotIfNeeded [of d1 "Some hb"] u quiet.frame_trans by simp
  have c2: "d_cBallot d2 = Some cb" "deref d2 cb = Ballot lb v"
    using updateBallotIfNeeded_commit [of d1 cb hb lb v rb r2 d2] u assms(3-5) hb
    by (simp_all add: d1_def deref_def)
  define d3 where "d3 = d2\<lparr>d_currentPhase := BallotPhaseExternalize\<rparr>"
  obtain r4 d4 where s: "dropA send d3 = (r4, d4)" by (cases "dropA send d3")
  have p4: "progress d3 d4" using assms(1) [of d3] s by (metis snd_act_simps(2) snd_conv)
  have ph: "d_currentPhase d \<noteq> BallotPhaseExternalize" using assms(2) by simp
  have c4: "d_externalizeChan d4 = d_externalizeChan d" "d_currentPhase d4 = BallotPhaseExternalize"
    "length (d_heap d) \<le> length (d_heap d4)"
    using p4 q2 rank_top by (auto simp: progress_def d3_def quiet_def)
  have "same_decree d3 d4" "same_decree d d3" using p4 q2 by (auto simp: progress_def d3_def quiet_def same_decree_def)
  then have sd4: "same_decree d d4" by (rule same_decree_trans [rotated])
  have b4: "d_cBallot d4 = Some cb" "deref d4 cb = Ballot lb v"
    using p4 c2 q2 assms(3) by (auto simp: progress_def d3_def frozen_def deref_def nth_append quiet_def)
  have fin: "progress d f" if "same_decree d4 f" "d_currentPhase f = BallotPhaseExternalize"
    "d_heap f = d_heap d4" "d_cBallot f = Some cb"
    "d_externalizeChan f = d_externalizeChan d4 \<or> d_externalizeChan f = d_externalizeChan d4 @ [(d_index d4, v)]"
    for f
  proof -
    have sdf: "same_decree d f" by (rule same_decree_trans [OF sd4 that(1)])
    have "externalized f [(d_index d4, v)]"
      unfolding externalized_def
      using that b4(2) c4(3) assms(3,8-9) same_decree_trans [OF assms(7) sdf]
      by (intro exI [of _ v] exI [of _ cb] exI [of _ env] exI [of _ e] exI [of _ b] exI [of _ lb] exI [of _ rb])
        (auto simp: same_decree_def deref_def)
    then show ?thesis
      using that c4 ph assms(2) sdf by (auto simp: progress_def frozen_def)
  qed
  have f4: "progress d d4" by (rule fin) (simp_all add: c4 b4 same_decree_def)
  have f5: "progress d (d4\<lparr>d_nominationStart := False\<rparr>)"
    by (rule fin) (simp_all add: c4 b4 same_decree_def)
  have f6: "progress d (d4\<lparr>d_nominationStart := False,
      d_externalizeChan := d_externalizeChan d4 @ [(d_index d4, v)]\<rparr>)"
    by (rule fin) (simp_all add: c4 b4 same_decree_def)
  have der: "bal (d4\<lparr>d_nominationStart := False\<rparr>) (Some cb) = Some (Ballot lb v)"
    using b4(2) by (simp add: bal_def deref_def)
  show ?thesis
    unfolding setConfirmCommit_def thenA_def bindA_def
    using quiet_progress [OF q2] f4 f5 f6 der
    by (auto simp: u s b4 d1_def [symmetric] d3_def [symmetric] split: sum.splits)
qed

lemma findCommitInterval_loop_ok:
  assumes "findCommitInterval_loop cs flt lb rb = Inr (l, r)" "lb \<noteq> 0 \<Longrightarrow> flt lb rb = Inr True" "l \<noteq> 0"
  shows "flt l r = Inr True"
  using assms
proof (induction cs arbitrary: lb rb)
  case Nil
  then show ?case by simp
next
  case (Cons c cs)
  show ?case
  proof (cases "lb \<noteq> 0 \<and> c > rb")
    case True
    with Cons show ?thesis by simp
  next
    case False
    define r' where "r' = (if lb = 0 then c else rb)"
    obtain ok where ok: "flt c r' = Inr ok"
      using Cons.prems(1) False by (cases "flt c r'") (auto simp: r'_def Let_def)
    show ?thesis
    proof (cases ok)
      case True
      then have "findCommitInterval_loop cs flt c r' = Inr (l, r)"
        using Cons.prems(1) ok False by (auto simp: r'_def Let_def)
      then show ?thesis using Cons.IH [of c r'] ok True Cons.prems(3) by simp
    next
      case nok: False
      then show ?thesis using Cons False ok by (cases "lb = 0") (auto simp: r'_def Let_def)
    qed
  qed
qed

lemma progress_confirmCommit:
  assumes "\<And>d. progress d (snd (send d))"
  shows "progress d (snd (confirmCommit env send stmt d))"
proof -
  have "progress d (snd (bindA (alloc (Ballot lb (Value ballot))) (\<lambda>cb.
      bindA (alloc (Ballot rb (Value ballot))) (\<lambda>hb. setConfirmCommit send cb hb)) d))"
    if "d_currentPhase d = BallotPhaseConfirm" "lb \<noteq> 0"
      "findCommitInterval cs (\<lambda>l r. fedRatifyB env (commitAcceptFilter ballot l r) d) = Inr (lb, rb)"
    for lb rb ballot cs
  proof -
    have "fedRatifyB env (commitAcceptFilter ballot lb rb) d = Inr True"
      using findCommitInterval_loop_ok [OF that(3) [unfolded findCommitInterval_def] _ that(2)] by simp
    then have conf: "confirmed_commit env d ballot lb rb" using that by (simp add: confirmed_commit_def)
    define e where "e = d\<lparr>d_heap := (d_heap d @ [Ballot lb (Value ballot)]) @ [Ballot rb (Value ballot)]\<rparr>"
    have "quiet d e" by (simp add: e_def quiet_defs)
    moreover have "progress e (snd (setConfirmCommit send (length (d_heap d)) (Suc (length (d_heap d))) e))"
      by (rule progress_setConfirmCommit [OF assms _ _ _ _ _ _ conf])
        (use that(1) in \<open>auto simp: e_def deref_def nth_append same_decree_def\<close>)
    ultimately have "progress d (snd (setConfirmCommit send (length (d_heap d)) (Suc (length (d_heap d))) e))"
      using progress.frame_trans quiet_progress by blast
    then show ?thesis by (simp add: bindA_def alloc_def e_def)
  qed
  then show ?thesis
    unfolding confirmCommit_def Let_def by (auto split: option.splits sum.splits)
qed

lemma progress_step:
  assumes "\<And>d. progress d (snd (send d))"
  shows "progress d (snd (step n env send stmt d))"
proof -
  have m: "progress e (e\<lparr>d_ballotMsgCount := k\<rparr>)"
    "progress e (case d_latestBallot e of None \<Rightarrow> e
       | Some s \<Rightarrow> if u then e\<lparr>d_statementChan := d_statementChan e @ [OutBallot s]\<rparr> else e)" for e k u
    by (auto intro!: quiet_progress simp: quiet_defs split: option.splits)
  have upd: "progress e (snd (if d_ballotMsgCount e = 1 then update_all n send False e else (Inr False, e)))"
    for e by (cases n) (auto simp del: update_all.simps(2))
  show ?thesis
  proof (cases "d_ballotMsgCount d + 1 = d_maxRecursions d")
    case True
    then show ?thesis by (simp add: step_def Let_def m)
  next
    case False
    show ?thesis
      unfolding step_def Let_def using False
      by (simp, intro progress.frame_trans [OF m(1) [of d "d_ballotMsgCount d + 1"]]
          progress.frame_bind progress.frame_then progress_acceptPrepared progress_confirmPrepared
          progress_acceptCommit progress_confirmCommit assms) (simp_all add: m upd)
  qed
qed

lemma progress_recv_body:
  assumes "\<And>d. progress d (snd (send d))"
  shows "progress d (snd (recv_body n env send stmt d))"
proof -
  have st: "progress d (d\<lparr>d_ballots := bs\<rparr>)" for d bs
    by (auto intro!: quiet_progress simp: quiet_defs)
  have go: "progress d (snd (thenA (modifyA (\<lambda>d. d\<lparr>d_ballots := AList.update k stmt (d_ballots d)\<rparr>))
      (errorfA p (step n env send stmt)) d))" for k p
    by (rule progress.frame_then) (simp_all add: st progress_step assms)
  show ?thesis
    unfolding recv_body_def by (simp add: st go split: sum.split)
qed

lemma progress_send_body:
  assumes "\<And>d stmt. progress d (snd (recv stmt d))"
  shows "progress d (snd (send_body recv d))"
proof -
  have st: "progress d (d\<lparr>d_latestBallot := l, d_statementChan := c\<rparr>)" for d l c
    by (auto intro!: quiet_progress simp: quiet_defs)
  have go: "progress d (snd (thenA (errorfA p (recv stmt)) (modifyA (\<lambda>d. if P d
      then d\<lparr>d_latestBallot := Some stmt, d_statementChan := d_statementChan d @ [OutBallot stmt]\<rparr>
      else d)) d))" for p stmt P
    by (rule progress.frame_then) (simp_all add: st assms)
  show ?thesis
    unfolding send_body_def by (simp add: go split: sum.split option.split)
qed

lemma progress_sendBallot: "progress d (snd (sendBallot n env d))"
  by (induction n arbitrary: d) (simp_all add: progress_send_body progress_recv_body)

lemma progress_recvBallot: "progress d (snd (recvBallot n env stmt d))"
  unfolding recvBallot_def
  by (intro progress.frame_bind quiet_progress quiet_alloc_payload progress_recv_body progress_sendBallot)


section \<open>The invariants of the ballots\<close>

definition ballots_ok :: "decree \<Rightarrow> bool" where
  "ballots_ok d \<longleftrightarrow>
     (let cur = bal d (d_currentBallot d); p = bal d (d_pBallot d); q = bal d (d_qBallot d);
          h = bal d (d_hBallot d); c = bal d (d_cBallot d)
      in (\<forall>b. cur = Some b \<longrightarrow> Counter b \<noteq> 0)
         \<and> (p \<noteq> None \<and> q \<noteq> None \<longrightarrow> lessAndIncompatibleBallots q p)
         \<and> (h \<noteq> None \<longrightarrow> lessAndCompatibleBallots h cur)
         \<and> (c \<noteq> None \<longrightarrow> lessAndCompatibleBallots c h \<and> lessAndCompatibleBallots h cur)
         \<and> (d_currentPhase d \<noteq> BallotPhasePrepare \<longrightarrow> c \<noteq> None))"

lemma compatible_None [simp]: "\<not> compatibleBallots x None" "\<not> compatibleBallots None y"
  by (cases x; simp) (cases y; simp)

text \<open>The check passes exactly on these states, and otherwise ends the process.\<close>

lemma checkBallotInvariants_ok: "checkBallotInvariants d = Inr () \<longleftrightarrow> ballots_ok d"
proof -
  have "compatibleBallots c h \<Longrightarrow> h \<noteq> None" for c h by (cases h) auto
  then show ?thesis
    unfolding checkBallotInvariants_def ballots_ok_def Let_def lessAndCompatibleBallots_def
      lessAndIncompatibleBallots_def
    by (cases "d_currentPhase d"; cases "bal d (d_currentBallot d)"; cases "bal d (d_hBallot d)";
        cases "bal d (d_cBallot d)") (simp_all del: compareBallots.simps)
qed

lemma checkBallotInvariants_fatal: "\<not> ballots_ok d \<Longrightarrow> \<exists>m. checkBallotInvariants d = Inl (Fatal m)"
proof -
  have "checkBallotInvariants d = Inr () \<or> (\<exists>m. checkBallotInvariants d = Inl (Fatal m))"
    unfolding checkBallotInvariants_def Let_def
    by (cases "d_currentPhase d") (simp_all split: option.split del: compareBallots.simps)
  then show "\<not> ballots_ok d \<Longrightarrow> ?thesis" by (auto simp: checkBallotInvariants_ok)
qed

lemma send_fatal: "\<not> ballots_ok d \<Longrightarrow> \<exists>m. sendBallot (Suc n) env d = (Inl (Fatal m), d)"
  using checkBallotInvariants_fatal [of d] by (auto simp: send_body_def)

lemma drop_send_fatal: "\<not> ballots_ok d \<Longrightarrow> \<exists>m. dropA (sendBallot (Suc n) env) d = (Inl (Fatal m), d)"
  using send_fatal [of d n env] by (auto simp: dropA_def)

lemma deref_reset: "r < length (d_heap d) \<Longrightarrow> deref (reset (Some r) d) r = zero_ballot"
  by (simp add: deref_def reset_def)

lemma deref_reset_other: "r \<noteq> r' \<Longrightarrow> deref (reset (Some r) d) r' = deref d r'"
  by (simp add: deref_def reset_def)

lemma reset_fields [simp]:
  "d_currentBallot (reset p d) = d_currentBallot d" "d_pBallot (reset p d) = d_pBallot d"
  "d_qBallot (reset p d) = d_qBallot d" "d_hBallot (reset p d) = d_hBallot d"
  "d_cBallot (reset p d) = d_cBallot d" "d_currentPhase (reset p d) = d_currentPhase d"
  by (auto simp: reset_def split: option.splits)

text \<open>Resetting an object that the commit ballot points to breaks the order of the ballots.\<close>

lemma reset_commit_breaks:
  assumes "d_cBallot d = Some c" "c < length (d_heap d)" "d_hBallot d = Some h"
    and "Value (deref d h) \<noteq> []"
    and "d_currentBallot d = Some k" "Value (deref d k) \<noteq> []"
  shows "\<not> ballots_ok (reset (Some c) d)"
proof
  let ?d = "reset (Some c) d"
  assume ok: "ballots_ok ?d"
  have ch: "compatibleBallots (Some (deref ?d c)) (Some (deref ?d h))"
    "compatibleBallots (Some (deref ?d h)) (Some (deref ?d k))" "Counter (deref ?d k) \<noteq> 0"
    using ok assms by (auto simp: ballots_ok_def bal_def lessAndCompatibleBallots_def Let_def)
  have z: "deref ?d c = zero_ballot" using assms(2) by (rule deref_reset)
  show False
  proof (cases "c = h")
    case False
    then have "deref ?d h = deref d h" by (rule deref_reset_other)
    with ch(1) z assms(4) show False by (simp add: zero_ballot_def)
  next
    case True
    then have "Value (deref ?d k) = []" using ch(2) z by (simp add: zero_ballot_def)
    moreover have "k \<noteq> c" using ch(3) z by (auto simp: zero_ballot_def)
    ultimately show False using deref_reset_other [of c k d] assms(6) by simp
  qed
qed

text \<open>
  C34. Aborting the commit ballot ends the process.  When an incompatible ballot above the high
  ballot is accepted as prepared, the commit ballot is reset to the zero ballot instead of being
  dropped, and the send that follows finds the order of the ballots broken and exits.
\<close>

theorem abort_commit_is_fatal:
  assumes "d_currentPhase d = BallotPhasePrepare"
    and "d_cBallot d = Some c" "c < length (d_heap d)" "d_hBallot d = Some h" "Value (deref d h) \<noteq> []"
    and "d_currentBallot d = Some k" "Value (deref d k) \<noteq> []"
    and "d_pBallot d = Some p" "lessAndIncompatibleBallots (bal d (Some h)) (bal d (Some p))"
  shows "\<exists>m. bindA (abort_commit upd) (\<lambda>u. thenA (if u then dropA (sendBallot (Suc n) env) else retA ())
      (retA u)) d = (Inl (Fatal m), reset (Some c) d)"
proof -
  have "abort_commit upd d = (Inr True, reset (Some c) d)"
    using assms by (simp add: abort_commit_def bal_def)
  moreover have "\<not> ballots_ok (reset (Some c) d)"
    using assms(2-7) by (rule reset_commit_breaks)
  ultimately show ?thesis
    using drop_send_fatal [of "reset (Some c) d" n env] by (auto simp: bindA_def thenA_def)
qed

text \<open>A decree for the examples: ballots 3 of value v (p), 2 of value u (h and c), 2 of value u (current).\<close>

definition sample_decree :: decree where
  "sample_decree =
     (case NewDecree 7 ''n'' (Quorum (Fin 1) [''n''] []) ''qh'' of
        Inl _ \<Rightarrow> undefined
      | Inr d \<Rightarrow> d\<lparr>d_heap := [Ballot 2 ''u'', Ballot 2 ''u'', Ballot 3 ''v''],
                  d_currentBallot := Some 0, d_hBallot := Some 1, d_cBallot := Some 1,
                  d_pBallot := Some 2\<rparr>)"

definition sample_env :: denv where
  "sample_env = \<lparr>e_GetQuorum = (\<lambda>_. Some (Quorum (Fin 1) [''n''] [])), e_LedgerSynced = True,
     e_NextLedgerHeaderSeq = 7, e_CurrConsensusValue = [], e_GetTxSet = (\<lambda>_. Some (TxSet [] [])),
     e_b58Decode = Inr, e_DecodeConsensusValue = (\<lambda>s. Inr (ConsensusValue s 0))\<rparr>"

theorem abort_commit_is_fatal_witness:
  "\<exists>m. bindA (abort_commit False) (\<lambda>u. thenA (if u then dropA (sendBallot (Suc 0) sample_env) else retA ())
      (retA u)) sample_decree = (Inl (Fatal m), reset (Some (Suc 0)) sample_decree)"
  by (rule abort_commit_is_fatal [where h = "Suc 0" and k = 0 and p = 2])
    (simp_all add: sample_decree_def NewDecree_def deref_def bal_def lessAndIncompatibleBallots_def)

lemma reset_high_breaks:
  assumes "updateBallot (Some v) chk d = (Inr (), d')" "d_hBallot d = Some h" "h < length (d_heap d)"
    and "Value (deref d h) \<noteq> Value v" "Value v \<noteq> []"
  shows "\<not> ballots_ok d'"
proof
  assume ok: "ballots_ok d'"
  have d': "d' = reset (Some h) (d\<lparr>d_heap := d_heap d @ [v], d_currentBallot := Some (length (d_heap d))\<rparr>)"
    using assms by (auto simp: updateBallot_def Let_def bal_def deref_def nth_append split: if_splits)
  have "compatibleBallots (Some (deref d' h)) (Some (deref d' (length (d_heap d))))"
    using ok assms(2) by (auto simp: ballots_ok_def bal_def lessAndCompatibleBallots_def Let_def d')
  moreover have "deref d' h = zero_ballot" "deref d' (length (d_heap d)) = v"
    using assms(3) by (simp_all add: d' deref_def reset_def)
  ultimately show False using assms(5) by (simp add: zero_ballot_def)
qed

text \<open>
  Moving to a ballot of another value while a ballot is confirmed as prepared ends the process:
  the high ballot is reset to the zero ballot, which is not compatible with the new current ballot,
  and the check of the invariants exits.
\<close>

theorem value_change_is_fatal:
  assumes "in_ballot_phase d" "d_currentBallot d = Some k" "d_cBallot d = None"
    and "d_hBallot d = Some h" "h < length (d_heap d)"
    and "Value (deref d h) \<noteq> Value b" "Value b \<noteq> []"
    and "compareBallots (Some (deref d k)) (Some b) \<le> 0"
  shows "\<exists>m. fst (updateBallotValue b d) = Inl (Fatal m)"
proof -
  obtain d' where u: "updateBallot (Some b) True d = (Inr (), d')"
    using assms(1,2,8) by (auto simp: updateBallot_def in_ballot_phase_def bal_def Let_def)
  have "\<not> ballots_ok d'" using u assms(4-7) by (rule reset_high_breaks)
  then obtain m where "checkBallotInvariants d' = Inl (Fatal m)" using checkBallotInvariants_fatal by blast
  with u assms(1-3,8) show ?thesis
    by (auto simp: updateBallotValue_def thenA_def bindA_def bal_def)
qed


theorem value_change_is_fatal_witness:
  "\<exists>m. fst (updateBallotValue (Ballot 3 ''w'') (sample_decree\<lparr>d_cBallot := None\<rparr>)) = Inl (Fatal m)"
  by (rule value_change_is_fatal [where k = 0 and h = 1])
    (simp_all add: sample_decree_def NewDecree_def deref_def in_ballot_phase_def)

text \<open>The two highest prepared ballots: q is below p and of another value.\<close>

definition pq_ok :: "decree \<Rightarrow> bool" where
  "pq_ok d \<longleftrightarrow> (\<forall>r. d_pBallot d = Some r \<longrightarrow> r < length (d_heap d))
     \<and> (\<forall>r. d_qBallot d = Some r \<longrightarrow> r < length (d_heap d))
     \<and> (d_qBallot d \<noteq> None \<longrightarrow> d_pBallot d \<noteq> None
          \<and> lessAndIncompatibleBallots (bal d (d_qBallot d)) (bal d (d_pBallot d)))"

lemma lai_extend:
  assumes "lessAndIncompatibleBallots q p" "compareBallots p b \<le> 0" "compatibleBallots p b"
  shows "lessAndIncompatibleBallots q b"
  using assms bcmp.cmp_trans [of q p b] compatible_trans [of q b p] compatible_sym [of b p]
  by (auto simp: lessAndIncompatibleBallots_def simp del: compareBallots.simps)

lemma bal_alloc: "r < length (d_heap d) \<Longrightarrow> deref (d\<lparr>d_heap := d_heap d @ [b]\<rparr>) r = deref d r"
  by (simp add: deref_def nth_append)

text \<open>
  C35. Accepting a ballot that is not skipped keeps the two highest prepared ballots in order: q
  stays below p and incompatible with it, and p never goes down.
\<close>

theorem setAcceptPrepared_keeps_order:
  assumes "pq_ok d" "\<not> skip_prepared d cand" "setAcceptPrepared cand d = (r, d')"
  shows "pq_ok d' \<and> compareBallots (bal d (d_pBallot d)) (bal d' (d_pBallot d')) \<le> 0"
proof (cases "d_pBallot d")
  case None
  then show ?thesis
    using assms by (auto simp: setAcceptPrepared_def pq_ok_def Let_def bal_def deref_def)
next
  case (Some p)
  define P where "P = deref d p"
  have p: "p < length (d_heap d)" using assms(1) Some by (simp add: pq_ok_def)
  have new: "d_heap d ! p = P" using P_def by (simp add: deref_def)
  have bp: "bal d (d_pBallot d) = Some P" using Some by (simp add: bal_def P_def)
  consider (low) "compareBallots (Some cand) (Some P) < 0" | (same) "compareBallots (Some cand) (Some P) = 0"
    | (high) "compareBallots (Some cand) (Some P) > 0" by linarith
  then show ?thesis
  proof cases
    case low
    then have inc: "\<not> compatibleBallots (Some cand) (Some P)"
      using assms(2) Some bp by (auto simp: skip_prepared_def lessAndCompatibleBallots_def simp del: compareBallots.simps)
    show ?thesis
    proof (cases "d_qBallot d = None \<or> compareBallots (Some cand) (bal d (d_qBallot d)) > 0")
      case True
      then have d': "d' = d\<lparr>d_heap := d_heap d @ [cand], d_qBallot := Some (length (d_heap d))\<rparr>"
        using assms(3) low inc Some bp by (auto simp: setAcceptPrepared_def Let_def simp del: compareBallots.simps)
      have "pq_ok d'" using p new low inc Some
        by (auto simp: pq_ok_def d' bal_def deref_def nth_append lessAndIncompatibleBallots_def simp del: compareBallots.simps)
      moreover have "bal d' (d_pBallot d') = Some P" using p new Some
        by (simp add: d' bal_def deref_def nth_append)
      ultimately show ?thesis using bp by (simp del: compareBallots.simps)
    next
      case False
      then have "d' = d" using assms(3) low Some bp
        by (auto simp: setAcceptPrepared_def Let_def simp del: compareBallots.simps)
      then show ?thesis using assms(1) by (simp del: compareBallots.simps)
    qed
  next
    case same
    then have "d' = d" using assms(3) Some bp
      by (auto simp: setAcceptPrepared_def Let_def simp del: compareBallots.simps)
    then show ?thesis using assms(1) by (simp del: compareBallots.simps)
  next
    case high
    then have le: "compareBallots (Some P) (Some cand) \<le> 0" using bcmp.cmp_swap [of "Some cand" "Some P"] by linarith
    define q' where "q' = (if compatibleBallots (Some cand) (Some P) then d_qBallot d else d_pBallot d)"
    have d': "d' = d\<lparr>d_heap := d_heap d @ [cand], d_qBallot := q', d_pBallot := Some (length (d_heap d))\<rparr>"
      using assms(3) high Some bp by (auto simp: setAcceptPrepared_def Let_def q'_def simp del: compareBallots.simps)
    have bp': "bal d' (d_pBallot d') = Some cand" by (simp add: d' bal_def deref_def)
    have "lessAndIncompatibleBallots (bal d' q') (Some cand) \<and> (\<forall>r. q' = Some r \<longrightarrow> r < length (d_heap d))"
      if q: "q' \<noteq> None"
    proof (cases "compatibleBallots (Some cand) (Some P)")
      case True
      then obtain x where x: "d_qBallot d = Some x" using q by (auto simp: q'_def)
      then have "x < length (d_heap d)" "lessAndIncompatibleBallots (Some (deref d x)) (Some P)"
        using assms(1) bp by (auto simp: pq_ok_def bal_def)
      then show ?thesis using x True le lai_extend [of "Some (deref d x)" "Some P" "Some cand"] compatible_sym
        by (auto simp: q'_def d' bal_def deref_def nth_append simp del: compareBallots.simps)
    next
      case False
      then show ?thesis using Some p new le compatible_sym
        by (auto simp: q'_def d' bal_def deref_def nth_append lessAndIncompatibleBallots_def simp del: compareBallots.simps)
    qed
    then have "pq_ok d'" using bp' by (auto simp: pq_ok_def d' less_SucI)
    then show ?thesis using bp bp' le by simp
  qed
qed


theorem setAcceptPrepared_keeps_order_witness:
  "pq_ok (snd (setAcceptPrepared (Ballot 4 ''w'') sample_decree))"
  using setAcceptPrepared_keeps_order [of sample_decree "Ballot 4 ''w''" _
      "snd (setAcceptPrepared (Ballot 4 ''w'') sample_decree)", OF _ _ prod.collapse [symmetric]]
  by (simp add: pq_ok_def skip_prepared_def sample_decree_def NewDecree_def bal_def deref_def
      lessAndCompatibleBallots_def)

text \<open>
  In the confirm phase the statement a node assembles after the check of its ballots passes the
  counter checks that every peer makes.
\<close>

theorem confirm_statement_valid:
  assumes "d_currentPhase d = BallotPhaseConfirm" "checkBallotInvariants d = Inr ()"
    and "make_ballot_stmt d = Inr (Some s)"
  shows "counters_error fromSelf (vst d s) = None"
proof -
  have ok: "ballots_ok d" using assms(2) by (simp add: checkBallotInvariants_ok)
  obtain p c h k where r: "d_pBallot d = Some p" "d_cBallot d = Some c" "d_hBallot d = Some h"
      "d_currentBallot d = Some k"
    and s: "s = BStmt (d_nodeID d) (d_index d)
        (Confirm k (Counter (deref d p)) (Counter (deref d c)) (Counter (deref d h)) (d_quorumHash d))"
    using assms(1,3) by (auto simp: make_ballot_stmt_def Let_def bindR_eq_Inr bal_def)
  have "Counter (deref d k) \<noteq> 0" "lessAndCompatibleBallots (Some (deref d c)) (Some (deref d h))"
    "lessAndCompatibleBallots (Some (deref d h)) (Some (deref d k))"
    using ok r by (auto simp: ballots_ok_def bal_def Let_def)
  then show ?thesis
    by (auto simp: s counters_error_def vst_def lessAndCompatibleBallots_def split: if_splits)
qed

theorem confirm_statement_valid_witness:
  "counters_error False (vst (sample_decree\<lparr>d_currentPhase := BallotPhaseConfirm\<rparr>)
     (BStmt ''n'' 7 (Confirm 0 3 2 2 ''qh''))) = None"
  by (rule confirm_statement_valid)
    (simp_all add: sample_decree_def NewDecree_def make_ballot_stmt_def checkBallotInvariants_def
      bal_def deref_def)

end
