(* ===== verification/Nomination.thy ===== *)
theory Nomination
  imports Decree Wire
begin

text \<open>
  The nomination protocol of \<open>consensus/decree.go\<close> and the transaction-set comparison of
  \<open>consensus/util.go\<close>: leader election, voting, promotion of votes to accepted values and to
  candidates, and the combination of the candidates into the value the ballot protocol starts with.
\<close>

unbundle bit_operations_syntax


section \<open>Environment\<close>

text \<open>
  What nomination asks of the rest of the node, beyond what ballots ask.  \<open>e_iter\<close> is the order in
  which a Go set is ranged over, which the language leaves open; \<open>e_sha256\<close> gives the 32 bytes of
  the digest.  A failing \<open>b58.Decode\<close> returns no bytes.
\<close>

record nenv = denv +
  e_iter :: "string set \<Rightarrow> string list"
  e_sha256 :: "string \<Rightarrow> string"
  e_CurrLedgerHeaderHash :: string
  e_GetTxSetKey :: "txset \<Rightarrow> string res"
  e_AddTxSet :: "string \<Rightarrow> txset \<Rightarrow> unit res"
  e_EncodeConsensusValue :: "consensus_value \<Rightarrow> string res"
  e_b58Encode :: "string \<Rightarrow> string"

definition decoded :: "nenv \<Rightarrow> string \<Rightarrow> string" where
  "decoded env s = (case e_b58Decode env s of Inl _ \<Rightarrow> [] | Inr b \<Rightarrow> b)"


section \<open>Hashes and priorities\<close>

text \<open>\<open>binary.PutUvarint\<close> writes at the start of the buffer.\<close>

definition PutUvarint :: "string \<Rightarrow> 64 word \<Rightarrow> string" where
  "PutUvarint buf x = (let e = uvarint (unat x) in e @ drop (length e) buf)"

text \<open>The digest read as a number of 64 bits: every byte shifts the earlier ones out.\<close>

definition SHA256HashUint64 :: "nenv \<Rightarrow> string \<Rightarrow> 64 word" where
  "SHA256HashUint64 env b =
     fold (\<lambda>c result. push_bit 8 result OR word_of_int (of_char c)) (e_sha256 env b) 0"

definition getNodeHash :: "nenv \<Rightarrow> decree \<Rightarrow> string \<Rightarrow> bool \<Rightarrow> 64 word" where
  "getNodeHash env d nodeID isPriority =
     (let buf = replicate 10 (char_of (0::nat));
          buf = PutUvarint buf (d_index d);
          buf = buf @ d_prevConsensusValue d;
          buf = (if isPriority then PutUvarint buf 2 else PutUvarint buf 1);
          buf = PutUvarint buf (word_of_int (d_nominationRound d));
          buf = buf @ nodeID
      in SHA256HashUint64 env buf)"

definition getConsensusValueHash :: "nenv \<Rightarrow> decree \<Rightarrow> string \<Rightarrow> 64 word" where
  "getConsensusValueHash env d vote =
     (let buf = replicate 10 (char_of (0::nat));
          buf = PutUvarint buf (d_index d);
          buf = buf @ d_prevConsensusValue d;
          buf = PutUvarint buf 3;
          buf = PutUvarint buf (word_of_int (d_nominationRound d));
          buf = buf @ vote
      in SHA256HashUint64 env buf)"

text \<open>The weight of a node: the threshold, scaled, of every level down to the node.\<close>

fun getNodeWeight :: "quorum \<Rightarrow> string \<Rightarrow> 64 word" where
  "getNodeWeight (Quorum t vs ns) nodeID =
     (if nodeID \<in> set vs
      then f64_to_uint64 (math_Ceil (f64_mul (f64_of_int MaxInt64) t))
      else case List.find (\<lambda>w. w > 0) (map (\<lambda>q. getNodeWeight q nodeID) ns) of
             None \<Rightarrow> 0
           | Some w \<Rightarrow> f64_to_uint64 (f64_mul (f64_of_int (uint w)) t))"

definition getNodePriority :: "nenv \<Rightarrow> decree \<Rightarrow> quorum \<Rightarrow> string \<Rightarrow> 64 word" where
  "getNodePriority env d quorum nodeID =
     (let weight = (if nodeID = d_nodeID d then - 1 else getNodeWeight quorum nodeID)
      in if weight > 0 \<and> getNodeHash env d nodeID False \<le> weight
         then getNodeHash env d nodeID True else 0)"

text \<open>One node of the loop that keeps the leaders of the highest priority so far.\<close>

definition leader_step ::
  "(string \<Rightarrow> 64 word) \<Rightarrow> string \<Rightarrow> 64 word \<times> string set \<Rightarrow> 64 word \<times> string set" where
  "leader_step prio node acc =
     (case acc of (topPriority, leaders) \<Rightarrow>
        (let priority = prio node;
             (topPriority, leaders) =
               (if priority > topPriority then (priority, {}) else (topPriority, leaders))
         in (topPriority,
             if priority > 0 \<and> priority = topPriority then insert node leaders else leaders)))"

definition round_leaders :: "nenv \<Rightarrow> decree \<Rightarrow> string set" where
  "round_leaders env d =
     (let quorum = normalizeQuorum (d_quorum d) (d_nodeID d);
          prio = getNodePriority env d quorum
      in snd (fold (leader_step prio) (getQuorumNodes quorum) (prio (d_nodeID d), {d_nodeID d})))"

text \<open>Normalising sorts in place what it shares with the quorum of the decree.\<close>

definition updateRoundLeaders :: "nenv \<Rightarrow> decree \<Rightarrow> decree" where
  "updateRoundLeaders env d =
     d\<lparr>d_nominationLeaders := d_nominationLeaders d \<union> round_leaders env d,
       d_quorum := normalized_in_place (d_quorum d)\<rparr>"


section \<open>Comparing transaction sets\<close>

definition xor_char :: "char \<Rightarrow> char \<Rightarrow> char" where
  "xor_char a b = char_of ((of_char a :: nat) XOR of_char b)"

text \<open>An index out of range panics.\<close>

definition bytesOr :: "nenv \<Rightarrow> string \<Rightarrow> string \<Rightarrow> string res" where
  "bytesOr env l r =
     (let lb = decoded env l; rb = decoded env r
      in if length lb \<le> length rb then Inr (map2 xor_char lb rb) else Inl (Panic ''rb[i]''))"

definition lessBytesOr :: "nenv \<Rightarrow> string \<Rightarrow> string \<Rightarrow> string \<Rightarrow> bool res" where
  "lessBytesOr env l r h =
     (let lb = decoded env l; rb = decoded env r; hb = decoded env h
      in if length hb \<le> length lb \<and> length hb \<le> length rb
         then Inr (map2 xor_char hb lb < map2 xor_char hb rb) else Inl (Panic ''lb[i]''))"

definition total_fees :: "int \<Rightarrow> tx list \<Rightarrow> int" where
  "total_fees baseFee txs =
     fold (\<lambda>tx acc. i64 (acc + min (tx_Fee tx) (i64 (baseFee * max 1 (int (length (tx_OpList tx))))))) txs 0"

definition compareTxSet ::
  "nenv \<Rightarrow> string \<Rightarrow> txset option \<Rightarrow> string \<Rightarrow> txset option \<Rightarrow> int \<Rightarrow> string \<Rightarrow> bool res" where
  "compareTxSet env ltsHash lts rtsHash rts baseFee hash =
     (case lts of
        None \<Rightarrow> Inr True
      | Some l \<Rightarrow>
          (case rts of
             None \<Rightarrow> Inr False
           | Some r \<Rightarrow>
               if length (ts_TxList l) < length (ts_TxList r) then Inr True
               else if length (ts_TxList l) > length (ts_TxList r) then Inr False
               else let lf = total_fees baseFee (ts_TxList l); rf = total_fees baseFee (ts_TxList r)
                    in if lf < rf then Inr True
                       else if lf > rf then Inr False
                       else lessBytesOr env ltsHash rtsHash hash))"


section \<open>Combining candidates\<close>

abbreviation GenesisBaseFee :: int where
  "GenesisBaseFee \<equiv> 1000"

text \<open>The first loop: the combined hash, the latest propose time and the decoded values.\<close>

fun decode_candidates ::
  "nenv \<Rightarrow> string list \<Rightarrow> string \<Rightarrow> int \<Rightarrow> consensus_value list
     \<Rightarrow> (string \<times> int \<times> consensus_value list) res" where
  "decode_candidates env [] hash time vals = Inr (hash, time, vals)"
| "decode_candidates env (cand # cands) hash time vals =
     bindR (errorf ''decode candidate failed: '' (e_b58Decode env cand)) (\<lambda>canb.
     bindR (bytesOr env hash (e_b58Encode env (e_sha256 env canb))) (\<lambda>hash'.
     bindR (errorf ''decode consensus value failed: '' (e_DecodeConsensusValue env canb)) (\<lambda>cv.
     decode_candidates env cands hash' (if ProposeTime cv > time then ProposeTime cv else time)
       (vals @ [cv]))))"

text \<open>The second loop: the transaction set that no later one beats.\<close>

fun choose_txset ::
  "nenv \<Rightarrow> string \<Rightarrow> consensus_value list \<Rightarrow> (string \<times> txset) option \<Rightarrow> (string \<times> txset) option res" where
  "choose_txset env hash [] best = Inr best"
| "choose_txset env hash (cv # cvs) best =
     (case e_GetTxSet env (TxSetHash cv) of
        None \<Rightarrow> choose_txset env hash cvs best
      | Some ts \<Rightarrow>
          if ts_PrevLedgerHash ts \<noteq> e_CurrLedgerHeaderHash env then choose_txset env hash cvs best
          else case best of
                 None \<Rightarrow> choose_txset env hash cvs (Some (TxSetHash cv, ts))
               | Some (bh, bts) \<Rightarrow>
                   bindR (compareTxSet env bh (Some bts) (TxSetHash cv) (Some ts) GenesisBaseFee hash)
                     (\<lambda>less. choose_txset env hash cvs
                        (if less then Some (TxSetHash cv, ts) else best)))"

definition combineCandidates :: "nenv \<Rightarrow> decree \<Rightarrow> string res" where
  "combineCandidates env d =
     bindR (decode_candidates env (e_iter env (d_candidates d)) [] 0 []) (\<lambda>(hash, time, vals).
     bindR (choose_txset env hash vals None) (\<lambda>best.
     case best of
       None \<Rightarrow> Inl (Error ''txset is nil after candidate combination.'')
     | Some (_, txset) \<Rightarrow>
         bindR (errorf ''compute tx set hash failed: '' (e_GetTxSetKey env txset)) (\<lambda>key.
         bindR (errorf ''sync quorum to validator failed: '' (e_AddTxSet env key txset)) (\<lambda>_.
         bindR (errorf ''encode combine consensus value failed: ''
                  (e_EncodeConsensusValue env (ConsensusValue key time))) (\<lambda>candb.
         Inr (e_b58Encode env candb))))))"


section \<open>Promoting votes\<close>

definition nomination_quorum :: "nenv \<Rightarrow> nstmt \<Rightarrow> quorum option res" where
  "nomination_quorum env stmt =
     (let hash = n_QuorumHash (ns_Stmt stmt)
      in if hash = [] then Inr None
         else case e_GetQuorum env hash of
                None \<Rightarrow> Inl (Fatal ''failed to get quorum of hash'')
              | Some q \<Rightarrow> Inr (Some q))"

definition fedAcceptN :: "nenv \<Rightarrow> string \<Rightarrow> decree \<Rightarrow> bool res" where
  "fedAcceptN env vote d =
     federatedAccept (d_quorum d) (nomination_quorum env)
       (\<lambda>s. voteFilter vote (ns_Stmt s)) (\<lambda>s. acceptFilter vote (ns_Stmt s)) (d_nominations d)"

definition fedRatifyN :: "nenv \<Rightarrow> string \<Rightarrow> decree \<Rightarrow> bool res" where
  "fedRatifyN env vote d =
     federatedRatify (d_quorum d) (nomination_quorum env)
       (\<lambda>s. acceptFilter vote (ns_Stmt s)) (d_nominations d)"

fun promote_accepts :: "nenv \<Rightarrow> string list \<Rightarrow> bool \<Rightarrow> bool dact" where
  "promote_accepts env [] updated d = (Inr updated, d)"
| "promote_accepts env (vote # votes) updated d =
     (if vote \<in> d_accepts d then promote_accepts env votes updated d
      else case fedAcceptN env vote d of
             Inl f \<Rightarrow> (Inl f, d)
           | Inr accepted \<Rightarrow>
               if \<not> accepted then promote_accepts env votes updated d
               else if \<not> isOk (validateConsensusValue (denv.truncate env) d vote)
                 then promote_accepts env votes updated d
               else promote_accepts env votes True
                      (d\<lparr>d_votes := insert vote (d_votes d), d_accepts := insert vote (d_accepts d)\<rparr>))"

fun promote_candidates :: "nenv \<Rightarrow> string list \<Rightarrow> bool \<Rightarrow> bool dact" where
  "promote_candidates env [] updated d = (Inr updated, d)"
| "promote_candidates env (accept # accepts) updated d =
     (if accept \<in> d_candidates d then promote_candidates env accepts updated d
      else case fedRatifyN env accept d of
             Inl f \<Rightarrow> (Inl f, d)
           | Inr ratified \<Rightarrow>
               if \<not> ratified then promote_candidates env accepts updated d
               else promote_candidates env accepts True
                      (d\<lparr>d_candidates := insert accept (d_candidates d)\<rparr>))"

definition promoteVotes :: "nenv \<Rightarrow> nominate \<Rightarrow> (bool \<times> bool) dact" where
  "promoteVotes env newNom =
     bindA (promote_accepts env (VoteList newNom) False) (\<lambda>acceptUpdated.
     bindA (promote_candidates env (AcceptList newNom) False) (\<lambda>candidateUpdated.
     retA (acceptUpdated, candidateUpdated)))"


section \<open>Receiving and sending nominations\<close>

text \<open>
  The two call each other.  \<open>sendB\<close> is the sending of a ballot, which \<open>updateBallotPhase\<close> needs;
  \<open>sendN\<close> is the sending of a nomination.
\<close>

definition store_nomination :: "nstmt \<Rightarrow> decree \<Rightarrow> decree" where
  "store_nomination stmt d =
     (case map_of (d_nominations d) (ns_NodeID stmt) of
        Some s \<Rightarrow>
          if isNewerNomination (Some (ns_Stmt s)) (ns_Stmt stmt)
          then d\<lparr>d_nominations := AList.update (ns_NodeID stmt) stmt (d_nominations d)\<rparr> else d
      | None \<Rightarrow> d\<lparr>d_nominations := AList.update (ns_NodeID stmt) stmt (d_nominations d)\<rparr>)"

definition start_ballot :: "nenv \<Rightarrow> unit dact \<Rightarrow> unit dact" where
  "start_ballot env sendB =
     bindA (\<lambda>d. (errorf ''combine candidates failed: '' (combineCandidates env d), d)) (\<lambda>compValue.
     thenA (modifyA (\<lambda>d. d\<lparr>d_latestComposite := compValue\<rparr>))
    (thenA (updateBallotPhase sendB compValue False) (retA ())))"

definition recvN_body :: "nenv \<Rightarrow> unit dact \<Rightarrow> unit dact \<Rightarrow> nstmt \<Rightarrow> unit dact" where
  "recvN_body env sendB sendN stmt d0 =
     (let nom = ns_Stmt stmt
      in if length (VoteList nom) + length (AcceptList nom) = 0
         then (Inl (Error ''vote and accept list is empty''), d0)
         else let d = store_nomination stmt d0
              in if \<not> d_nominationStart d then (Inr (), d)
                 else bindA (promoteVotes env nom) (\<lambda>(acceptUpdated, candidateUpdated).
                      thenA (if acceptUpdated then dropA sendN else retA ())
                            (if candidateUpdated then start_ballot env sendB else retA ())) d)"

definition own_nomination :: "nenv \<Rightarrow> decree \<Rightarrow> nstmt" where
  "own_nomination env d =
     NStmt (d_nodeID d) (d_index d)
       (Nominate (e_iter env (d_votes d)) (e_iter env (d_accepts d)) (d_quorumHash d))"

definition broadcast_nomination :: "nstmt \<Rightarrow> decree \<Rightarrow> decree" where
  "broadcast_nomination stmt d =
     (if isNewerNomination (map_option ns_Stmt (d_latestNomination d)) (ns_Stmt stmt)
      then d\<lparr>d_latestNomination := Some stmt,
             d_statementChan := d_statementChan d @ [OutNomination stmt]\<rparr>
      else d)"

primrec sendNomination :: "nat \<Rightarrow> nenv \<Rightarrow> unit dact \<Rightarrow> unit dact" where
  "sendNomination 0 env sendB d = (Inl OutOfFuel, d)"
| "sendNomination (Suc n) env sendB d =
     (let stmt = own_nomination env d
      in thenA (errorfA ''receive local nomination failed: ''
                  (recvN_body env sendB (sendNomination n env sendB) stmt))
               (modifyA (broadcast_nomination stmt)) d)"

definition recvNomination :: "nat \<Rightarrow> nenv \<Rightarrow> unit dact \<Rightarrow> nstmt \<Rightarrow> unit dact" where
  "recvNomination n env sendB stmt = recvN_body env sendB (sendNomination n env sendB) stmt"


section \<open>Nominating\<close>

text \<open>The vote of a leader with the highest hash that is valid and not voted for yet.\<close>

definition consider_vote ::
  "nenv \<Rightarrow> decree \<Rightarrow> string \<Rightarrow> 64 word \<times> string \<Rightarrow> 64 word \<times> string" where
  "consider_vote env d vote acc =
     (if \<not> isOk (validateConsensusValue (denv.truncate env) d vote) then acc
      else if vote \<in> d_votes d then acc
      else let hashVal = getConsensusValueHash env d vote
           in if hashVal > fst acc then (hashVal, vote) else acc)"

definition getConsensusValue :: "nenv \<Rightarrow> decree \<Rightarrow> nstmt \<Rightarrow> string" where
  "getConsensusValue env d stmt =
     snd (fold (consider_vote env d) (VoteList (ns_Stmt stmt)) (0, []))"

definition follow_leader :: "nenv \<Rightarrow> string \<Rightarrow> string \<Rightarrow> bool \<times> decree \<Rightarrow> bool \<times> decree" where
  "follow_leader env currHash leader acc =
     (case acc of (updated, d) \<Rightarrow>
        if leader = d_nodeID d
        then (if currHash \<in> d_votes d then (updated, d)
              else (True, d\<lparr>d_votes := insert currHash (d_votes d)\<rparr>))
        else case map_of (d_nominations d) leader of
               None \<Rightarrow> (updated, d)
             | Some stmt \<Rightarrow>
                 (let nomination = getConsensusValue env d stmt
                  in if nomination \<noteq> []
                     then (True, d\<lparr>d_votes := insert nomination (d_votes d)\<rparr>)
                     else (updated, d)))"

text \<open>\<open>renominate\<close> arms a timer whose handler nominates again with the same hashes.\<close>

definition renominate :: "string \<Rightarrow> string \<Rightarrow> decree \<Rightarrow> decree" where
  "renominate prevHash currHash d =
     (if \<not> d_nominationStart d then d
      else if d_renomCount d > d_maxRenomCount d then d
      else d\<lparr>d_renomCount := d_renomCount d + 1, d_timers := d_timers d @ [(prevHash, currHash)]\<rparr>)"

definition Nominate_decree ::
  "nat \<Rightarrow> nenv \<Rightarrow> unit dact \<Rightarrow> string \<Rightarrow> string \<Rightarrow> bool \<Rightarrow> unit dact" where
  "Nominate_decree n env sendB prevHash currHash isRenominate d =
     (if isRenominate \<and> \<not> d_nominationStart d then (Inr (), d)
      else let d1 = updateRoundLeaders env
                      (d\<lparr>d_nominationStart := True, d_nominationRound := d_nominationRound d + 1,
                         d_prevConsensusValue := prevHash\<rparr>);
               (updated, d2) = fold (follow_leader env currHash) (e_iter env (d_nominationLeaders d1))
                                 (False, d1);
               d3 = renominate prevHash currHash d2
           in if updated then errorfA ''send nomination failed: '' (sendNomination n env sendB) d3
              else (Inr (), d3))"

definition StopNomination :: "decree \<Rightarrow> decree" where
  "StopNomination d = d\<lparr>d_nominationStart := False\<rparr>"


section \<open>The entry points of a decree\<close>

datatype statement = NominationStmt nstmt | BallotStmt vstmt

definition Recv :: "nat \<Rightarrow> nenv \<Rightarrow> statement \<Rightarrow> unit dact" where
  "Recv n env stmt =
     (case stmt of
        NominationStmt s \<Rightarrow>
          errorfA ''recv nomination failed: ''
            (recvNomination n env (sendBallot n (denv.truncate env)) s)
      | BallotStmt s \<Rightarrow> errorfA ''recv ballot failed: '' (recvBallot n (denv.truncate env) s))"

definition GetLatestStatements :: "decree \<Rightarrow> outmsg list" where
  "GetLatestStatements d =
     (case d_latestNomination d of None \<Rightarrow> [] | Some s \<Rightarrow> [OutNomination s])
     @ (case d_latestBallot d of None \<Rightarrow> [] | Some s \<Rightarrow> [OutBallot s])"

text \<open>
  A decree is driven by received statements, by nominations and their timers, and by the end of the
  nomination; the node behind it may change between two of these.
\<close>

inductive decree_step :: "decree \<Rightarrow> decree \<Rightarrow> bool" where
  recv: "decree_step d (snd (Recv n env stmt d))"
| nominate: "decree_step d
    (snd (Nominate_decree n env (sendBallot n (denv.truncate env)) prevHash currHash renom d))"
| stop: "decree_step d (StopNomination d)"

inductive reachable :: "decree \<Rightarrow> decree \<Rightarrow> bool" where
  start: "reachable d d"
| more: "reachable d d' \<Longrightarrow> decree_step d' d'' \<Longrightarrow> reachable d d''"


section \<open>Nomination and the ballots\<close>

text \<open>Nomination changes its own fields only, until it starts the ballot protocol.\<close>

lemma quiet_promote_accepts: "quiet d (snd (promote_accepts env votes u d))"
proof (induction env votes u d rule: promote_accepts.induct)
  case (2 env vote votes u d)
  let ?d = "d\<lparr>d_votes := insert vote (d_votes d), d_accepts := insert vote (d_accepts d)\<rparr>"
  have "quiet d ?d" by (simp add: quiet_defs)
  with 2 show ?case by (auto split: sum.split intro: quiet.frame_trans)
qed simp

lemma quiet_promote_candidates: "quiet d (snd (promote_candidates env accs u d))"
proof (induction env accs u d rule: promote_candidates.induct)
  case (2 env acc accs u d)
  let ?d = "d\<lparr>d_candidates := insert acc (d_candidates d)\<rparr>"
  have "quiet d ?d" by (simp add: quiet_defs)
  with 2 show ?case by (auto split: sum.split intro: quiet.frame_trans)
qed simp

lemma quiet_promoteVotes: "quiet d (snd (promoteVotes env nom d))"
  unfolding promoteVotes_def
  by (intro quiet.frame_bind quiet_promote_accepts quiet_promote_candidates) simp

lemma progress_start_ballot:
  assumes "\<And>d. progress d (snd (sendB d))"
  shows "progress d (snd (start_ballot env sendB d))"
proof -
  have c: "progress d (d\<lparr>d_latestComposite := c\<rparr>)" for d c
    by (auto intro!: quiet_progress simp: quiet_defs)
  show ?thesis
    unfolding start_ballot_def
    by (intro progress.frame_bind progress.frame_then progress_updateBallotPhase assms) (simp_all add: c)
qed

lemma quiet_store_nomination: "quiet d (store_nomination stmt d)"
  by (auto simp: store_nomination_def quiet_defs split: option.split)

lemma progress_recvN_body:
  assumes "\<And>d. progress d (snd (sendB d))" "\<And>d. progress d (snd (sendN d))"
  shows "progress d (snd (recvN_body env sendB sendN stmt d))"
proof -
  let ?d = "store_nomination stmt d"
  have run: "progress ?d (snd (bindA (promoteVotes env nom) (\<lambda>(a, c).
      thenA (if a then dropA sendN else retA ()) (if c then start_ballot env sendB else retA ())) ?d))" for nom
    by (rule progress.frame_bind [OF quiet_progress [OF quiet_promoteVotes]])
      (auto split: prod.split intro!: progress.frame_then progress_start_ballot assms)
  have "progress d ?d" by (rule quiet_progress [OF quiet_store_nomination])
  then show ?thesis
    unfolding recvN_body_def Let_def using progress.frame_trans [OF _ run] by auto
qed

lemma progress_sendNomination:
  assumes "\<And>d. progress d (snd (sendB d))"
  shows "progress d (snd (sendNomination n env sendB d))"
proof (induction n arbitrary: d)
  case (Suc n)
  have b: "progress e (broadcast_nomination s e)" for e s
    by (auto intro!: quiet_progress simp: broadcast_nomination_def quiet_defs)
  show ?case
    unfolding sendNomination.simps Let_def
    by (rule progress.frame_then) (simp_all add: b progress_recvN_body assms Suc)
qed simp

lemma flat_in_place: "flat q \<or> flat (normalized_in_place q) \<Longrightarrow> normalized_in_place q = q"
  by (cases q) (auto simp: flat_def split: if_splits)

lemma quiet_updateRoundLeaders: "quiet d (updateRoundLeaders env d)"
  using flat_in_place by (auto simp: updateRoundLeaders_def quiet_defs same_quorum_def)

lemma quiet_follow_leader: "quiet d (snd (follow_leader env h l (u, d)))"
  by (auto simp: follow_leader_def quiet_defs Let_def split: option.split)

lemma quiet_follow_leaders: "quiet d (snd (fold (follow_leader env h) ls (u, d)))"
proof (induction ls arbitrary: u d)
  case (Cons l ls)
  obtain u' d' where f: "follow_leader env h l (u, d) = (u', d')" by (cases "follow_leader env h l (u, d)")
  have "quiet d d'" using quiet_follow_leader [of d env h l u] f by simp
  then show ?case using Cons [of d' u'] f quiet.frame_trans by simp
qed simp

lemma quiet_renominate: "quiet d (renominate p c d)"
  by (auto simp: renominate_def quiet_defs)

lemma progress_Nominate_decree:
  assumes "\<And>d. progress d (snd (sendB d))"
  shows "progress d (snd (Nominate_decree n env sendB p c r d))"
proof (cases "r \<and> \<not> d_nominationStart d")
  case True
  then show ?thesis by (simp add: Nominate_decree_def)
next
  case False
  let ?d0 = "d\<lparr>d_nominationStart := True, d_nominationRound := d_nominationRound d + 1, d_prevConsensusValue := p\<rparr>"
  let ?d1 = "updateRoundLeaders env ?d0"
  obtain u d2 where f: "fold (follow_leader env c) (e_iter env (d_nominationLeaders ?d1)) (False, ?d1) = (u, d2)"
    by (cases "fold (follow_leader env c) (e_iter env (d_nominationLeaders ?d1)) (False, ?d1)")
  have "quiet d ?d0" by (simp add: quiet_defs)
  moreover have "quiet ?d0 ?d1" by (rule quiet_updateRoundLeaders)
  moreover have "quiet ?d1 d2" using quiet_follow_leaders [of ?d1] f by (metis snd_conv)
  ultimately have "quiet d (renominate p c d2)"
    using quiet.frame_trans quiet_renominate by blast
  then have "progress d (renominate p c d2)" by (rule quiet_progress)
  then show ?thesis
    using False f progress.frame_trans [OF _ progress_sendNomination [OF assms]]
    by (auto simp: Nominate_decree_def Let_def)
qed

lemma progress_decree_step: "decree_step d d' \<Longrightarrow> progress d d'"
proof (induction rule: decree_step.induct)
  case (recv d n env stmt)
  then show ?case
    by (auto simp: Recv_def recvNomination_def split: statement.split
        intro!: progress_recvN_body progress_sendNomination progress_sendBallot progress_recvBallot)
next
  case (nominate d n env p c r)
  then show ?case by (intro progress_Nominate_decree progress_sendBallot)
next
  case (stop d)
  then show ?case by (auto intro!: quiet_progress simp: StopNomination_def quiet_defs)
qed

lemma progress_reachable: "reachable d d' \<Longrightarrow> progress d d'"
  by (induction rule: reachable.induct) (auto intro: progress.frame_trans progress_decree_step)

lemma NewDecree_fields:
  assumes "NewDecree i n q h = Inr d"
  shows "d_externalizeChan d = [] \<and> d_quorum d = q \<and> d_index d = i \<and> d_nodeID d = n"
  using assms by (auto simp: NewDecree_def split: if_splits)

text \<open>
  C2. A decree externalizes at most once, whatever statements it receives and in whatever order:
  in every state it can reach from a new decree, either nothing has been externalized, or exactly
  one value, for its own index, which is the value of the commit ballot it holds, and for which
  the acceptance of a commit was ratified in an earlier state of the decree.
\<close>

theorem externalizes_once:
  assumes "NewDecree index nodeID quorum quorumHash = Inr d0" "reachable d0 d"
  shows "d_externalizeChan d = [] \<or>
    (\<exists>v c. d_externalizeChan d = [(index, v)] \<and> d_currentPhase d = BallotPhaseExternalize
      \<and> d_cBallot d = Some c \<and> Value (deref d c) = v
      \<and> (\<exists>env e b lb rb. confirmed_commit env e b lb rb \<and> Value b = v))"
proof -
  have p: "progress d0 d" using assms(2) by (rule progress_reachable)
  have d0: "d_externalizeChan d0 = []" "d_index d0 = index" using NewDecree_fields [OF assms(1)] by auto
  from p d0 obtain xs where "d_externalizeChan d = xs" "d_index d = index"
    "xs \<noteq> [] \<longrightarrow> d_currentPhase d = BallotPhaseExternalize \<and> externalized d xs"
    by (auto simp: progress_def same_decree_def)
  then show ?thesis by (cases "xs = []") (simp, simp add: externalized_def, blast)
qed

theorem externalizes_once_witness:
  "\<exists>d0. NewDecree 7 ''n'' (Quorum (Fin 1) [''n''] []) ''qh'' = Inr d0
     \<and> d_externalizeChan (StopNomination d0) = []"
proof -
  obtain d0 where d0: "NewDecree 7 ''n'' (Quorum (Fin 1) [''n''] []) ''qh'' = Inr d0"
    by (simp add: NewDecree_def)
  have r: "reachable d0 (StopNomination d0)" by (rule reachable.more [OF reachable.start decree_step.stop])
  have "d_currentPhase (StopNomination d0) \<noteq> BallotPhaseExternalize"
    using d0 by (auto simp: NewDecree_def StopNomination_def)
  then show ?thesis using externalizes_once [OF d0 r] d0 by auto
qed


section \<open>Hashes\<close>

lemma PutUvarint_overwrites:
  assumes "length (uvarint (unat x)) \<le> length (uvarint (unat y))"
  shows "PutUvarint (PutUvarint buf x) y = PutUvarint buf y"
  using assms by (simp add: PutUvarint_def Let_def)

text \<open>
  The hash that decides whether a node may lead and the one that ranks the leaders are the
  same: the number that should tell them apart is written at the start of the buffer, and so are the
  index before it and the round after it.
\<close>

theorem getNodeHash_ignores_priority: "getNodeHash env d n True = getNodeHash env d n False"
proof -
  have "length (uvarint 1) = 1" "length (uvarint 2) = 1" by (subst uvarint.simps, simp)+
  moreover have "1 \<le> length (uvarint k)" for k using uvarint_nonempty [of k] by (cases "uvarint k") auto
  ultimately have "PutUvarint (PutUvarint buf 1) y = PutUvarint buf y"
    "PutUvarint (PutUvarint buf 2) y = PutUvarint buf y" for buf y
    by (simp_all add: PutUvarint_overwrites)
  then show ?thesis by (simp add: getNodeHash_def Let_def)
qed


section \<open>Promotion\<close>

text \<open>The votes that are promoted to accepted values, and the accepted values that become candidates.\<close>

definition newly_accepted :: "nenv \<Rightarrow> decree \<Rightarrow> nominate \<Rightarrow> string set" where
  "newly_accepted env d nom =
     {v \<in> set (VoteList nom). v \<notin> d_accepts d \<and> fedAcceptN env v d = Inr True
        \<and> isOk (validateConsensusValue (denv.truncate env) d v)}"

definition new_candidates :: "nenv \<Rightarrow> decree \<Rightarrow> nominate \<Rightarrow> string set" where
  "new_candidates env d nom =
     {v \<in> set (AcceptList nom). v \<notin> d_candidates d \<and> fedRatifyN env v d = Inr True}"

lemma fedN_fields [simp]:
  "fedAcceptN env v (d\<lparr>d_votes := a, d_accepts := b\<rparr>) = fedAcceptN env v d"
  "fedRatifyN env v (d\<lparr>d_votes := a, d_accepts := b\<rparr>) = fedRatifyN env v d"
  "fedRatifyN env v (d\<lparr>d_candidates := c\<rparr>) = fedRatifyN env v d"
  "validateConsensusValue env' (d\<lparr>d_votes := a, d_accepts := b\<rparr>) v = validateConsensusValue env' d v"
  by (simp_all add: fedAcceptN_def fedRatifyN_def validateConsensusValue_def validateConsensusValueFull_def)

lemma insert_Diff_union: "insert v (A \<union> (N - {v})) = insert v (A \<union> N)"
  by blast

lemma promote_accepts_run:
  assumes "promote_accepts env votes u d = (Inr u', d')"
  shows "d' = d\<lparr>d_votes := d_votes d \<union> newly_accepted env d (Nominate votes as h),
                d_accepts := d_accepts d \<union> newly_accepted env d (Nominate votes as h)\<rparr>
    \<and> u' = (u \<or> newly_accepted env d (Nominate votes as h) \<noteq> {})"
  using assms
proof (induction votes arbitrary: u d)
  case Nil
  then show ?case by (simp add: newly_accepted_def)
next
  case (Cons vote votes)
  let ?N = "newly_accepted env d (Nominate votes as h)"
  let ?M = "newly_accepted env d (Nominate (vote # votes) as h)"
  show ?case
  proof (cases "vote \<notin> d_accepts d \<and> fedAcceptN env vote d = Inr True
      \<and> isOk (validateConsensusValue (denv.truncate env) d vote)")
    case False
    then have "?M = ?N" by (auto simp: newly_accepted_def)
    moreover have "promote_accepts env votes u d = (Inr u', d')"
      using Cons.prems False by (auto split: if_splits sum.splits)
    ultimately show ?thesis using Cons.IH by presburger
  next
    case True
    let ?e = "d\<lparr>d_votes := insert vote (d_votes d), d_accepts := insert vote (d_accepts d)\<rparr>"
    have run: "promote_accepts env votes True ?e = (Inr u', d')" using Cons.prems True by simp
    have "newly_accepted env ?e (Nominate votes as h) = ?N - {vote}" by (auto simp: newly_accepted_def)
    moreover have "?M = insert vote ?N" using True by (auto simp: newly_accepted_def)
    moreover note Cons.IH [OF run]
    ultimately show ?thesis by (simp add: insert_Diff_union)
  qed
qed

lemma promote_candidates_run:
  assumes "promote_candidates env accs u d = (Inr u', d')"
  shows "d' = d\<lparr>d_candidates := d_candidates d \<union> new_candidates env d (Nominate vs accs h)\<rparr>
    \<and> u' = (u \<or> new_candidates env d (Nominate vs accs h) \<noteq> {})"
  using assms
proof (induction accs arbitrary: u d)
  case Nil
  then show ?case by (simp add: new_candidates_def)
next
  case (Cons acc accs)
  let ?N = "new_candidates env d (Nominate vs accs h)"
  let ?M = "new_candidates env d (Nominate vs (acc # accs) h)"
  show ?case
  proof (cases "acc \<notin> d_candidates d \<and> fedRatifyN env acc d = Inr True")
    case False
    then have "?M = ?N" by (auto simp: new_candidates_def)
    moreover have "promote_candidates env accs u d = (Inr u', d')"
      using Cons.prems False by (auto split: if_splits sum.splits)
    ultimately show ?thesis using Cons.IH by presburger
  next
    case True
    let ?e = "d\<lparr>d_candidates := insert acc (d_candidates d)\<rparr>"
    have run: "promote_candidates env accs True ?e = (Inr u', d')" using Cons.prems True by simp
    have "new_candidates env ?e (Nominate vs accs h) = ?N - {acc}" by (auto simp: new_candidates_def)
    moreover have "?M = insert acc ?N" using True by (auto simp: new_candidates_def)
    moreover note Cons.IH [OF run]
    ultimately show ?thesis by (simp add: insert_Diff_union)
  qed
qed

lemma promoteVotes_run:
  assumes "promoteVotes env nom d = (Inr (au, cu), d')"
  shows "d' = d\<lparr>d_votes := d_votes d \<union> newly_accepted env d nom,
                d_accepts := d_accepts d \<union> newly_accepted env d nom,
                d_candidates := d_candidates d \<union> new_candidates env d nom\<rparr>
    \<and> au = (newly_accepted env d nom \<noteq> {}) \<and> cu = (new_candidates env d nom \<noteq> {})"
proof (cases nom)
  case (Nominate vs accs h)
  obtain e where a: "promote_accepts env vs False d = (Inr au, e)"
    and c: "promote_candidates env accs False e = (Inr cu, d')"
    using assms Nominate by (auto simp: promoteVotes_def bindA_eq_Inr)
  note A = promote_accepts_run [OF a, of accs h]
  note C = promote_candidates_run [OF c, of vs h]
  have "new_candidates env e (nominate.Nominate vs accs h) = new_candidates env d (nominate.Nominate vs accs h)"
    using A by (simp add: new_candidates_def)
  then show ?thesis using A C Nominate by simp
qed

text \<open>
  Promotion does what federated voting says: exactly the votes of the nomination that are
  accepted by federated voting and valid are added, to the votes and to the accepted values, and
  exactly the accepted values of the nomination that are ratified become candidates; the two flags
  tell whether something was added.
\<close>

theorem promoteVotes_spec:
  assumes "promoteVotes env nom d = (Inr (au, cu), d')"
  shows "d' = d\<lparr>d_votes := d_votes d \<union> newly_accepted env d nom,
                d_accepts := d_accepts d \<union> newly_accepted env d nom,
                d_candidates := d_candidates d \<union> new_candidates env d nom\<rparr>
    \<and> au = (newly_accepted env d nom \<noteq> {}) \<and> cu = (new_candidates env d nom \<noteq> {})"
  using assms by (rule promoteVotes_run)


definition sample_nenv :: nenv where
  "sample_nenv = denv.extend sample_env
     \<lparr>e_iter = (\<lambda>S. sorted_list_of_set S), e_sha256 = (\<lambda>s. s), e_CurrLedgerHeaderHash = [],
       e_GetTxSetKey = (\<lambda>_. Inr ''key''), e_AddTxSet = (\<lambda>_ _. Inr ()),
       e_EncodeConsensusValue = (\<lambda>cv. Inr (TxSetHash cv)), e_b58Encode = (\<lambda>s. s)\<rparr>"

definition sample_nomination :: nstmt where
  "sample_nomination = NStmt ''n'' 7 (Nominate [''v''] [''v''] ''qh'')"

definition nominating_decree :: decree where
  "nominating_decree = sample_decree\<lparr>d_quorum := Quorum (Fin (1/2)) [''n''] [],
     d_nominations := [(''n'', sample_nomination)], d_nominationStart := True\<rparr>"

lemmas nomination_eval = sample_nenv_def sample_env_def sample_nomination_def nominating_decree_def
  sample_decree_def NewDecree_def denv.extend_def denv.truncate_def nodes_with_def voteFilter_def
  acceptFilter_def vblockThreshold_def sliceThreshold_def f64_eval quorum_check_def quorum_missing_def
  nomination_quorum_def shrink_eq shrink_step_def quorum_of_node_def isQuorumSlice_def qsize_def
  fedAcceptN_def fedRatifyN_def federatedAccept_def federatedRatify_def

theorem promoteVotes_spec_witness:
  "d_candidates (snd (promoteVotes sample_nenv (ns_Stmt sample_nomination) nominating_decree)) = {''v''}"
proof -
  have a: "fedAcceptN sample_nenv ''v'' nominating_decree = Inr True"
    and r: "fedRatifyN sample_nenv ''v'' nominating_decree = Inr True"
    and f: "d_accepts nominating_decree = {}" "d_candidates nominating_decree = {}"
    by (simp_all add: nomination_eval)
  have v: "isOk (validateConsensusValue (denv.truncate sample_nenv) nominating_decree ''v'')"
    by (simp add: nomination_eval validateConsensusValue_def validateConsensusValueFull_def)
  have "promoteVotes sample_nenv (ns_Stmt sample_nomination) nominating_decree
      = (Inr (True, True), snd (promoteVotes sample_nenv (ns_Stmt sample_nomination) nominating_decree))"
    using a r f v by (simp add: promoteVotes_def bindA_def sample_nomination_def)
  from promoteVotes_spec [OF this] show ?thesis
    using r f by (auto simp: new_candidates_def sample_nomination_def)
qed


section \<open>The recursion of nominations ends\<close>

text \<open>The library functions and the codecs return: they may fail, but they end.\<close>

definition env_returns :: "nenv \<Rightarrow> bool" where
  "env_returns env \<longleftrightarrow> (\<forall>s. ends (e_b58Decode env s)) \<and> (\<forall>s. ends (e_DecodeConsensusValue env s))
     \<and> (\<forall>t. ends (e_GetTxSetKey env t)) \<and> (\<forall>k t. ends (e_AddTxSet env k t))
     \<and> (\<forall>c. ends (e_EncodeConsensusValue env c))"

text \<open>Ranging over a finite set yields its elements.\<close>

definition iter_enumerates :: "nenv \<Rightarrow> bool" where
  "iter_enumerates env \<longleftrightarrow> (\<forall>S. finite S \<longrightarrow> set (e_iter env S) = S)"

lemma decode_candidates_ends:
  "env_returns env \<Longrightarrow> ends (decode_candidates env cs h t vs)"
  by (induction cs arbitrary: h t vs) (auto simp: env_returns_def bytesOr_def Let_def intro!: ends_bindR)

lemma choose_txset_ends: "ends (choose_txset env h cvs best)"
  by (induction cvs arbitrary: best)
    (auto simp: compareTxSet_def lessBytesOr_def Let_def split: option.split intro!: ends_bindR)

lemma combineCandidates_ends: "env_returns env \<Longrightarrow> ends (combineCandidates env d)"
  unfolding combineCandidates_def
  by (intro ends_bindR decode_candidates_ends)
    (auto simp: env_returns_def split: option.split prod.split intro!: choose_txset_ends ends_bindR)

lemma quorum_check_ends: "ends (quorum_check q gq stmts N)"
  by (simp add: quorum_check_def)

lemma fedN_ends: "ends (fedAcceptN env v d)" "ends (fedRatifyN env v d)"
  by (auto simp: fedAcceptN_def fedRatifyN_def federatedAccept_def federatedRatify_def Let_def quorum_check_ends)

lemma fedN_fail: "fedAcceptN env v d = Inl f \<Longrightarrow> f \<noteq> OutOfFuel" "fedRatifyN env v d = Inl f \<Longrightarrow> f \<noteq> OutOfFuel"
  using fedN_ends [of env v d] by (auto simp: ends_def)

lemma promoteVotes_returns: "returns (promoteVotes env nom) d"
proof -
  have a: "returns (promote_accepts env vs u) e" for vs u e
  proof (induction vs arbitrary: u e)
    case (Cons v vs)
    then show ?case by (auto simp: returns_def ends_def dest: fedN_fail split: sum.split)
  qed (simp add: returns_def)
  have c: "returns (promote_candidates env vs u) e" for vs u e
  proof (induction vs arbitrary: u e)
    case (Cons v vs)
    then show ?case by (auto simp: returns_def ends_def dest: fedN_fail split: sum.split)
  qed (simp add: returns_def)
  show ?thesis unfolding promoteVotes_def by (intro returns_bind a c) simp
qed

lemma checkBallotInvariants_ends: "ends (checkBallotInvariants d)"
  by (cases "ballots_ok d") (use checkBallotInvariants_ok checkBallotInvariants_fatal in force)+

lemma updateBallotPhase_returns:
  assumes "\<And>e. returns sendB e"
  shows "returns (updateBallotPhase sendB val force) d"
proof -
  have "returns (updateBallot b chk) e" for b chk e
    by (auto simp: returns_def updateBallot_def Let_def split: option.split)
  then have "returns (thenA (updateBallot b chk) (thenA (readA checkBallotInvariants) (retA x))) e"
    for b chk x e
    by (intro returns_then) (auto simp: returns_def checkBallotInvariants_ends)
  moreover have "returns (thenA (readA checkBallotInvariants) (retA x)) e" for x e
    by (intro returns_then) (auto simp: returns_def checkBallotInvariants_ends)
  ultimately have "returns (updateBallotValue b) e" for b e
    by (auto simp: returns_def updateBallotValue_def)
  then have "returns (bindA (updateBallotValue b) (\<lambda>u. thenA (if u then dropA sendB else retA ()) (retA u))) e"
    for b e
    using assms by (intro returns_bind returns_then) auto
  then have "returns (updateBallotPhaseWithCounter sendB val k) e" for k e
    by (auto simp: returns_def updateBallotPhaseWithCounter_def Let_def)
  then show ?thesis by (auto simp: returns_def updateBallotPhase_def Let_def)
qed

lemma start_ballot_returns:
  assumes "env_returns env" "\<And>e. returns sendB e"
  shows "returns (start_ballot env sendB) d"
  unfolding start_ballot_def
  by (intro returns_bind returns_then updateBallotPhase_returns assms)
    (simp_all add: returns_def combineCandidates_ends assms)

text \<open>The votes of a decree that are not accepted yet.\<close>

definition open_votes :: "decree \<Rightarrow> string set" where
  "open_votes d = d_votes d - d_accepts d"

lemma store_nomination_sets [simp]:
  "d_votes (store_nomination s d) = d_votes d" "d_accepts (store_nomination s d) = d_accepts d"
  by (auto simp: store_nomination_def split: option.split)

lemma sendNomination_returns:
  assumes "env_returns env" "iter_enumerates env" "\<And>e. returns sendB e"
  shows "finite (d_votes d) \<Longrightarrow> card (open_votes d) < n \<Longrightarrow> returns (sendNomination n env sendB) d"
proof (induction n arbitrary: d)
  case 0
  then show ?case by simp
next
  case (Suc n)
  define stmt where "stmt = own_nomination env d"
  define nom where "nom = ns_Stmt stmt"
  define d1 where "d1 = store_nomination stmt d"
  have votes: "set (VoteList nom) = d_votes d"
    using assms(2) Suc.prems(1) by (simp add: nom_def stmt_def own_nomination_def iter_enumerates_def)
  have next_send: "returns (if au then dropA (sendNomination n env sendB) else retA ()) e"
    if run: "promoteVotes env nom d1 = (Inr (au, cu), e)" for au cu e
  proof (cases au)
    case True
    let ?N = "newly_accepted env d1 nom"
    note sp = promoteVotes_run [OF run]
    have N: "?N \<subseteq> open_votes d" "?N \<noteq> {}"
      using votes sp True by (auto simp: newly_accepted_def open_votes_def d1_def)
    have e: "d_votes e = d_votes d \<union> ?N" "d_accepts e = d_accepts d \<union> ?N"
      using sp by (simp_all add: d1_def)
    then have o: "open_votes e = open_votes d - ?N" and f: "finite (d_votes e)"
      using N(1) Suc.prems(1) by (auto simp: open_votes_def intro: finite_subset)
    have "finite (open_votes d)" using Suc.prems(1) by (simp add: open_votes_def)
    then have "card (open_votes e) < card (open_votes d)"
      unfolding o using N by (intro psubset_card_mono) auto
    then have "card (open_votes e) < n" using Suc.prems(2) by simp
    then show ?thesis using Suc.IH [OF f] True by simp
  qed simp
  note accepted_send = next_send [where au = True, simplified]
  have "returns (bindA (promoteVotes env nom) (\<lambda>(au, cu).
      thenA (if au then dropA (sendNomination n env sendB) else retA ())
            (if cu then start_ballot env sendB else retA ()))) d1"
    by (intro returns_bind promoteVotes_returns)
      (auto split: prod.split intro!: returns_then start_ballot_returns assms intro: accepted_send)
  then have "returns (recvN_body env sendB (sendNomination n env sendB) stmt) d"
    by (auto simp: returns_def recvN_body_def Let_def nom_def d1_def)
  then have "returns (thenA (errorfA p (recvN_body env sendB (sendNomination n env sendB) stmt))
      (modifyA (broadcast_nomination stmt))) d" for p
    by (intro returns_then) auto
  then show ?case by (simp add: returns_def stmt_def Let_def)
qed




section \<open>Agreement\<close>

definition accepts_commit :: "string \<Rightarrow> vstmt \<Rightarrow> bool" where
  "accepts_commit v s =
     (case s_Stmt s of
        Prepare _ _ _ _ _ _ \<Rightarrow> False
      | Confirm b _ _ _ _ \<Rightarrow> Value b = v
      | Externalize b _ _ \<Rightarrow> Value b = v)"

lemma commitAcceptFilter_accepts: "commitAcceptFilter b l r s \<Longrightarrow> accepts_commit (Value b) s"
  by (cases "s_Stmt s") (auto simp: commitAcceptFilter_def accepts_commit_def)

lemma nodes_with_stmt: "k \<in> nodes_with flt stmts \<Longrightarrow> \<exists>s. (k, s) \<in> set stmts \<and> flt s"
  by (auto simp: nodes_with_def)

lemma externalized_commit:
  assumes "NewDecree i n q h = Inr d0" "reachable d0 d" "flat q" "(j, v) \<in> set (d_externalizeChan d)"
  obtains env e b lb rb where "same_decree e d" "d_quorum e = q" "Value b = v"
    "fedRatifyB env (commitAcceptFilter b lb rb) e = Inr True"
proof -
  have p: "progress d0 d" using assms(2) by (rule progress_reachable)
  have d0: "d_externalizeChan d0 = []" "d_quorum d0 = q" using NewDecree_fields [OF assms(1)] by auto
  from p d0 obtain xs where x: "d_externalizeChan d = xs" "xs \<noteq> [] \<longrightarrow> externalized d xs"
    "same_quorum q (d_quorum d)"
    by (auto simp: progress_def same_decree_def)
  have q: "d_quorum d = q" using x(3) assms(3) by (auto simp: same_quorum_def)
  have "externalized d xs" using x assms(4) by auto
  then obtain env e b lb rb where e: "same_decree e d" "confirmed_commit env e b lb rb" "Value b = v"
    using assms(4) x(1) by (auto simp: externalized_def)
  have "d_quorum e = q" using e(1) q assms(3) by (auto simp: same_decree_def same_quorum_def)
  with e that show ?thesis by (auto simp: confirmed_commit_def)
qed


text \<open>A node that trusts itself alone, told by itself that a value is externalized, externalizes it.\<close>

definition solo :: quorum where
  "solo = Quorum (Fin (1/2)) [''n''] []"

definition solo_env :: nenv where
  "solo_env = sample_nenv\<lparr>e_GetQuorum := (\<lambda>_. Some solo)\<rparr>"

definition solo_stmt :: statement where
  "solo_stmt = BallotStmt (BStmt ''n'' 7 (Externalize (Ballot 1 ''v'') 1 ''qh''))"

lemma solo_tests:
  "isVblocking solo S \<longleftrightarrow> ''n'' \<in> S" "isQuorumSlice solo S \<longleftrightarrow> ''n'' \<in> S"
  "isQuorumSlice (Quorum (Fin 1) [''n''] []) S \<longleftrightarrow> ''n'' \<in> S"
  "ValidateQuorum (Quorum (Fin 1) [''n''] []) 0 False = Inr ()"
  by (simp_all add: solo_def isQuorumSlice_def qsize_def vblockThreshold_def sliceThreshold_def f64_eval
      f64_le_def f64_eq_def)

lemma one_less_max: "(1 :: 32 word) < MaxUint32"
  by code_simp

lemmas solo_handlers = Recv_def recvBallot_def recv_body_def step_def acceptPrepared_def
  setAcceptPrepared_def abort_commit_def send_body_def make_ballot_stmt_def confirmPrepared_def
  commit_candidate_def adopt_prepared_def setConfirmPrepared_def updateBallotIfNeeded_def
  updateBallot_def acceptCommit_def setAcceptCommit_def record_commit_def enter_confirm_def reset_def
  confirmCommit_def setConfirmCommit_def checkBallotInvariants_def validateBallot_def
  validateConsensusValue_def validateConsensusValueFull_def update_noop

lemmas solo_votes = fedAcceptB_def federatedAccept_def fedRatifyB_def federatedRatify_def nodes_with_def
  quorum_check_def quorum_missing_def shrink_eq shrink_step_def quorum_of_node_def
  getStatementQuorum_def getSingletonQuorum_def prepareVoteFilter_def prepareAcceptFilter_def
  commitVoteFilter_def commitAcceptFilter_def getPreparedCandidates_def stmt_ballots_def
  ballots_below_def go_sort_def getCommitCounters_def commit_counters_of_def findCommitInterval_def
  commit_ballot_def skip_prepared_def

lemmas solo_data = solo_stmt_def solo_env_def sample_nenv_def sample_env_def denv.truncate_def
  denv.extend_def NewDecree_def alloc_payload_def alloc_def bindA_def thenA_def errorfA_def dropA_def
  vst_def view_def deref_def bal_def counters_error_def stmt_values_def in_ballot_phase_def
  zero_ballot_def lessAndIncompatibleBallots_def lessAndCompatibleBallots_def isNewerBallot_def
  getWorkingBallot_def Let_def one_less_max

lemma solo_externalizes:
  assumes "NewDecree 7 ''n'' solo ''qh'' = Inr d"
  shows "d_externalizeChan (snd (Recv (Suc (Suc 0)) solo_env solo_stmt d)) = [(7, ''v'')]"
  using assms
  by (simp add: solo_handlers solo_votes solo_data solo_tests del: isVblocking.simps ValidateQuorum.simps)
    (auto simp: solo_handlers solo_votes solo_data solo_tests simp del: isVblocking.simps ValidateQuorum.simps)



end
