(* ===== verification/StmtValidator.thy ===== *)
theory StmtValidator
  imports LedgerMgr Nomination
begin

text \<open>
  The validator of consensus statements, \<open>consensus/validator.go\<close>: a statement is passed on to the
  engine when the quorum and the transaction sets it names are known; otherwise they are asked of the
  peers and the statement waits.

  A channel is the list of what has been sent and not yet received: a sender that finds no room waits
  until the receiver takes something, which delays it and changes nothing else.
\<close>


section \<open>State\<close>

text \<open>
  The hash of a statement and the coding of quorums belong to the generated message code: they are
  parameters, with what the code relies on as \<open>quorum_codec\<close>.
\<close>

record vcfg =
  v_crypto :: crypto
  v_maxDecrees :: "64 word"
  v_hashStmt :: "statement \<Rightarrow> string res"
  v_encodeQuorum :: "quorum \<Rightarrow> string res"
  v_decodeQuorum :: "string \<Rightarrow> quorum res"

definition quorum_codec :: "vcfg \<Rightarrow> bool" where
  "quorum_codec c \<longleftrightarrow> (\<forall>q b. v_encodeQuorum c q = Inr b \<longrightarrow> v_decodeQuorum c b = Inr q)"

record validator =
  va_lm :: ledgermgr
  va_downloads :: "(string \<times> statement) list"
  va_decreeStmts :: "(64 word \<times> statement list) list"
  va_maxSeqNum :: "64 word"
  va_statements :: "string set"
  va_quorumCache :: "(string, quorum) lru"
  va_quorumDownloadChan :: "string list"
  va_txsetDownloadChan :: "string list"
  va_readyChan :: "statement list"
  va_dispatchChan :: "statement list"
  va_downloadChan :: "statement list"

definition VALIDATOR :: string where
  "VALIDATOR = ''VALIDATOR''"

definition onLm :: "(ledgermgr, 'a) act \<Rightarrow> (validator, 'a) act" where
  "onLm m s = (case m (va_lm s) of (r, t) \<Rightarrow> (r, s\<lparr>va_lm := t\<rparr>))"

abbreviation va_database :: "validator \<Rightarrow> db" where
  "va_database s \<equiv> lm_database (va_lm s)"

abbreviation onValidatorStore :: "(db, 'a) act \<Rightarrow> (validator, 'a) act" where
  "onValidatorStore m \<equiv> onLm (onLedgerStore m)"

definition newValidator :: "ledgermgr \<Rightarrow> validator" where
  "newValidator lm =
     \<lparr>va_lm = lm, va_downloads = [], va_decreeStmts = [], va_maxSeqNum = 0, va_statements = {}, va_quorumCache = [],
      va_quorumDownloadChan = [], va_txsetDownloadChan = [], va_readyChan = [], va_dispatchChan = [], va_downloadChan = []\<rparr>"

text \<open>The pointers and channels of the context are never nil here: the model holds the values themselves.\<close>

definition ValidateValidatorContext :: "vcfg \<Rightarrow> unit res" where
  "ValidateValidatorContext c = (if v_maxDecrees c = 0 then Inl (Error ''max decrees is zero'') else Inr ())"

definition NewValidator :: "vcfg \<Rightarrow> (ledgermgr, validator) act" where
  "NewValidator c =
     (case ValidateValidatorContext c of
        Inl f \<Rightarrow> failA (Fatal ''validator context is invalid: '')
      | Inr _ \<Rightarrow> thenA (onLedgerStore (mustBucket VALIDATOR)) (bindA (readA Inr) (\<lambda>lm. retA (newValidator lm))))"


section \<open>Quorums and transaction sets\<close>

definition RecvQuorum :: "vcfg \<Rightarrow> string \<Rightarrow> quorum \<Rightarrow> (validator, unit) act" where
  "RecvQuorum c quorumHash quorum =
     thenA (liftA (ValidateQuorum quorum 0 False))
    (bindA (liftA (errorf ''encode quorum failed: '' (v_encodeQuorum c quorum))) (\<lambda>qb.
     thenA (errorfA ''save quorum to db failed: '' (onValidatorStore (Put VALIDATOR quorumHash qb)))
    (modifyA (\<lambda>s. s\<lparr>va_quorumCache := lru_Add 1000 quorumHash quorum (va_quorumCache s)\<rparr>))))"

definition Validator_RecvTxSet :: "string \<Rightarrow> txset \<Rightarrow> (validator, unit) act" where
  "Validator_RecvTxSet txsetHash txset = onLm (AddTxSet txsetHash txset)"

definition Validator_GetTxSet :: "string \<Rightarrow> (validator, txset option) act" where
  "Validator_GetTxSet txsetHash = onLm (GetTxSet txsetHash)"

definition Validator_GetQuorum :: "vcfg \<Rightarrow> string \<Rightarrow> (validator, quorum option) act" where
  "Validator_GetQuorum c quorumHash s =
     (case lru_Get quorumHash (va_quorumCache s) of
        (Some q, k) \<Rightarrow> (Inr (Some q), s\<lparr>va_quorumCache := k\<rparr>)
      | (None, _) \<Rightarrow>
          (case errorf ''get quorum from db failed: '' (Get VALIDATOR quorumHash (va_database s)) of
             Inl f \<Rightarrow> (Inl f, s)
           | Inr None \<Rightarrow> (Inr None, s)
           | Inr (Some qb) \<Rightarrow>
               (case errorf ''decode quorum failed: '' (v_decodeQuorum c qb) of
                  Inl f \<Rightarrow> (Inl f, s)
                | Inr quorum \<Rightarrow>
                    (Inr (Some quorum), s\<lparr>va_quorumCache := lru_Add 1000 quorumHash quorum (va_quorumCache s)\<rparr>))))"


section \<open>What a statement names\<close>

fun stmt_index :: "statement \<Rightarrow> 64 word" where
  "stmt_index (NominationStmt s) = ns_Index s"
| "stmt_index (BallotStmt s) = s_Index s"

fun stmt_node :: "statement \<Rightarrow> string" where
  "stmt_node (NominationStmt s) = ns_NodeID s"
| "stmt_node (BallotStmt s) = s_NodeID s"

fun extractQuorumHash :: "statement \<Rightarrow> string" where
  "extractQuorumHash (NominationStmt s) = n_QuorumHash (ns_Stmt s)"
| "extractQuorumHash (BallotStmt s) = pl_QuorumHash (s_Stmt s)"

definition valueTxSetHash :: "vcfg \<Rightarrow> string \<Rightarrow> string res" where
  "valueTxSetHash c v =
     bindR (errorf ''decode hex string failed: '' (k_b58Decode (v_crypto c) v)) (\<lambda>b.
     bindR (errorf ''decode consensus value failed: '' (DecodeConsensusValue b)) (\<lambda>cv. Inr (TxSetHash cv)))"

fun extractTxSetHash :: "vcfg \<Rightarrow> statement \<Rightarrow> string list res" where
  "extractTxSetHash c (NominationStmt s) =
     collect (map (valueTxSetHash c) (VoteList (ns_Stmt s) @ AcceptList (ns_Stmt s)))"
| "extractTxSetHash c (BallotStmt s) = collect [valueTxSetHash c (Value (getWorkingBallot s))]"


section \<open>Receiving statements\<close>

fun haveTxSets :: "string list \<Rightarrow> (validator, bool) act" where
  "haveTxSets [] = retA True"
| "haveTxSets (txsetHash # hashes) =
     bindA (errorfA ''query txset failed: '' (onLm (GetTxSet txsetHash))) (\<lambda>txset.
     if txset = None then retA False else haveTxSets hashes)"

definition validate :: "vcfg \<Rightarrow> statement \<Rightarrow> (validator, bool) act" where
  "validate c stmt =
     bindA (errorfA ''query quorum failed: '' (Validator_GetQuorum c (extractQuorumHash stmt))) (\<lambda>quorum.
     if quorum = None then retA False
     else
       bindA (liftA (errorf ''extract tx list hash from statement failed: '' (extractTxSetHash c stmt))) (\<lambda>txsetHashes.
       haveTxSets txsetHashes))"

definition Validator_Recv :: "vcfg \<Rightarrow> statement option \<Rightarrow> (validator, unit) act" where
  "Validator_Recv c stmt =
     (case stmt of
        None \<Rightarrow> retA ()
      | Some stmt \<Rightarrow>
          bindA (liftA (errorf ''compute statement hash failed: '' (v_hashStmt c stmt))) (\<lambda>hash.
          bindA (readA Inr) (\<lambda>s.
          if hash \<in> va_statements s then retA ()
          else
            thenA (modifyA (\<lambda>s. s\<lparr>va_statements := insert hash (va_statements s)\<rparr>))
           (bindA (errorfA ''validate statement failed: '' (validate c stmt)) (\<lambda>valid.
            modifyA (\<lambda>s.
              if valid then s\<lparr>va_dispatchChan := va_dispatchChan s @ [stmt]\<rparr>
              else s\<lparr>va_downloadChan := va_downloadChan s @ [stmt],
                     va_downloads := AList.update hash stmt (va_downloads s)\<rparr>))))))"

text \<open>
  One tick of the monitor: the waiting statements are tried again, in the order of a map; the error of
  a test is dropped and counts as not valid.
\<close>

definition tryAgain :: "vcfg \<Rightarrow> string \<Rightarrow> (validator, unit) act" where
  "tryAgain c h s =
     (case map_of (va_downloads s) h of
        None \<Rightarrow> (Inr (), s)
      | Some stmt \<Rightarrow>
          (case validate c stmt s of
             (Inr True, t) \<Rightarrow>
               (Inr (), t\<lparr>va_dispatchChan := va_dispatchChan t @ [stmt], va_downloads := AList.delete h (va_downloads t)\<rparr>)
           | (Inr False, t) \<Rightarrow> (Inr (), t)
           | (Inl (Error _), t) \<Rightarrow> (Inr (), t)
           | (Inl f, t) \<Rightarrow> (Inl f, t)))"

fun monitorAll :: "vcfg \<Rightarrow> string list \<Rightarrow> (validator, unit) act" where
  "monitorAll c [] = retA ()"
| "monitorAll c (h # hs) = thenA (tryAgain c h) (monitorAll c hs)"

definition monitor :: "vcfg \<Rightarrow> (string list \<Rightarrow> string list) \<Rightarrow> (validator, unit) act" where
  "monitor c order = bindA (readA Inr) (\<lambda>s. monitorAll c (order (map fst (va_downloads s))))"


section \<open>Dispatching\<close>

text \<open>
  The statements cached for the indices from the next ledger to the largest one.  The loop counts up
  in 64 bits, so that with the largest index as its bound it does not end: the fuel is the number of
  turns it may take.
\<close>

fun dispatchFrom :: "nat \<Rightarrow> 64 word \<Rightarrow> (validator, unit) act" where
  "dispatchFrom 0 i = failA OutOfFuel"
| "dispatchFrom (Suc fuel) i = (\<lambda>s.
     if i \<le> va_maxSeqNum s then
       (case map_of (va_decreeStmts s) i of
          None \<Rightarrow> dispatchFrom fuel (i + 1) s
        | Some [] \<Rightarrow> dispatchFrom fuel (i + 1) s
        | Some stmts \<Rightarrow>
            dispatchFrom fuel (i + 1)
              (s\<lparr>va_readyChan := va_readyChan s @ stmts, va_decreeStmts := AList.update i [] (va_decreeStmts s)\<rparr>))
     else (Inr (), s))"

text \<open>The index is computed anew in every turn, so that the second turn ends the loop.\<close>

function removeOld :: "64 word \<Rightarrow> 64 word \<Rightarrow> (64 word \<times> 's) list \<Rightarrow> (64 word \<times> 's) list" where
  "removeOld nextSeqNum maxDecrees stmts =
     (if nextSeqNum \<le> maxDecrees then stmts
      else if map_of stmts (nextSeqNum - maxDecrees) \<noteq> None
      then removeOld nextSeqNum maxDecrees (AList.delete (nextSeqNum - maxDecrees) stmts)
      else stmts)"
  by pat_completeness auto
termination
proof (relation "measure (\<lambda>(_, _, stmts). length stmts)")
  fix n m :: "64 word" and stmts :: "(64 word \<times> 's) list"
  assume "map_of stmts (n - m) \<noteq> None"
  then obtain v where "map_of stmts (n - m) = Some v" by blast
  then show "((n, m, AList.delete (n - m) stmts), n, m, stmts) \<in> measure (\<lambda>(_, _, stmts). length stmts)"
    using length_delete_present [of stmts "n - m" v] by simp
qed simp

declare removeOld.simps [simp del]

definition dispatchTick :: "vcfg \<Rightarrow> nat \<Rightarrow> (validator, unit) act" where
  "dispatchTick c fuel =
     bindA (readA Inr) (\<lambda>s.
     let nextSeqNum = NextLedgerHeaderSeq (va_lm s) in
     thenA (dispatchFrom fuel nextSeqNum)
    (modifyA (\<lambda>s. s\<lparr>va_decreeStmts := removeOld nextSeqNum (v_maxDecrees c) (va_decreeStmts s)\<rparr>)))"

definition pendingStmts :: "64 word \<Rightarrow> validator \<Rightarrow> statement list" where
  "pendingStmts i s = (case map_of (va_decreeStmts s) i of None \<Rightarrow> [] | Some stmts \<Rightarrow> stmts)"

definition dispatchStmt :: "(validator, unit) act" where
  "dispatchStmt s =
     (case va_dispatchChan s of
        [] \<Rightarrow> (Inl (Blocked ''v.dispatchChan''), s)
      | stmt # stmts \<Rightarrow>
          let s = s\<lparr>va_dispatchChan := stmts\<rparr>; i = stmt_index stmt
          in if i = NextLedgerHeaderSeq (va_lm s)
             then (Inr (), s\<lparr>va_readyChan := va_readyChan s @ [stmt]\<rparr>)
             else (Inr (), s\<lparr>va_decreeStmts := AList.update i (pendingStmts i s @ [stmt]) (va_decreeStmts s),
                    va_maxSeqNum := (if i > va_maxSeqNum s then i else va_maxSeqNum s)\<rparr>))"


section \<open>Downloading what is missing\<close>

text \<open>The errors are dropped; what could not be read is nil and is asked for.\<close>

definition orNil :: "('s, 'a option) act \<Rightarrow> ('s, 'a option) act" where
  "orNil m s = (case m s of (Inl (Error _), t) \<Rightarrow> (Inr None, t) | r \<Rightarrow> r)"

fun askTxSets :: "string list \<Rightarrow> (validator, unit) act" where
  "askTxSets [] = retA ()"
| "askTxSets (txsetHash # hashes) =
     bindA (orNil (onLm (GetTxSet txsetHash))) (\<lambda>txset.
     thenA (if txset = None then modifyA (\<lambda>s. s\<lparr>va_txsetDownloadChan := va_txsetDownloadChan s @ [txsetHash]\<rparr>) else retA ())
    (askTxSets hashes))"

definition askMissing :: "vcfg \<Rightarrow> statement \<Rightarrow> (validator, unit) act" where
  "askMissing c stmt =
     bindA (orNil (Validator_GetQuorum c (extractQuorumHash stmt))) (\<lambda>quorum.
     thenA (if quorum = None
            then modifyA (\<lambda>s. s\<lparr>va_quorumDownloadChan := va_quorumDownloadChan s @ [extractQuorumHash stmt]\<rparr>) else retA ())
    (askTxSets (case extractTxSetHash c stmt of Inl _ \<Rightarrow> [] | Inr hashes \<Rightarrow> hashes)))"

definition download_step :: "vcfg \<Rightarrow> (validator, unit) act" where
  "download_step c s =
     (case va_downloadChan s of
        [] \<Rightarrow> (Inl (Blocked ''v.downloadChan''), s)
      | stmt # stmts \<Rightarrow> askMissing c stmt (s\<lparr>va_downloadChan := stmts\<rparr>))"

end
