(* ===== verification/Engine.thy ===== *)
theory Engine
  imports StmtValidator
begin

text \<open>
  The consensus engine, \<open>consensus/engine.go\<close>: it drives the decrees with the statements that the
  validator passes on, proposes the pending transactions, hands externalized values to the ledger
  manager and answers the validator's requests for quorums and transaction sets with queries to the
  peers.  It holds the validator, which holds the ledger manager, which holds the transaction manager,
  which holds the store.
\<close>


section \<open>State\<close>

text \<open>
  What an engine is created with.  The hash of a quorum and the encoding of a statement belong to the
  generated message code.  \<open>g_iter\<close> is the order in which Go ranges over a set, and \<open>g_fuel\<close> bounds the
  nesting of the calls of a decree.
\<close>

record ecfg =
  g_validator :: vcfg
  g_tx :: txcfg
  g_close :: "64 word \<Rightarrow> int"
  g_networkID :: string
  g_seed :: string
  g_nodeID :: string
  g_role :: string
  g_quorum :: quorum
  g_proposeInterval :: int
  g_hashQuorum :: "quorum \<Rightarrow> string res"
  g_encodeStmt :: "statement \<Rightarrow> string res"
  g_iter :: "string set \<Rightarrow> string list"
  g_fuel :: nat

abbreviation g_crypto :: "ecfg \<Rightarrow> crypto" where
  "g_crypto c \<equiv> v_crypto (g_validator c)"

abbreviation g_maxDecrees :: "ecfg \<Rightarrow> 64 word" where
  "g_maxDecrees c \<equiv> v_maxDecrees (g_validator c)"

text \<open>Times are in seconds; \<open>en_timers\<close> are the waits after which a proposal is due.\<close>

record engine =
  en_validator :: validator
  en_quorumHash :: string
  en_decrees :: "(64 word \<times> decree) list"
  en_statementChan :: "statement list"
  en_externalizeChan :: "(64 word \<times> string) list"
  en_lastExtTime :: int
  en_lastProposeTime :: int
  en_timers :: "int list"

abbreviation en_lm :: "engine \<Rightarrow> ledgermgr" where
  "en_lm e \<equiv> va_lm (en_validator e)"

abbreviation en_tm :: "engine \<Rightarrow> txmgr" where
  "en_tm e \<equiv> lm_tm (en_lm e)"

definition onValidator :: "(validator, 'a) act \<Rightarrow> (engine, 'a) act" where
  "onValidator m e = (case m (en_validator e) of (r, v) \<Rightarrow> (r, e\<lparr>en_validator := v\<rparr>))"

definition ENGINE :: string where
  "ENGINE = ''ENGINE''"

definition ValidateEngineContext :: "ecfg \<Rightarrow> unit res" where
  "ValidateEngineContext c =
     (if g_networkID c = [] then Inl (Error ''network id is empty'')
      else if g_seed c = [] then Inl (Error ''empty node seed'')
      else if g_nodeID c = [] then Inl (Error ''empty node ID'')
      else if g_role c = [] then Inl (Error ''empty node role'')
      else if g_maxDecrees c = 0 then Inl (Error ''max decrees is zero'')
      else if g_proposeInterval c \<le> 0 then Inl (Error ''propose interval is invalid'')
      else Inr ())"

definition NewEngine :: "ecfg \<Rightarrow> int \<Rightarrow> (ledgermgr, engine) act" where
  "NewEngine c now =
     (case ValidateEngineContext c of
        Inl f \<Rightarrow> failA (Fatal ''engine context is invalid: '')
      | Inr _ \<Rightarrow>
        case g_hashQuorum c (g_quorum c) of
          Inl f \<Rightarrow> failA (Fatal ''compute quorum hash failed'')
        | Inr quorumHash \<Rightarrow>
            bindA (NewValidator (g_validator c)) (\<lambda>v.
            thenA (onLedgerStore (mustBucket ENGINE)) (bindA (readA Inr) (\<lambda>lm.
            retA \<lparr>en_validator = v\<lparr>va_lm := lm\<rparr>, en_quorumHash = quorumHash, en_decrees = [], en_statementChan = [],
              en_externalizeChan = [], en_lastExtTime = now, en_lastProposeTime = 0, en_timers = []\<rparr>))))"


section \<open>What a decree asks of the node\<close>

text \<open>
  A lookup that fails or finds nil.  The decrees read the validator as it is when they are called: the
  order of use inside the caches does not change with their lookups.  Combining candidates stores a
  clone of the chosen transaction set under the key of the set, which is where it was found; the write
  is a step of its own in the theory on the engine's properties.
\<close>

definition found :: "('s, 'a option) act \<Rightarrow> 's \<Rightarrow> 'a option" where
  "found m s = (case fst (m s) of Inl _ \<Rightarrow> None | Inr r \<Rightarrow> r)"

definition decreeEnv :: "ecfg \<Rightarrow> validator \<Rightarrow> nenv" where
  "decreeEnv c v =
     \<lparr>e_GetQuorum = (\<lambda>h. found (Validator_GetQuorum (g_validator c) h) v),
      e_LedgerSynced = LedgerSynced (va_lm v),
      e_NextLedgerHeaderSeq = NextLedgerHeaderSeq (va_lm v),
      e_CurrConsensusValue = (case lm_currLedgerHeader (va_lm v) of None \<Rightarrow> [] | Some h \<Rightarrow> lh_ConsensusValue h),
      e_GetTxSet = (\<lambda>h. found (Validator_GetTxSet h) v),
      e_b58Decode = k_b58Decode (g_crypto c),
      e_DecodeConsensusValue = DecodeConsensusValue,
      e_iter = g_iter c,
      e_sha256 = k_sha256 (g_crypto c),
      e_CurrLedgerHeaderHash = lm_currLedgerHeaderHash (va_lm v),
      e_GetTxSetKey = GetTxSetKey (g_crypto c),
      e_AddTxSet = (\<lambda>h t. fst (AddTxSet h t (va_lm v))),
      e_EncodeConsensusValue = EncodeConsensusValue,
      e_b58Encode = k_b58Encode (g_crypto c)\<rparr>"

text \<open>A message that a decree sends, with the ballots its pointers refer to.\<close>

fun resolve :: "decree \<Rightarrow> outmsg \<Rightarrow> statement" where
  "resolve d (OutNomination s) = NominationStmt s"
| "resolve d (OutBallot r) = BallotStmt (vst d r)"

text \<open>Work on a decree: what it sent and externalized goes to the channels of the engine.\<close>

definition onDecree :: "64 word \<Rightarrow> unit dact \<Rightarrow> (engine, unit) act" where
  "onDecree idx m e =
     (case map_of (en_decrees e) idx of
        None \<Rightarrow> (Inl (Panic ''decree''), e)
      | Some d \<Rightarrow>
          (case m d of
             (r, d') \<Rightarrow>
               (r, e\<lparr>en_decrees := AList.update idx d' (en_decrees e),
                     en_statementChan := en_statementChan e @
                       map (resolve d') (drop (length (d_statementChan d)) (d_statementChan d')),
                     en_externalizeChan := en_externalizeChan e @
                       drop (length (d_externalizeChan d)) (d_externalizeChan d')\<rparr>)))"

definition getDecree :: "ecfg \<Rightarrow> 64 word \<Rightarrow> bool \<Rightarrow> (engine, unit) act" where
  "getDecree c idx create e =
     (if map_of (en_decrees e) idx \<noteq> None then (Inr (), e)
      else if \<not> create then (Inl (Error ''decree not exist''), e)
      else
        (case NewDecree idx (g_nodeID c) (g_quorum c) (en_quorumHash e) of
           Inl f \<Rightarrow> (Inl f, e)
         | Inr d \<Rightarrow> (Inr (), e\<lparr>en_decrees := AList.update idx d (en_decrees e)\<rparr>)))"

definition sendBallotOf :: "ecfg \<Rightarrow> nenv \<Rightarrow> unit dact" where
  "sendBallotOf c env = sendBallot (g_fuel c) (denv.truncate env)"

text \<open>The error of nominating is dropped.\<close>

definition Engine_nominate :: "ecfg \<Rightarrow> 64 word \<Rightarrow> string \<Rightarrow> string \<Rightarrow> (engine, unit) act" where
  "Engine_nominate c idx prevValue currValue =
     thenA (errorfA ''get decree failed: '' (getDecree c idx True))
    (bindA (readA Inr) (\<lambda>e.
     let env = decreeEnv c (en_validator e)
     in dropA (onDecree idx (Nominate_decree (g_fuel c) env (sendBallotOf c env) prevValue currValue False))))"

text \<open>A timer of a decree fires.\<close>

definition renominateStep :: "ecfg \<Rightarrow> 64 word \<Rightarrow> string \<Rightarrow> string \<Rightarrow> (engine, unit) act" where
  "renominateStep c idx prevValue currValue =
     bindA (readA Inr) (\<lambda>e.
     let env = decreeEnv c (en_validator e)
     in dropA (onDecree idx (Nominate_decree (g_fuel c) env (sendBallotOf c env) prevValue currValue True)))"


section \<open>Statements\<close>

definition RecvStatement :: "ecfg \<Rightarrow> statement \<Rightarrow> (engine, unit) act" where
  "RecvStatement c stmt =
     (if stmt_node stmt = g_nodeID c then retA ()
      else errorfA ''send statement to validator failed: '' (onValidator (Validator_Recv (g_validator c) (Some stmt))))"

text \<open>A ready statement: one that is too old is skipped, in the arithmetic of 64 bits; errors are logged.\<close>

definition handleReady :: "ecfg \<Rightarrow> (engine, unit) act" where
  "handleReady c e =
     (case va_readyChan (en_validator e) of
        [] \<Rightarrow> (Inl (Blocked ''e.validator.Ready''), e)
      | stmt # stmts \<Rightarrow>
          let v = (en_validator e)\<lparr>va_readyChan := stmts\<rparr>; e = e\<lparr>en_validator := v\<rparr>
          in if stmt_index stmt + g_maxDecrees c < NextLedgerHeaderSeq (va_lm v) then (Inr (), e)
             else
               dropA (thenA (getDecree c (stmt_index stmt) True)
                 (onDecree (stmt_index stmt) (Recv (g_fuel c) (decreeEnv c v) stmt))) e)"

text \<open>\<open>live\<close> tells whether there is a live peer, and \<open>rpc\<close> sends to the peers.\<close>

definition broadcastStatement ::
  "ecfg \<Rightarrow> bool \<Rightarrow> (string \<Rightarrow> string \<Rightarrow> unit res) \<Rightarrow> statement \<Rightarrow> unit res" where
  "broadcastStatement c live rpc stmt =
     (if \<not> live then Inl (Error ''there are no live clients'')
      else
        bindR (errorf ''encode statement failed: '' (g_encodeStmt c stmt)) (\<lambda>payload.
        bindR (errorf ''sign statement failed: '' (Sign (g_crypto c) (g_seed c) payload)) (\<lambda>sign.
        errorf ''rpc broadcast failed: '' (rpc payload sign))))"

text \<open>The next statement of a decree is broadcast; an error is logged.\<close>

definition handleStatement :: "ecfg \<Rightarrow> bool \<Rightarrow> (string \<Rightarrow> string \<Rightarrow> unit res) \<Rightarrow> (engine, unit) act" where
  "handleStatement c live rpc e =
     (case en_statementChan e of
        [] \<Rightarrow> (Inl (Blocked ''e.statementChan''), e)
      | stmt # stmts \<Rightarrow> dropA (liftA (broadcastStatement c live rpc stmt)) (e\<lparr>en_statementChan := stmts\<rparr>))"

text \<open>
  The statements that are broadcast again, from the next ledger downwards: the loop ends at the first
  index without a decree or without statements.  The fuel is the number of its turns.
\<close>

fun rebroadcastFrom :: "nat \<Rightarrow> engine \<Rightarrow> 64 word \<Rightarrow> 64 word \<Rightarrow> statement list res" where
  "rebroadcastFrom 0 e lower seq = Inl OutOfFuel"
| "rebroadcastFrom (Suc fuel) e lower seq =
     (if seq \<ge> lower then
        case map_of (en_decrees e) seq of
          None \<Rightarrow> Inr []
        | Some d \<Rightarrow>
            if GetLatestStatements d = [] then Inr []
            else bindR (rebroadcastFrom fuel e lower (seq - 1)) (\<lambda>rest. Inr (map (resolve d) (GetLatestStatements d) @ rest))
      else Inr [])"

definition rebroadcast :: "ecfg \<Rightarrow> nat \<Rightarrow> engine \<Rightarrow> statement list res" where
  "rebroadcast c fuel e =
     (let nextLedgerSeq = NextLedgerHeaderSeq (en_lm e);
          lowerLedgerSeq = (if nextLedgerSeq > g_maxDecrees c then nextLedgerSeq - g_maxDecrees c else 0)
      in rebroadcastFrom fuel e lowerLedgerSeq nextLedgerSeq)"


section \<open>Quorums and transaction sets from the peers\<close>

definition queryQuorum :: "ecfg \<Rightarrow> (string \<Rightarrow> string \<Rightarrow> quorum res) \<Rightarrow> string \<Rightarrow> quorum res" where
  "queryQuorum c rpc quorumHash =
     bindR (errorf ''sign statement failed: '' (Sign (g_crypto c) (g_seed c) quorumHash)) (\<lambda>sign.
     bindR (errorf ''rpc query failed: '' (rpc quorumHash sign)) (\<lambda>quorum.
     bindR (errorf ''compute quorum hash failed: '' (g_hashQuorum c quorum)) (\<lambda>hash.
     if hash \<noteq> quorumHash then Inl (Error ''hash of quorum is incompatible to quorumhash'') else Inr quorum)))"

definition queryTxSet :: "ecfg \<Rightarrow> (string \<Rightarrow> string \<Rightarrow> txset res) \<Rightarrow> string \<Rightarrow> txset res" where
  "queryTxSet c rpc txsetHash =
     bindR (errorf ''sign statement failed: '' (Sign (g_crypto c) (g_seed c) txsetHash)) (\<lambda>sign.
     bindR (errorf ''rpc query failed: '' (rpc txsetHash sign)) (\<lambda>txset.
     bindR (errorf ''compute txset hash failed: '' (GetTxSetKey (g_crypto c) txset)) (\<lambda>hash.
     if hash \<noteq> txsetHash then Inl (Error ''hash of txset is incompatible'') else Inr txset)))"

definition handleTxSetDownload :: "ecfg \<Rightarrow> (string \<Rightarrow> string \<Rightarrow> txset res) \<Rightarrow> (engine, unit) act" where
  "handleTxSetDownload c rpc e =
     (case va_txsetDownloadChan (en_validator e) of
        [] \<Rightarrow> (Inl (Blocked ''e.txsetDownloadChan''), e)
      | txsetHash # hashes \<Rightarrow>
          dropA (bindA (liftA (queryTxSet c rpc txsetHash)) (\<lambda>txset. onValidator (Validator_RecvTxSet txsetHash txset)))
            (e\<lparr>en_validator := (en_validator e)\<lparr>va_txsetDownloadChan := hashes\<rparr>\<rparr>))"

definition handleQuorumDownload :: "ecfg \<Rightarrow> (string \<Rightarrow> string \<Rightarrow> quorum res) \<Rightarrow> (engine, unit) act" where
  "handleQuorumDownload c rpc e =
     (case va_quorumDownloadChan (en_validator e) of
        [] \<Rightarrow> (Inl (Blocked ''e.quorumDownloadChan''), e)
      | quorumHash # hashes \<Rightarrow>
          dropA (bindA (liftA (queryQuorum c rpc quorumHash)) (\<lambda>quorum. onValidator (RecvQuorum (g_validator c) quorumHash quorum)))
            (e\<lparr>en_validator := (en_validator e)\<lparr>va_quorumDownloadChan := hashes\<rparr>\<rparr>))"

definition Engine_GetQuorum :: "ecfg \<Rightarrow> string \<Rightarrow> (engine, quorum option) act" where
  "Engine_GetQuorum c quorumHash =
     errorfA ''query quorum failed: '' (onValidator (Validator_GetQuorum (g_validator c) quorumHash))"

definition Engine_GetTxSet :: "string \<Rightarrow> (engine, txset option) act" where
  "Engine_GetTxSet txsetHash = errorfA ''query txset failed: '' (onValidator (Validator_GetTxSet txsetHash))"

definition Engine_RecvTxSet :: "string \<Rightarrow> txset \<Rightarrow> (engine, unit) act" where
  "Engine_RecvTxSet txsetHash txset = errorfA ''recv txset failed: '' (onValidator (Validator_RecvTxSet txsetHash txset))"


section \<open>Proposing and externalizing\<close>

definition Propose :: "ecfg \<Rightarrow> int \<Rightarrow> (engine, unit) act" where
  "Propose c now =
     thenA (modifyA (\<lambda>e. e\<lparr>en_lastProposeTime := now\<rparr>))
    (if g_role c \<noteq> ''validator'' then failA (Error ''the node is not a validator'')
     else
       bindA (readA Inr) (\<lambda>e.
       if \<not> LedgerSynced (en_lm e) then retA ()
       else
         bindA (readA (\<lambda>e. CurrLedgerHeaderHash (en_lm e))) (\<lambda>prevLedgerHash.
         bindA (onValidator (onLm (onTm (GetTxList (g_tx c))))) (\<lambda>txList.
         let txSet = TxSet prevLedgerHash txList in
         bindA (liftA (errorf ''get tx set hash failed: '' (GetTxSetKey (g_crypto c) txSet))) (\<lambda>hash.
         thenA (errorfA ''sync txset with validator failed: '' (onValidator (Validator_RecvTxSet hash txSet)))
        (thenA (errorfA ''sync quorum with validator failed: '' (onValidator (RecvQuorum (g_validator c) (en_quorumHash e) (g_quorum c))))
        (bindA (liftA (errorf ''encode consensus value failed: '' (EncodeConsensusValue (ConsensusValue hash now)))) (\<lambda>cvb.
         bindA (readA (\<lambda>e. CurrLedgerHeader (en_lm e))) (\<lambda>currHeader.
         errorfA ''nominate value failed: ''
           (Engine_nominate c (NextLedgerHeaderSeq (en_lm e)) (lh_ConsensusValue currHeader) (k_b58Encode (g_crypto c) cvb)))))))))))"

definition Externalize_value :: "ecfg \<Rightarrow> 64 word \<Rightarrow> string \<Rightarrow> (engine, unit) act" where
  "Externalize_value c idx value =
     bindA (readA Inr) (\<lambda>e.
     if idx < NextLedgerHeaderSeq (en_lm e) then retA ()
     else
       bindA (liftA (errorf ''hex decode consensus value failed: '' (k_b58Decode (g_crypto c) value))) (\<lambda>b.
       bindA (liftA (errorf ''decode consensus value failed: '' (DecodeConsensusValue b))) (\<lambda>cv.
       bindA (errorfA ''get txset failed: '' (onValidator (Validator_GetTxSet (TxSetHash cv)))) (\<lambda>txset.
       bindA (present (Error ''txset not exist'') txset) (\<lambda>txset.
       thenA (errorfA ''externalize value in ledger manager failed: ''
                (onValidator (onLm (RecvExtVal (g_tx c) (g_close c) idx value txset))))
      (thenA (errorfA ''get decree failed: '' (getDecree c idx False))
      (thenA (onDecree idx (modifyA StopNomination))
      (thenA (onValidator (onLm (onTm (DeleteTxList (g_tx c) (ts_TxList txset)))))
      (modifyA (\<lambda>e.
         if idx > g_maxDecrees c
         then e\<lparr>en_decrees := filter (\<lambda>(k, _). \<not> k \<le> idx - g_maxDecrees c) (en_decrees e)\<rparr> else e))))))))))"

text \<open>
  The value of a decree arrives; afterwards the next proposal is made at once or when the interval has
  passed.  \<open>now\<close> is the clock.
\<close>

definition handleExternalize :: "ecfg \<Rightarrow> int \<Rightarrow> (engine, unit) act" where
  "handleExternalize c now e =
     (case en_externalizeChan e of
        [] \<Rightarrow> (Inl (Blocked ''e.externalizeChan''), e)
      | (idx, value) # exts \<Rightarrow>
          (case Externalize_value c idx value (e\<lparr>en_externalizeChan := exts\<rparr>) of
             (Inl (Error _), e') \<Rightarrow> (Inr (), e')
           | (Inl f, e') \<Rightarrow> (Inl f, e')
           | (Inr _, e') \<Rightarrow>
               let e' = e'\<lparr>en_lastExtTime := now\<rparr>; duration = now - en_lastProposeTime e'
               in if duration < g_proposeInterval c
                  then (Inr (), e'\<lparr>en_timers := en_timers e' @ [g_proposeInterval c - duration]\<rparr>)
                  else dropA (Propose c now) e'))"

end
