(* ===== verification/Rpc.thy ===== *)
theory Rpc
  imports Keys Quorum "HOL-Library.Multiset"
begin

text \<open>
  The calls a node makes to its peers, \<open>rpc/query.go\<close>, \<open>rpc/broadcast.go\<close> and \<open>rpc/hello.go\<close>.  A client
  is a connection to a peer: what a call on it returns is a parameter, an error when the peer cannot be
  reached or refuses.
\<close>


section \<open>Requests\<close>

text \<open>The metadata a node sends along with a call: the values of the keys \<open>addr\<close> and \<open>nodeid\<close>.\<close>

record md =
  md_addr :: "string list"
  md_nodeid :: "string list"

datatype QueryMsgType = QUORUM | TXSET_MSG | LEDGER_MSG | QueryMsgTypeN int

datatype NotifyMsgType = TX_MSG | STATEMENT | NotifyMsgTypeN int

record queryRequest =
  qr_NetworkID :: string
  qr_MsgType :: QueryMsgType
  qr_Data :: string
  qr_Signature :: string

record notifyRequest =
  nr_NetworkID :: string
  nr_MsgType :: NotifyMsgType
  nr_Data :: string
  nr_Signature :: string

type_synonym queryClient = "md \<Rightarrow> queryRequest \<Rightarrow> string res"

definition ErrEmptyNetworkID :: failure where
  "ErrEmptyNetworkID = Error ''empty network id''"

definition ErrEmptyPayload :: failure where
  "ErrEmptyPayload = Error ''empty payload''"

definition ErrEmptySignature :: failure where
  "ErrEmptySignature = Error ''empty digital signature''"

definition checkRequest :: "string \<Rightarrow> string \<Rightarrow> string \<Rightarrow> unit res" where
  "checkRequest networkID payload signature =
     (if networkID = [] then Inl ErrEmptyNetworkID
      else if payload = [] then Inl ErrEmptyPayload
      else if signature = [] then Inl ErrEmptySignature
      else Inr ())"


section \<open>Queries\<close>

datatype message = QuorumMsg quorum | TxSetMsg txset | LedgerMsg ledger

text \<open>The decoding of quorums belongs to the generated message code.  An unknown type is None.\<close>

fun decodeMsg :: "(string \<Rightarrow> quorum res) \<Rightarrow> QueryMsgType \<Rightarrow> string \<Rightarrow> message res option" where
  "decodeMsg dq QUORUM b = Some (bindR (dq b) (\<lambda>q. Inr (QuorumMsg q)))"
| "decodeMsg dq TXSET_MSG b = Some (bindR (DecodeTxSet b) (\<lambda>t. Inr (TxSetMsg t)))"
| "decodeMsg dq LEDGER_MSG b = Some (bindR (DecodeLedger b) (\<lambda>l. Inr (LedgerMsg l)))"
| "decodeMsg dq (QueryMsgTypeN n) b = None"

definition queryPeer :: "queryClient \<Rightarrow> queryClient" where
  "queryPeer client m req = client m req"

text \<open>The clients in the order in which they are asked.\<close>

fun queryFrom :: "(string \<Rightarrow> quorum res) \<Rightarrow> queryClient list \<Rightarrow> md \<Rightarrow> queryRequest \<Rightarrow> message res" where
  "queryFrom dq [] m req = Inl (Error ''resource not found'')"
| "queryFrom dq (c # clients) m req =
     (case queryPeer c m req of
        Inl _ \<Rightarrow> queryFrom dq clients m req
      | Inr b \<Rightarrow>
          if b = [] then queryFrom dq clients m req
          else case decodeMsg dq (qr_MsgType req) b of
            None \<Rightarrow> Inl (Error ''unknown query msg type'')
          | Some (Inl _) \<Rightarrow> queryFrom dq clients m req
          | Some (Inr msg) \<Rightarrow> Inr msg)"

text \<open>\<open>indices\<close> is the random permutation of the clients.\<close>

definition query ::
  "(string \<Rightarrow> quorum res) \<Rightarrow> nat list \<Rightarrow> queryClient list \<Rightarrow> md \<Rightarrow> queryRequest \<Rightarrow> message res" where
  "query dq indices clients m req =
     (if clients = [] then Inl (Error ''no live clients'')
      else queryFrom dq (map (\<lambda>i. clients ! i) indices) m req)"

text \<open>The type assertions on the message panic when it has another type.\<close>

definition QueryQuorum ::
  "(string \<Rightarrow> quorum res) \<Rightarrow> nat list \<Rightarrow> queryClient list \<Rightarrow> md \<Rightarrow> string \<Rightarrow> string \<Rightarrow> string \<Rightarrow> quorum res" where
  "QueryQuorum dq indices clients m payload signature networkID =
     bindR (checkRequest networkID payload signature) (\<lambda>_.
     bindR (errorf ''query info failed: '' (query dq indices clients m
       \<lparr>qr_NetworkID = networkID, qr_MsgType = QUORUM, qr_Data = payload, qr_Signature = signature\<rparr>)) (\<lambda>msg.
     case msg of QuorumMsg x \<Rightarrow> Inr x | _ \<Rightarrow> Inl (Panic ''msg.(*Quorum)'')))"

definition QueryTxSet ::
  "(string \<Rightarrow> quorum res) \<Rightarrow> nat list \<Rightarrow> queryClient list \<Rightarrow> md \<Rightarrow> string \<Rightarrow> string \<Rightarrow> string \<Rightarrow> txset res" where
  "QueryTxSet dq indices clients m payload signature networkID =
     bindR (checkRequest networkID payload signature) (\<lambda>_.
     bindR (errorf ''query txset failed: '' (query dq indices clients m
       \<lparr>qr_NetworkID = networkID, qr_MsgType = TXSET_MSG, qr_Data = payload, qr_Signature = signature\<rparr>)) (\<lambda>msg.
     case msg of TxSetMsg x \<Rightarrow> Inr x | _ \<Rightarrow> Inl (Panic ''msg.(*TxSet)'')))"

definition QueryLedger ::
  "(string \<Rightarrow> quorum res) \<Rightarrow> nat list \<Rightarrow> queryClient list \<Rightarrow> md \<Rightarrow> string \<Rightarrow> string \<Rightarrow> string \<Rightarrow> ledger res" where
  "QueryLedger dq indices clients m payload signature networkID =
     bindR (checkRequest networkID payload signature) (\<lambda>_.
     bindR (errorf ''query txset failed: '' (query dq indices clients m
       \<lparr>qr_NetworkID = networkID, qr_MsgType = LEDGER_MSG, qr_Data = payload, qr_Signature = signature\<rparr>)) (\<lambda>msg.
     case msg of LedgerMsg x \<Rightarrow> Inr x | _ \<Rightarrow> Inl (Panic ''msg.(*Ledger)'')))"


section \<open>Broadcasts\<close>

definition notify :: "NotifyMsgType \<Rightarrow> string \<Rightarrow> string \<Rightarrow> string \<Rightarrow> notifyRequest res" where
  "notify ty payload signature networkID =
     bindR (checkRequest networkID payload signature) (\<lambda>_.
     Inr \<lparr>nr_NetworkID = networkID, nr_MsgType = ty, nr_Data = payload, nr_Signature = signature\<rparr>)"

text \<open>The request that is broadcast, or the error before it is sent.  A broadcast itself never fails.\<close>

definition BroadcastStatement :: "string \<Rightarrow> string \<Rightarrow> string \<Rightarrow> notifyRequest res" where
  "BroadcastStatement = notify STATEMENT"

definition BroadcastTx :: "string \<Rightarrow> string \<Rightarrow> string \<Rightarrow> notifyRequest res" where
  "BroadcastTx = notify TX_MSG"

text \<open>
  A broadcast in progress: the clients whose task is not taken yet, those that a worker is notifying,
  and those whose response has been merged.  There are as many workers as clients.
\<close>

record broadcasting =
  br_tasks :: "nat list"
  br_running :: "nat multiset"
  br_responses :: "nat list"

definition broadcast_start :: "nat list \<Rightarrow> broadcasting" where
  "broadcast_start clients = \<lparr>br_tasks = clients, br_running = {#}, br_responses = []\<rparr>"

inductive broadcast_step :: "nat \<Rightarrow> broadcasting \<Rightarrow> broadcasting \<Rightarrow> bool" for workers where
  take_task: "br_tasks s = c # cs \<Longrightarrow> size (br_running s) < workers \<Longrightarrow>
    broadcast_step workers s (s\<lparr>br_tasks := cs, br_running := add_mset c (br_running s)\<rparr>)"
| merge_response: "c \<in># br_running s \<Longrightarrow>
    broadcast_step workers s (s\<lparr>br_running := br_running s - {#c#}, br_responses := br_responses s @ [c]\<rparr>)"

text \<open>The loop over the merged responses ends when the task channel is empty and no worker is busy.\<close>

definition broadcast_over :: "broadcasting \<Rightarrow> bool" where
  "broadcast_over s \<longleftrightarrow> br_tasks s = [] \<and> br_running s = {#}"


section \<open>Saying hello\<close>

text \<open>The call answers with the header of the response, which carries address and node id of the peer.\<close>

definition Hello_client :: "(md \<Rightarrow> string \<Rightarrow> md res) \<Rightarrow> md \<Rightarrow> string \<Rightarrow> (string \<times> string) res" where
  "Hello_client client m networkID =
     (if networkID = [] then Inl ErrEmptyNetworkID
      else
        bindR (client m networkID) (\<lambda>header.
        case (md_addr header, md_nodeid header) of
          (addr # _, nodeid # _) \<Rightarrow> Inr (addr, nodeid)
        | _ \<Rightarrow> Inl (Error ''empty peerip or nodeid'')))"


section \<open>What a query finds\<close>

text \<open>An answer that can be used.\<close>

definition answers :: "(string \<Rightarrow> quorum res) \<Rightarrow> md \<Rightarrow> queryRequest \<Rightarrow> queryClient \<Rightarrow> message \<Rightarrow> bool" where
  "answers dq m req c msg \<longleftrightarrow> (\<exists>b. c m req = Inr b \<and> b \<noteq> [] \<and> decodeMsg dq (qr_MsgType req) b = Some (Inr msg))"

lemma queryFrom_iff:
  assumes "\<And>b. decodeMsg dq (qr_MsgType req) b \<noteq> None"
  shows "(\<forall>msg. queryFrom dq cs m req = Inr msg \<longrightarrow> (\<exists>c \<in> set cs. answers dq m req c msg)) \<and>
    ((\<exists>c \<in> set cs. \<exists>msg. answers dq m req c msg) \<longrightarrow> isOk (queryFrom dq cs m req))"
proof (induction cs)
  case (Cons c cs)
  have f: "decodeMsg dq (qr_MsgType req) b = Some (the (decodeMsg dq (qr_MsgType req) b))" for b using assms by simp
  show ?case
  proof (cases "c m req")
    case (Inl e)
    then show ?thesis using Cons by (simp add: answers_def queryPeer_def)
  next
    case (Inr b)
    then show ?thesis using Cons f [of b]
      by (cases "b = []"; cases "the (decodeMsg dq (qr_MsgType req) b)") (auto simp: answers_def queryPeer_def isOk_def)
  qed
qed simp

text \<open>
  C12.  A query succeeds exactly when one of the peers has a usable answer, whatever the random order in
  which they are asked, and what it returns is such an answer.
\<close>

theorem query_complete:
  assumes "mset indices = mset [0..<length clients]" "\<And>n. qr_MsgType req \<noteq> QueryMsgTypeN n"
  shows "(\<forall>msg. query dq indices clients m req = Inr msg \<longrightarrow> (\<exists>c \<in> set clients. answers dq m req c msg)) \<and>
    ((\<exists>c \<in> set clients. \<exists>msg. answers dq m req c msg) \<longrightarrow> (\<exists>msg. query dq indices clients m req = Inr msg))"
proof -
  have "set indices = {0..<length clients}" using assms(1) by (metis set_mset_mset atLeastLessThan_upt)
  then have s: "set (map (\<lambda>i. clients ! i) indices) = set clients" by (auto simp: in_set_conv_nth)
  have "\<And>b. decodeMsg dq (qr_MsgType req) b \<noteq> None" using assms(2) by (cases "qr_MsgType req") auto
  from queryFrom_iff [OF this, of "map (\<lambda>i. clients ! i) indices" m] show ?thesis
    unfolding s query_def by (auto simp: isOk_def split: sum.splits)
qed

text \<open>The first peer that is asked is down, the second has the transaction set.\<close>

definition sample_answer :: string where
  "sample_answer = [CHR 0x0A, CHR 0x01, CHR ''p'']"

theorem query_complete_witness:
  "\<exists>msg. query (\<lambda>_. Inl (Error ''none'')) [1, 0] [\<lambda>_ _. Inr sample_answer, \<lambda>_ _. Inl (Error ''down'')] \<lparr>md_addr = [], md_nodeid = []\<rparr>
     \<lparr>qr_NetworkID = ''n'', qr_MsgType = TXSET_MSG, qr_Data = ''h'', qr_Signature = ''s''\<rparr> = Inr msg"
proof -
  let ?m = "\<lparr>md_addr = [], md_nodeid = []\<rparr>" and ?req = "\<lparr>qr_NetworkID = ''n'', qr_MsgType = TXSET_MSG, qr_Data = ''h'', qr_Signature = ''s''\<rparr>"
  let ?cs = "[\<lambda>_ _. Inr sample_answer, \<lambda>_ _. Inl (Error ''down'')] :: queryClient list"
  have "DecodeTxSet sample_answer = Inr (TxSet ''p'' [])" by code_simp
  then have "answers (\<lambda>_. Inl (Error ''none'')) ?m ?req (\<lambda>_ _. Inr sample_answer) (TxSetMsg (TxSet ''p'' []))"
    by (simp add: answers_def sample_answer_def)
  moreover have "mset [1, 0] = mset [0..<length ?cs]" by (simp add: upt_rec)
  ultimately show ?thesis using query_complete [of "[1, 0]" ?cs ?req "\<lambda>_. Inl (Error ''none'')" ?m] by auto
qed



end
