(* ===== verification/Peer.thy ===== *)
theory Peer
  imports Rpc "HOL-Library.AList"
begin

text \<open>
  The peers of a node, \<open>peer/manager.go\<close> and \<open>peer/peer.go\<close>: addresses that wait to be connected, and the
  connected peers with the identity they answered with.  Dialling an address and saying hello there is a
  parameter, which gives the header of the response.
\<close>


section \<open>State\<close>

record peer =
  pe_Addr :: string
  pe_NodeID :: string
  pe_ConnTime :: int

record peermgr =
  pm_networkID :: string
  pm_addr :: string
  pm_nodeID :: string
  pm_metadata :: md
  pm_maxPeers :: int
  pm_initPeers :: "string list"
  pm_livePeers :: "(string \<times> peer) list"
  pm_nodeIDs :: "string set"
  pm_pendingPeers :: "string list"

definition Peer_NewManager :: "string list \<Rightarrow> string \<Rightarrow> string \<Rightarrow> string \<Rightarrow> int \<Rightarrow> peermgr" where
  "Peer_NewManager ps networkID addr nodeID maxPeers =
     \<lparr>pm_networkID = networkID, pm_addr = addr, pm_nodeID = nodeID, pm_metadata = \<lparr>md_addr = [addr], md_nodeid = [nodeID]\<rparr>,
      pm_maxPeers = maxPeers, pm_initPeers = ps, pm_livePeers = [], pm_nodeIDs = {}, pm_pendingPeers = []\<rparr>"


section \<open>Operations\<close>

definition GetMetadata :: "peermgr \<Rightarrow> md" where
  "GetMetadata pm = pm_metadata pm"

definition GetLiveClients :: "peermgr \<Rightarrow> peer list" where
  "GetLiveClients pm = map snd (pm_livePeers pm)"

definition addPending :: "string \<Rightarrow> peermgr \<Rightarrow> peermgr" where
  "addPending addr pm = (if addr \<in> set (pm_pendingPeers pm) then pm else pm\<lparr>pm_pendingPeers := pm_pendingPeers pm @ [addr]\<rparr>)"

definition AddPeerAddr :: "string \<Rightarrow> peermgr \<Rightarrow> peermgr" where
  "AddPeerAddr addr pm =
     (if addr \<in> set (pm_pendingPeers pm) then pm
      else if map_of (pm_livePeers pm) addr \<noteq> None then pm
      else addPending addr pm)"

text \<open>\<open>dial\<close> gives a connection to an address, as the call of \<open>Hello\<close> on it, or fails.\<close>

type_synonym dialer = "string \<Rightarrow> (md \<Rightarrow> string \<Rightarrow> md res) res"

definition connectPeer :: "dialer \<Rightarrow> int \<Rightarrow> string \<Rightarrow> peermgr \<Rightarrow> peer res" where
  "connectPeer dial now addr pm =
     bindR (dial addr) (\<lambda>client.
     bindR (Hello_client client (pm_metadata pm) (pm_networkID pm)) (\<lambda>(remoteAddr, nodeID).
     Inr \<lparr>pe_Addr = remoteAddr, pe_NodeID = nodeID, pe_ConnTime = now\<rparr>))"

text \<open>The initial peers: one that cannot be reached waits, the others are live under the address that was dialled.\<close>

fun connectInit :: "dialer \<Rightarrow> int \<Rightarrow> string list \<Rightarrow> peermgr \<Rightarrow> peermgr" where
  "connectInit dial now [] pm = pm"
| "connectInit dial now (addr # addrs) pm =
     connectInit dial now addrs
       (case connectPeer dial now addr pm of
          Inl _ \<Rightarrow> addPending addr pm
        | Inr p \<Rightarrow> pm\<lparr>pm_livePeers := AList.update addr p (pm_livePeers pm)\<rparr>)"

definition Peer_Start :: "dialer \<Rightarrow> int \<Rightarrow> peermgr \<Rightarrow> peermgr" where
  "Peer_Start dial now pm = connectInit dial now (pm_initPeers pm) pm"

text \<open>The heartbeat renews address and identity of the live peers; \<open>call\<close> is the connection of a peer.\<close>

definition heartbeat :: "(string \<Rightarrow> md \<Rightarrow> string \<Rightarrow> md res) \<Rightarrow> peermgr \<Rightarrow> peermgr" where
  "heartbeat call pm =
     pm\<lparr>pm_livePeers := map (\<lambda>(k, p).
        (k, case Hello_client (call k) (pm_metadata pm) (pm_networkID pm) of
              Inl _ \<Rightarrow> p
            | Inr (remoteAddr, nodeID) \<Rightarrow> p\<lparr>pe_Addr := remoteAddr, pe_NodeID := nodeID\<rparr>)) (pm_livePeers pm)\<rparr>"

text \<open>
  The waiting addresses are tried, in the order of a map, until there are more live peers than wanted.
  The second component are the addresses that were connected.
\<close>

fun tryPending :: "dialer \<Rightarrow> int \<Rightarrow> string list \<Rightarrow> peermgr \<Rightarrow> peermgr \<times> string list" where
  "tryPending dial now [] pm = (pm, [])"
| "tryPending dial now (addr # addrs) pm =
     (case connectPeer dial now addr pm of
        Inl _ \<Rightarrow> tryPending dial now addrs pm
      | Inr p \<Rightarrow>
          let pm' = pm\<lparr>pm_livePeers := AList.update (pe_Addr p) p (pm_livePeers pm), pm_nodeIDs := insert (pe_NodeID p) (pm_nodeIDs pm)\<rparr>
          in if int (length (pm_livePeers pm')) > pm_maxPeers pm then (pm', [addr])
             else (case tryPending dial now addrs pm' of (pm'', conns) \<Rightarrow> (pm'', addr # conns)))"

definition reconnect :: "dialer \<Rightarrow> int \<Rightarrow> (string list \<Rightarrow> string list) \<Rightarrow> peermgr \<Rightarrow> peermgr" where
  "reconnect dial now order pm =
     (if pm_pendingPeers pm = [] then pm
      else if int (length (pm_livePeers pm)) > pm_maxPeers pm then pm
      else case tryPending dial now (order (pm_pendingPeers pm)) pm of
        (pm', conns) \<Rightarrow> pm'\<lparr>pm_pendingPeers := filter (\<lambda>a. a \<notin> set conns) (pm_pendingPeers pm')\<rparr>)"

definition deletePeer :: "peer \<Rightarrow> peermgr \<Rightarrow> peermgr" where
  "deletePeer p pm =
     (if map_of (pm_livePeers pm) (pe_Addr p) \<noteq> None
      then pm\<lparr>pm_livePeers := AList.delete (pe_Addr p) (pm_livePeers pm), pm_nodeIDs := pm_nodeIDs pm - {pe_NodeID p}\<rparr>
      else pm)"

definition Peer_Stop :: "peermgr \<Rightarrow> peermgr" where
  "Peer_Stop pm = pm\<lparr>pm_pendingPeers := [], pm_livePeers := []\<rparr>"


section \<open>Connecting\<close>

lemma length_update_le: "length (AList.update k v xs) \<le> Suc (length xs)"
  by (induction xs) auto

lemma tryPending_bound:
  assumes "int (length (pm_livePeers pm)) \<le> pm_maxPeers pm"
  shows "int (length (pm_livePeers (fst (tryPending dial now addrs pm)))) \<le> pm_maxPeers pm + 1"
  using assms
proof (induction addrs arbitrary: pm)
  case (Cons addr addrs)
  show ?case
  proof (cases "connectPeer dial now addr pm")
    case (Inr p)
    let ?pm = "pm\<lparr>pm_livePeers := AList.update (pe_Addr p) p (pm_livePeers pm), pm_nodeIDs := insert (pe_NodeID p) (pm_nodeIDs pm)\<rparr>"
    have "int (length (pm_livePeers ?pm)) \<le> pm_maxPeers pm + 1"
      using Cons.prems length_update_le [of "pe_Addr p" p "pm_livePeers pm"] by simp
    then show ?thesis using Inr Cons.IH [of ?pm] by (auto simp: Let_def split: prod.splits)
  qed (use Cons in simp)
qed simp

lemma connectPeer_same:
  "pm_metadata pm' = pm_metadata pm \<Longrightarrow> pm_networkID pm' = pm_networkID pm \<Longrightarrow> connectPeer dial now addr pm' = connectPeer dial now addr pm"
  by (simp add: connectPeer_def)

lemma tryPending_all:
  assumes "int (length (pm_livePeers (fst (tryPending dial now addrs pm)))) \<le> pm_maxPeers pm"
  shows "set (snd (tryPending dial now addrs pm)) = {a \<in> set addrs. isOk (connectPeer dial now a pm)}"
  using assms
proof (induction addrs arbitrary: pm)
  case (Cons addr addrs)
  show ?case
  proof (cases "connectPeer dial now addr pm")
    case (Inl e)
    then show ?thesis using Cons by (auto simp: isOk_def)
  next
    case (Inr p)
    let ?pm = "pm\<lparr>pm_livePeers := AList.update (pe_Addr p) p (pm_livePeers pm), pm_nodeIDs := insert (pe_NodeID p) (pm_nodeIDs pm)\<rparr>"
    have "connectPeer dial now a ?pm = connectPeer dial now a pm" for a by (rule connectPeer_same) simp_all
    then show ?thesis using Inr Cons.prems Cons.IH [of ?pm]
      by (auto simp: Let_def isOk_def split: prod.splits if_splits)
  qed
qed simp

lemma tryPending_pending: "pm_pendingPeers (fst (tryPending dial now addrs pm)) = pm_pendingPeers pm"
proof (induction addrs arbitrary: pm)
  case (Cons addr addrs)
  then show ?case by (cases "connectPeer dial now addr pm") (simp_all add: Let_def split_def)
qed simp



end
