(* ===== verification/Node.thy ===== *)
theory Node
  imports Engine Peer
begin

text \<open>
  The node, \<open>node/node.go\<close>, and the server that takes the calls of peers and clients, \<open>rpc/server.go\<close>.  The
  server passes its work to the node in futures (\<open>future/future.go\<close>) and waits for the response, so that a
  call is the handler of the node that answers its future: an error that the handler responds with becomes
  the error of the call, and a handler that never responds blocks it.
\<close>


section \<open>State\<close>

text \<open>The decoding of statements belongs to the generated message code.\<close>

record scfg =
  sv_engine :: ecfg
  sv_addr :: string
  sv_decodeStmt :: "string \<Rightarrow> statement res"

abbreviation sv_networkID :: "scfg \<Rightarrow> string" where
  "sv_networkID c \<equiv> g_networkID (sv_engine c)"

abbreviation sv_crypto :: "scfg \<Rightarrow> crypto" where
  "sv_crypto c \<equiv> g_crypto (sv_engine c)"

abbreviation sv_tx :: "scfg \<Rightarrow> txcfg" where
  "sv_tx c \<equiv> g_tx (sv_engine c)"

text \<open>
  \<open>no_nodeKey\<close> are the keys of the peers by the address they gave; \<open>no_master\<close> is the master account that
  the account manager keeps in memory.
\<close>

record node =
  no_engine :: engine
  no_pm :: peermgr
  no_nodeKey :: "(string \<times> ultKey) list"
  no_master :: "account option"

definition onEngine :: "(engine, 'a) act \<Rightarrow> (node, 'a) act" where
  "onEngine m n = (case m (no_engine n) of (r, e) \<Rightarrow> (r, n\<lparr>no_engine := e\<rparr>))"

abbreviation onNodeLm :: "(ledgermgr, 'a) act \<Rightarrow> (node, 'a) act" where
  "onNodeLm m \<equiv> onEngine (onValidator (onLm m))"

abbreviation onNodeTm :: "(txmgr, 'a) act \<Rightarrow> (node, 'a) act" where
  "onNodeTm m \<equiv> onNodeLm (onTm m)"

abbreviation no_tm :: "node \<Rightarrow> txmgr" where
  "no_tm n \<equiv> en_tm (no_engine n)"


section \<open>The event loops\<close>

definition handlePeer :: "string \<Rightarrow> (node, unit) act" where
  "handlePeer addr = modifyA (\<lambda>n. n\<lparr>no_pm := AddPeerAddr addr (no_pm n)\<rparr>)"

definition handleStmt :: "scfg \<Rightarrow> statement \<Rightarrow> (node, unit) act" where
  "handleStmt c stmt = onEngine (RecvStatement (sv_engine c) stmt)"

definition handleLedger :: "string \<Rightarrow> (node, ledger) act" where
  "handleLedger seq = onNodeLm (GetLedger seq)"

definition handleQuorum :: "scfg \<Rightarrow> string \<Rightarrow> (node, quorum option) act" where
  "handleQuorum c quorumHash = onEngine (Engine_GetQuorum (sv_engine c) quorumHash)"

definition handleTxSet :: "string \<Rightarrow> (node, txset option) act" where
  "handleTxSet txsetHash = onEngine (Engine_GetTxSet txsetHash)"

definition handleTx :: "scfg \<Rightarrow> string \<Rightarrow> tx \<Rightarrow> (node, unit) act" where
  "handleTx c txKey tx = onNodeTm (AddTx (sv_tx c) txKey tx)"

definition handleTxStatus :: "string \<Rightarrow> (node, tx_status) act" where
  "handleTxStatus txKey = onNodeTm (GetTxStatus txKey)"

definition handleAccount :: "string \<Rightarrow> (node, account option) act" where
  "handleAccount accountID = onNodeTm (onStore (readA (GetAccount accountID)))"


section \<open>The calls\<close>

text \<open>The context of a call is None when it carries no metadata.  The names of the keys are not case sensitive.\<close>

type_synonym ctx = "md option"

definition Server_validate :: "scfg \<Rightarrow> ctx \<Rightarrow> string \<Rightarrow> string \<Rightarrow> string \<Rightarrow> node \<Rightarrow> unit res" where
  "Server_validate c ctx data signature networkID n =
     (if sv_networkID c \<noteq> networkID then Inl (Error ''incompatible network id.'')
      else case ctx of
        None \<Rightarrow> Inl (Error ''retrieve incoming context failed'')
      | Some m \<Rightarrow>
          (case (md_addr m, md_nodeid m) of
             (addr # _, _ # _) \<Rightarrow>
               (case map_of (no_nodeKey n) addr of
                  None \<Rightarrow> Inl (Error (''unknown network address '' @ addr @ '', forgot to say hello?''))
                | Some key \<Rightarrow>
                    if \<not> VerifyByKey (sv_crypto c) key signature data then Inl (Error ''signature verification failed'')
                    else Inr ())
           | _ \<Rightarrow> Inl (Error ''network address or nodeID is absent'')))"

text \<open>The response carries address and node id of this node in its header.\<close>

definition Hello :: "scfg \<Rightarrow> ctx \<Rightarrow> string \<Rightarrow> (node, md) act" where
  "Hello c ctx networkID =
     (if sv_networkID c \<noteq> networkID then failA (Error ''incompatible network id.'')
      else case ctx of
        None \<Rightarrow> failA (Error ''retrieve incoming context failed'')
      | Some m \<Rightarrow>
          (case (md_addr m, md_nodeid m) of
             (addr # _, nodeid # _) \<Rightarrow>
               (case DecodeKey (sv_crypto c) nodeid of
                  Inl _ \<Rightarrow> failA (Error ''decode nodeid to crypto key failed'')
                | Inr k \<Rightarrow>
                    if key_Code k \<noteq> KeyTypeNodeID then failA (Error ''invalid nodeid key type'')
                    else
                      thenA (modifyA (\<lambda>n. n\<lparr>no_nodeKey := AList.update addr k (no_nodeKey n)\<rparr>))
                     (thenA (dropA (handlePeer addr))
                     (retA \<lparr>md_addr = [sv_addr c], md_nodeid = [g_nodeID (sv_engine c)]\<rparr>)))
           | _ \<Rightarrow> failA (Error ''network address or nodeid is missing'')))"

record submitTxRequest =
  sr_NetworkID :: string
  sr_Data :: string
  sr_TxKey :: string
  sr_Signature :: string

definition checkSubmit :: "scfg \<Rightarrow> submitTxRequest \<Rightarrow> tx res" where
  "checkSubmit c req =
     (if sv_networkID c \<noteq> sr_NetworkID req then Inl (Error ''incompatible network id.'')
      else case DecodeTx (sr_Data req) of
        Inl _ \<Rightarrow> Inl (Error ''decode tx failed'')
      | Inr tx \<Rightarrow>
          (case DecodeKey (sv_crypto c) (tx_AccountID tx) of
             Inl _ \<Rightarrow> Inl (Error ''decode account key failed'')
           | Inr accKey \<Rightarrow>
               if key_Code accKey \<noteq> KeyTypeAccountID then Inl (Error ''invalid account key type'')
               else if \<not> VerifyByKey (sv_crypto c) accKey (sr_Signature req) (sr_Data req)
               then Inl (Error ''signature verification failed'')
               else case DecodeKey (sv_crypto c) (sr_TxKey req) of
                 Inl _ \<Rightarrow> Inl (Error ''decode tx key failed'')
               | Inr txKey \<Rightarrow>
                   (case EncodeTx tx of
                      Inl _ \<Rightarrow> Inl (Error ''compute tx hash failed'')
                    | Inr b \<Rightarrow>
                        if k_sha256 (sv_crypto c) b \<noteq> key_Hash txKey then Inl (Error ''tx key hash mismatch'')
                        else Inr tx)))"

definition SubmitTx :: "scfg \<Rightarrow> submitTxRequest \<Rightarrow> (node, unit) act" where
  "SubmitTx c req =
     bindA (liftA (checkSubmit c req)) (\<lambda>tx. errorfA ''submit tx failed: '' (handleTx c (sr_TxKey req) tx))"

definition QueryTx :: "scfg \<Rightarrow> string \<Rightarrow> string \<Rightarrow> (node, tx_status) act" where
  "QueryTx c networkID txKey =
     (if sv_networkID c \<noteq> networkID then failA (Error ''incompatible network id.'')
      else if \<not> IsValidTxKey (sv_crypto c) txKey then failA (Error ''invalid tx key'')
      else errorfA ''query tx status failed: '' (handleTxStatus txKey))"

text \<open>The errors of encoding are replaced by a message.\<close>

definition encoded :: "string \<Rightarrow> string res \<Rightarrow> ('s, string) act" where
  "encoded msg r = liftA (case r of Inl _ \<Rightarrow> Inl (Error msg) | Inr b \<Rightarrow> Inr b)"

definition Server_GetAccount :: "scfg \<Rightarrow> string \<Rightarrow> string \<Rightarrow> (node, string) act" where
  "Server_GetAccount c networkID accountID =
     (if sv_networkID c \<noteq> networkID then failA (Error ''incompatible network id.'')
      else if \<not> IsValidAccountKey (sv_crypto c) accountID then failA (Error ''invalid account id'')
      else
        bindA (errorfA ''get account failed: '' (handleAccount accountID)) (\<lambda>acc.
        encoded ''encode account failed'' (encodePtr EncodeAccount acc)))"

definition testAccountTx :: "account \<Rightarrow> string \<Rightarrow> tx" where
  "testAccountTx master accountID =
     \<lparr>tx_AccountID = a_AccountID master, tx_Fee = 1000, tx_Note = [], tx_SeqNum = a_SeqNum master,
      tx_OpList = [Op CREATE_ACCOUNT (Some (PCreateAccount \<lparr>ca_AccountID = accountID, ca_Balance = 100000000000\<rparr>))]\<rparr>"

definition CreateTestAccount :: "scfg \<Rightarrow> string \<Rightarrow> string \<Rightarrow> (node, string) act" where
  "CreateTestAccount c networkID accountID =
     (if sv_networkID c \<noteq> networkID then failA (Error ''incompatible network id.'')
      else if \<not> IsValidAccountKey (sv_crypto c) accountID then failA (Error ''invalid account id'')
      else
        bindA (errorfA ''get account failed: '' (handleAccount accountID)) (\<lambda>acc.
        if acc \<noteq> None then failA (Error ''test account already exist'')
        else
          bindA (readA (\<lambda>n. derefR ''s.am.Master'' (no_master n))) (\<lambda>master.
          let tx = testAccountTx master accountID in
          bindA (liftA (errorf ''get tx key failed: '' (GetTxKey (sv_crypto c) tx))) (\<lambda>txKey.
          thenA (errorfA ''submit tx failed: '' (handleTx c txKey tx)) (retA txKey)))))"

text \<open>A query of an unknown type is answered with an empty response.\<close>

definition Query :: "scfg \<Rightarrow> ctx \<Rightarrow> queryRequest \<Rightarrow> (node, string) act" where
  "Query c ctx req =
     bindA (readA (\<lambda>n. errorf ''input validation failed: ''
       (Server_validate c ctx (qr_Data req) (qr_Signature req) (qr_NetworkID req) n))) (\<lambda>_.
     case qr_MsgType req of
       QUORUM \<Rightarrow>
         bindA (errorfA ''query quorum failed: '' (handleQuorum c (qr_Data req))) (\<lambda>quorum.
         bindA (present (Error ''quorum not found'') quorum) (\<lambda>quorum.
         encoded ''encode quorum failed'' (v_encodeQuorum (g_validator (sv_engine c)) quorum)))
     | TXSET_MSG \<Rightarrow>
         bindA (errorfA ''query txset failed: '' (handleTxSet (qr_Data req))) (\<lambda>txset.
         bindA (present (Error ''txset not found'') txset) (\<lambda>txset.
         encoded ''encode txset failed'' (EncodeTxSet txset)))
     | LEDGER_MSG \<Rightarrow>
         bindA (errorfA ''query ledger failed: '' (handleLedger (qr_Data req))) (\<lambda>ledger.
         encoded ''encode ledger failed'' (EncodeLedger ledger))
     | QueryMsgTypeN _ \<Rightarrow> retA [])"

definition Notify :: "scfg \<Rightarrow> ctx \<Rightarrow> notifyRequest \<Rightarrow> (node, unit) act" where
  "Notify c ctx req =
     bindA (readA (\<lambda>n. errorf ''input validation failed: ''
       (Server_validate c ctx (nr_Data req) (nr_Signature req) (nr_NetworkID req) n))) (\<lambda>_.
     case nr_MsgType req of
       TX_MSG \<Rightarrow>
         bindA (liftA (case DecodeTx (nr_Data req) of Inl _ \<Rightarrow> Inl (Error ''decode tx failed'') | Inr tx \<Rightarrow> Inr tx)) (\<lambda>tx.
         bindA (liftA (errorf ''get tx key failed: '' (GetTxKey (sv_crypto c) tx))) (\<lambda>txKey.
         errorfA ''add tx failed: '' (handleTx c txKey tx)))
     | STATEMENT \<Rightarrow>
         bindA (liftA (case sv_decodeStmt c (nr_Data req) of Inl _ \<Rightarrow> Inl (Error ''decode statement failed'') | Inr s \<Rightarrow> Inr s)) (\<lambda>stmt.
         errorfA ''add statement failed: '' (handleStmt c stmt))
     | NotifyMsgTypeN _ \<Rightarrow> retA ())"


section \<open>Creating and starting a node\<close>

definition ValidateServerContext :: "scfg \<Rightarrow> unit res" where
  "ValidateServerContext c =
     (if sv_networkID c = [] then Inl (Error ''empty network ID'')
      else if sv_addr c = [] then Inl (Error ''empty local network address'')
      else if g_nodeID (sv_engine c) = [] then Inl (Error ''empty local node ID'')
      else if g_seed (sv_engine c) = [] then Inl (Error ''empty local node seed'')
      else Inr ())"

text \<open>The managers are created on one store, in the order of their dependencies.\<close>

definition NewNode :: "scfg \<Rightarrow> string list \<Rightarrow> int \<Rightarrow> int \<Rightarrow> (db, node) act" where
  "NewNode c peers maxPeers now =
     thenA NewManager (thenA ExchangeMgr_NewManager (bindA TxMgr_NewManager (\<lambda>tm.
     liftA
       (bindR (fst (LedgerMgr_NewManager tm)) (\<lambda>lm.
        bindR (fst (NewEngine (sv_engine c) now lm)) (\<lambda>e.
        case ValidateServerContext c of
          Inl _ \<Rightarrow> Inl (Fatal ''validate server context failed: '')
        | Inr _ \<Rightarrow>
            Inr \<lparr>no_engine = e,
                 no_pm = Peer_NewManager peers (sv_networkID c) (sv_addr c) (g_nodeID (sv_engine c)) maxPeers,
                 no_nodeKey = [], no_master = None\<rparr>))))))"

definition GenesisTotalTokens :: int where
  "GenesisTotalTokens = 4500000000000000000"

text \<open>Every error while a node starts exits the process.\<close>

definition fatalA :: "string \<Rightarrow> ('s, 'a) act \<Rightarrow> ('s, 'a) act" where
  "fatalA p m s = (case m s of (Inl (Error e), t) \<Rightarrow> (Inl (Fatal (p @ e)), t) | r \<Rightarrow> r)"

definition createMaster :: "scfg \<Rightarrow> string \<Rightarrow> (node, unit) act" where
  "createMaster c netID =
     bindA (onNodeTm (onStore (CreateMasterAccount (x_amReserve (sv_tx c)) (GetAccountKeypairFromSeed (sv_crypto c)) netID GenesisTotalTokens 1)))
       (\<lambda>acc. modifyA (\<lambda>n. n\<lparr>no_master := acc\<rparr>))"

definition Node_Start :: "scfg \<Rightarrow> bool \<Rightarrow> int \<Rightarrow> (node, unit) act" where
  "Node_Start c newnode now =
     (if newnode then
        thenA (fatalA ''create genesis ledger failed: '' (onNodeLm (CreateGenesisLedger (sv_tx c) (g_close (sv_engine c)))))
       (bindA (fatalA ''decode network id failed: '' (liftA (k_b58Decode (sv_crypto c) (sv_networkID c)))) (\<lambda>netID.
        thenA (fatalA ''create master account failed: '' (createMaster c netID))
       (fatalA ''propose new value failed: '' (onEngine (Propose (sv_engine c) now)))))
      else
        fatalA ''recover ledger from checkpoint failed: '' (onNodeLm (RecoverFromCheckpoint (sv_tx c) now)))"

end
