(* ===== verification/ClientTx.thy ===== *)
theory ClientTx
  imports TxMgr
begin

text \<open>
  The client: building and signing transactions, \<open>client/build/tx.go\<close> and \<open>client/build/txmutator.go\<close>,
  and reading the status of a transaction, \<open>client/client.go\<close> and \<open>client/types/tx.go\<close>.
\<close>


section \<open>Mutators\<close>

definition ErrNilTx :: failure where
  "ErrNilTx = Error ''tx is nil''"

definition BaseFee :: int where
  "BaseFee = 1000"

datatype buildAssetType = BuildNative | BuildCustom | BuildAssetTypeN nat

datatype buildAsset = BuildAsset (ba_AssetType: buildAssetType) (ba_AssetName: string) (ba_Issuer: string)

text \<open>The mutators, by the struct that implements the interface.\<close>

datatype mutator =
    AccountIDM string
  | NoteM string
  | SeqNumM "64 word"
  | FeeM int
  | CreateAccountM string int
  | PaymentM string "buildAsset option" int
  | TrustM "buildAsset option" int

definition checkAssetType :: "buildAssetType \<Rightarrow> unit res" where
  "checkAssetType ty = (case ty of BuildAssetTypeN _ \<Rightarrow> Inl (Error ''invalid asset type'') | _ \<Rightarrow> Inr ())"

fun mutator_validate :: "crypto \<Rightarrow> mutator \<Rightarrow> unit res" where
  "mutator_validate c (AccountIDM accountID) =
     (if accountID = [] then Inl (Error ''empty account id'')
      else if \<not> IsValidAccountKey c accountID then Inl (Error ''invalid account key'') else Inr ())"
| "mutator_validate c (NoteM note) = (if length note > 128 then Inl (Error ''note is too long'') else Inr ())"
| "mutator_validate c (SeqNumM seqNum) = (if seqNum = 0 then Inl (Error ''seqnum is zero'') else Inr ())"
| "mutator_validate c (FeeM baseFee) = (if baseFee < 0 then Inl (Error ''base fee is negative'') else Inr ())"
| "mutator_validate c (CreateAccountM accountID balance) =
     (if accountID = [] then Inl (Error ''empty account id'')
      else if balance < BaseFee then Inl (Error ''init balance less than base fee'')
      else if \<not> IsValidAccountKey c accountID then Inl (Error ''invalid account key'') else Inr ())"
| "mutator_validate c (PaymentM accountID asset amount) =
     (if amount < 0 then Inl (Error ''negative payment amount'')
      else if \<not> IsValidAccountKey c accountID then Inl (Error ''invalid account key'')
      else case asset of
        None \<Rightarrow> Inl (Error ''asset is nil'')
      | Some a \<Rightarrow>
          if ba_AssetType a = BuildCustom \<and> length (ba_AssetName a) > 4 then Inl (Error ''asset name is too long'')
          else if ba_AssetType a = BuildCustom \<and> \<not> IsValidAccountKey c (ba_Issuer a) then Inl (Error ''invalid asset issuer account key'')
          else checkAssetType (ba_AssetType a))"
| "mutator_validate c (TrustM asset limit) =
     (if limit < 0 then Inl (Error ''negative trust limit'')
      else case asset of
        None \<Rightarrow> Inl (Error ''asset is nil'')
      | Some a \<Rightarrow>
          if length (ba_AssetName a) > 4 then Inl (Error ''asset name is too long'')
          else if \<not> IsValidAccountKey c (ba_Issuer a) then Inl (Error ''invalid asset issuer account key'')
          else checkAssetType (ba_AssetType a))"

definition buildAssetOf :: "buildAsset option \<Rightarrow> asset res" where
  "buildAssetOf p =
     bindR (derefR ''p.Asset'' p) (\<lambda>a.
     case ba_AssetType a of
       BuildNative \<Rightarrow> Inr (Asset NATIVE (ba_AssetName a) (ba_Issuer a))
     | BuildCustom \<Rightarrow> Inr (Asset CUSTOM (ba_AssetName a) (ba_Issuer a))
     | BuildAssetTypeN _ \<Rightarrow> Inl (Fatal ''unsupported asset type''))"

definition appendOp :: "OpType \<Rightarrow> op_payload \<Rightarrow> tx \<Rightarrow> tx" where
  "appendOp ty p t = t\<lparr>tx_OpList := tx_OpList t @ [Op ty (Some p)]\<rparr>"

text \<open>The fee is the product in 64 bits.\<close>

fun mutated :: "mutator \<Rightarrow> tx \<Rightarrow> tx res" where
  "mutated (AccountIDM accountID) t = Inr (t\<lparr>tx_AccountID := accountID\<rparr>)"
| "mutated (NoteM note) t = Inr (t\<lparr>tx_Note := note\<rparr>)"
| "mutated (SeqNumM seqNum) t = Inr (t\<lparr>tx_SeqNum := seqNum\<rparr>)"
| "mutated (FeeM baseFee) t = Inr (t\<lparr>tx_Fee := i64 (baseFee * int (length (tx_OpList t)))\<rparr>)"
| "mutated (CreateAccountM accountID balance) t =
     Inr (appendOp CREATE_ACCOUNT (PCreateAccount \<lparr>ca_AccountID = accountID, ca_Balance = balance\<rparr>) t)"
| "mutated (PaymentM accountID asset amount) t =
     bindR (buildAssetOf asset) (\<lambda>a.
     Inr (appendOp PAYMENT (PPayment \<lparr>pa_AccountID = accountID, pa_Asset = Some a, pa_Amount = amount\<rparr>) t))"
| "mutated (TrustM asset limit) t =
     bindR (buildAssetOf asset) (\<lambda>a. Inr (appendOp TRUST (PTrust \<lparr>to_Asset = Some a, to_Limit = limit\<rparr>) t))"

text \<open>A mutator changes the transaction in place; the state is the pointer to it.\<close>

definition Mutate :: "crypto \<Rightarrow> mutator \<Rightarrow> (tx option, unit) act" where
  "Mutate c m s =
     (case s of
        None \<Rightarrow> (Inl ErrNilTx, s)
      | Some t \<Rightarrow>
          (case bindR (mutator_validate c m) (\<lambda>_. mutated m t) of Inl f \<Rightarrow> (Inl f, s) | Inr t' \<Rightarrow> (Inr (), Some t')))"


section \<open>Building a transaction\<close>

definition NewTx :: "tx option" where
  "NewTx = Some \<lparr>tx_AccountID = [], tx_Fee = 0, tx_Note = [], tx_SeqNum = 0, tx_OpList = []\<rparr>"

fun mutateAll :: "crypto \<Rightarrow> mutator list \<Rightarrow> (tx option, unit) act" where
  "mutateAll c [] = retA ()"
| "mutateAll c (m # ms) = thenA (Mutate c m) (mutateAll c ms)"

definition tx_validate :: "tx option \<Rightarrow> unit res" where
  "tx_validate s =
     bindR (derefR ''t.Tx'' s) (\<lambda>t.
     if tx_AccountID t = [] then Inl (Error ''empty account id'')
     else if tx_OpList t = [] then Inl (Error ''empty op list'') else Inr ())"

text \<open>When a mutator fails the ones before it have changed the transaction.\<close>

definition Tx_Add :: "crypto \<Rightarrow> mutator list \<Rightarrow> (tx option, unit) act" where
  "Tx_Add c ms =
     thenA (mutateAll c ms)
    (thenA (Mutate c (FeeM BaseFee))
    (errorfA ''tx is invaiid: '' (readA tx_validate)))"

definition Tx_Sign :: "crypto \<Rightarrow> string \<Rightarrow> tx option \<Rightarrow> (string \<times> string) res" where
  "Tx_Sign c seed s =
     (case s of
        None \<Rightarrow> Inl ErrNilTx
      | Some t \<Rightarrow>
          bindR (errorf ''decode seed key failed: '' (DecodeKey c seed)) (\<lambda>seedKey.
          if key_Code seedKey \<noteq> KeyTypeSeed then Inl (Error ''incorrect seed key type'')
          else
            bindR (errorf ''encode tx failed: '' (EncodeTx t)) (\<lambda>payload.
            bindR (errorf ''sign the tx failed: '' (Sign c seed payload)) (\<lambda>signature.
            Inr (payload, signature)))))"

definition Tx_GetTxKey :: "crypto \<Rightarrow> tx option \<Rightarrow> string res" where
  "Tx_GetTxKey c s =
     (case s of
        None \<Rightarrow> Inl ErrNilTx
      | Some t \<Rightarrow>
          bindR (errorf ''encode tx failed: '' (EncodeTx t)) (\<lambda>b.
          Inr (EncodeKey c (ULTKey KeyTypeTx (k_sha256 c b)))))"


section \<open>The status of a transaction\<close>

datatype clientStatusCode = NotExist | Rejected | Accepted | Confirmed | Failed | Unknown

record clientStatus =
  cs_StatusCode :: clientStatusCode
  cs_ErrorMessage :: string
  cs_Tx :: "tx option"

fun clientStatusCodeOf :: "TxStatusCode \<Rightarrow> clientStatusCode" where
  "clientStatusCodeOf NOTEXIST = NotExist"
| "clientStatusCodeOf REJECTED = Rejected"
| "clientStatusCodeOf ACCEPTED = Accepted"
| "clientStatusCodeOf CONFIRMED = Confirmed"
| "clientStatusCodeOf FAILED = Failed"
| "clientStatusCodeOf (TxStatusCodeN n) = Unknown"

fun statusString :: "clientStatusCode \<Rightarrow> string" where
  "statusString NotExist = ''not exist''"
| "statusString Rejected = ''rejected''"
| "statusString Accepted = ''accepted''"
| "statusString Confirmed = ''confirmed''"
| "statusString Failed = ''failed''"
| "statusString Unknown = ''unknown''"

text \<open>\<open>resp\<close> is what the call on the server returns.\<close>

definition Client_QueryTx :: "tx_status res \<Rightarrow> clientStatus res" where
  "Client_QueryTx resp =
     bindR resp (\<lambda>st.
     let status = \<lparr>cs_StatusCode = clientStatusCodeOf (st_StatusCode st), cs_ErrorMessage = st_ErrorMessage st, cs_Tx = None\<rparr>
     in if st_Data st \<noteq> []
        then bindR (errorf ''decode tx failed: '' (DecodeTx (st_Data st))) (\<lambda>tx. Inr (status\<lparr>cs_Tx := Some tx\<rparr>))
        else Inr status)"

definition Client_GetAccount :: "string res \<Rightarrow> account res" where
  "Client_GetAccount resp = bindR resp (\<lambda>data. errorf ''decode account failed: '' (DecodeAccount data))"

text \<open>Waiting for a test account: \<open>answers\<close> are the statuses at the ticks before the timer fires.\<close>

fun awaitAccount :: "clientStatus res list \<Rightarrow> account res \<Rightarrow> account res" where
  "awaitAccount [] acc = Inl (Error ''query result takes too long'')"
| "awaitAccount (answer # answers) acc =
     bindR (errorf ''query tx failed: '' answer) (\<lambda>status.
     case cs_StatusCode status of
       NotExist \<Rightarrow> Inl (Error ''tx not found'')
     | Rejected \<Rightarrow> Inl (Error (''tx rejected: '' @ cs_ErrorMessage status))
     | Accepted \<Rightarrow> awaitAccount answers acc
     | Confirmed \<Rightarrow> errorf ''get account failed: '' acc
     | Failed \<Rightarrow> Inl (Error (''tx failed: '' @ cs_ErrorMessage status))
     | Unknown \<Rightarrow> Inl (Error ''tx status unknown''))"

definition Client_CreateTestAccount :: "string res \<Rightarrow> clientStatus res list \<Rightarrow> account res \<Rightarrow> account res" where
  "Client_CreateTestAccount resp answers acc = bindR resp (\<lambda>txKey. awaitAccount answers acc)"


section \<open>What the builder guarantees\<close>

text \<open>An operation with the payload of its type, to a valid account and without negative amounts.\<close>

fun sound_op :: "crypto \<Rightarrow> op \<Rightarrow> bool" where
  "sound_op c (Op CREATE_ACCOUNT (Some (PCreateAccount p))) \<longleftrightarrow> IsValidAccountKey c (ca_AccountID p) \<and> BaseFee \<le> ca_Balance p"
| "sound_op c (Op PAYMENT (Some (PPayment p))) \<longleftrightarrow> IsValidAccountKey c (pa_AccountID p) \<and> pa_Asset p \<noteq> None \<and> 0 \<le> pa_Amount p"
| "sound_op c (Op TRUST (Some (PTrust p))) \<longleftrightarrow> to_Asset p \<noteq> None \<and> 0 \<le> to_Limit p"
| "sound_op c _ \<longleftrightarrow> False"

definition sound_tx :: "crypto \<Rightarrow> tx \<Rightarrow> bool" where
  "sound_tx c t \<longleftrightarrow> (tx_AccountID t = [] \<or> IsValidAccountKey c (tx_AccountID t)) \<and> length (tx_Note t) \<le> MaxTxNote \<and>
     (\<forall>o1 \<in> set (tx_OpList t). sound_op c o1)"

lemma buildAssetOf_checked: "checkAssetType (ba_AssetType a) = Inr () \<Longrightarrow> \<exists>b. buildAssetOf (Some a) = Inr b"
  by (auto simp: checkAssetType_def buildAssetOf_def split: buildAssetType.splits)

lemma sound_mutated:
  assumes "mutator_validate c m = Inr ()" "mutated m t = Inr t'" "sound_tx c t"
  shows "sound_tx c t'"
  using assms
  by (cases m) (auto simp: sound_tx_def appendOp_def MaxTxNote_def bindR_eq_Inr split: if_splits option.splits)

lemma sound_Mutate: "pred_option (sound_tx c) s \<Longrightarrow> pred_option (sound_tx c) (snd (Mutate c m s))"
  by (auto simp: Mutate_def bindR_eq_Inr intro: sound_mutated split: option.splits sum.splits)

text \<open>A transaction under construction is never nil and keeps sound.\<close>

definition building :: "crypto \<Rightarrow> tx option \<Rightarrow> bool" where
  "building c s \<longleftrightarrow> s \<noteq> None \<and> pred_option (sound_tx c) s"

lemma building_Mutate: "building c s \<Longrightarrow> building c (snd (Mutate c m s))"
  using sound_Mutate [of c s m] by (auto simp: building_def Mutate_def split: sum.splits)

lemma building_mutateAll: "building c s \<Longrightarrow> building c (snd (mutateAll c ms s))"
proof (induction ms arbitrary: s)
  case (Cons m ms)
  obtain r t where m: "Mutate c m s = (r, t)" by force
  then have "building c t" using building_Mutate [OF Cons.prems, of m] by simp
  then show ?case using Cons.IH [of t] m by (cases r) (simp_all add: thenA_def bindA_def)
qed simp

lemma building_Add: "building c s \<Longrightarrow> building c (snd (Tx_Add c ms s))"
proof -
  assume b: "building c s"
  obtain r t where t: "mutateAll c ms s = (r, t)" by force
  then have bt: "building c t" using building_mutateAll [OF b, of ms] by simp
  obtain r' u where u: "Mutate c (FeeM BaseFee) t = (r', u)" by force
  then have "building c u" using building_Mutate [OF bt, of "FeeM BaseFee"] by simp
  then show ?thesis using t u bt by (cases r; cases r') (simp_all add: Tx_Add_def thenA_def bindA_def snd_act_simps)
qed

lemma getTxOpList_sound: "\<forall>o1 \<in> set ops. sound_op c o1 \<Longrightarrow> \<exists>xs. getTxOpList cx ops acc n = Inr xs \<and> length xs = length ops"
proof (induction ops)
  case (Cons o1 ops)
  then have "sound_op c o1" by simp
  then have "\<exists>x. txOp cx acc n o1 = Inr x" by (cases "(c, o1)" rule: sound_op.cases) (auto simp: txOp_def)
  then show ?case using Cons by auto
qed simp

text \<open>
  C14.  What the builder returns: after any additions, failed ones included, a last successful one gives a
  transaction of a valid account with at least one operation and the base fee for each of them; its note
  passes the check of the node, and every operation is one the node can turn into work, with no negative
  amount.
\<close>

theorem built_tx_sound:
  assumes "s = foldl (\<lambda>s ms. snd (Tx_Add c ms s)) NewTx mss" "Tx_Add c ms s = (Inr (), s')"
  shows "\<exists>t. s' = Some t \<and> IsValidAccountKey c (tx_AccountID t) \<and> tx_OpList t \<noteq> [] \<and>
    tx_Fee t = i64 (1000 * int (length (tx_OpList t))) \<and> length (tx_Note t) \<le> MaxTxNote \<and> (\<forall>o1 \<in> set (tx_OpList t). sound_op c o1) \<and>
    (\<forall>cx n. \<exists>xs. getTxOpList cx (tx_OpList t) (tx_AccountID t) n = Inr xs \<and> length xs = length (tx_OpList t))"
proof -
  have "building c (foldl (\<lambda>s ms. snd (Tx_Add c ms s)) r mss)" if "building c r" for r
    using that by (induction mss arbitrary: r) (simp_all add: building_Add)
  moreover have "building c NewTx" by (simp add: building_def NewTx_def sound_tx_def)
  ultimately have "building c s'" using building_Add [of c s ms] assms by simp
  then obtain t where t: "s' = Some t" "sound_tx c t" by (auto simp: building_def)
  have v: "tx_AccountID t \<noteq> []" "tx_OpList t \<noteq> []" "\<exists>u. t = u\<lparr>tx_Fee := i64 (1000 * int (length (tx_OpList u)))\<rparr>"
    using assms(2) t(1) unfolding Tx_Add_def
    by (auto elim!: thenA_runE simp: readA_def tx_validate_def Mutate_def BaseFee_def bindR_eq_Inr split: option.splits if_splits)
  then have "tx_Fee t = i64 (1000 * int (length (tx_OpList t)))" by auto
  then show ?thesis using t v(1,2) getTxOpList_sound [of "tx_OpList t" c] by (auto simp: sound_tx_def)
qed

text \<open>An address that is not a key is refused; the payment is then added to a valid account.\<close>

definition sample_key :: string where
  "sample_key = EncodeKey plain (ULTKey KeyTypeAccountID (replicate 32 (CHR ''a'')))"

theorem built_tx_sound_witness:
  "let s = snd (Tx_Add plain [AccountIDM ''bad''] NewTx);
       s' = snd (Tx_Add plain [AccountIDM sample_key, PaymentM sample_key (Some (BuildAsset BuildNative [] [])) 5] s)
   in \<exists>t. s' = Some t \<and> IsValidAccountKey plain (tx_AccountID t) \<and> tx_Fee t = 1000"
proof -
  let ?s = "snd (Tx_Add plain [AccountIDM ''bad''] NewTx)" and ?ms = "[AccountIDM sample_key, PaymentM sample_key (Some (BuildAsset BuildNative [] [])) 5]"
  have "fst (Tx_Add plain ?ms ?s) = Inr ()" by code_simp
  then have r: "Tx_Add plain ?ms ?s = (Inr (), snd (Tx_Add plain ?ms ?s))" by (metis prod.collapse)
  have "length (tx_OpList (the (snd (Tx_Add plain ?ms ?s)))) = 1" by code_simp
  then show ?thesis using built_tx_sound [OF _ r, of "[[AccountIDM ''bad'']]"] by (auto simp: Let_def i64_def)
qed

end
