(* ===== verification/TxMgrSpec.thy ===== *)
theory TxMgrSpec
  imports TxMgr
begin

text \<open>
  What the transaction manager does: the invariant of its pending transactions, the exact charging
  of fees, the atomicity of a failed transaction, the status of a transaction, and the states in
  which it stops working.
\<close>


section \<open>Statuses and transactions in the store\<close>

definition storable_status :: "tx_status \<Rightarrow> bool" where
  "storable_status st \<longleftrightarrow> TxStatus_utf8 st \<and> TxStatus_fits st \<and> length (put_fields (TxStatus_fields st)) < wire_max"

lemma bucket_ok_tx [simp]: "bucket_ok TXSTATUS" "bucket_ok TX" "TXSTATUS \<noteq> TX" "TX \<noteq> TXSTATUS"
  "TXSTATUS \<noteq> ACCOUNT" "ACCOUNT \<noteq> TXSTATUS" "TX \<noteq> ACCOUNT" "ACCOUNT \<noteq> TX"
  by (simp_all add: bucket_ok_def TXSTATUS_def TX_def ACCOUNT_def)

interpretation statuses: table TXSTATUS EncodeTxStatus DecodeTxStatus storable_status
proof
  fix st assume s: "storable_status st"
  then have "EncodeTxStatus st = Inr (put_fields (TxStatus_fields st))"
    by (simp add: storable_status_def EncodeTxStatus_def marshal_def)
  moreover have "DecodeTxStatus (put_fields (TxStatus_fields st)) = Inr st"
    using s TxStatus.round_trip [of st "put_fields (TxStatus_fields st)"]
    by (simp add: storable_status_def DecodeTxStatus_def marshal_def)
  ultimately show "\<exists>b. EncodeTxStatus st = Inr b \<and> DecodeTxStatus b = Inr st" by blast
qed simp

lemma storable_plain_status: "TxStatusCode_fits code \<Longrightarrow> storable_status (TxStatus code [] [])"
proof -
  assume c: "TxStatusCode_fits code"
  have "fsize (TxStatus_fields (TxStatus code [] [])) \<le> 60"
    using fsize_int [of 1 "TxStatusCode_num code"] fsize_str [of 2 "[]"] fsize_str [of 3 "[]"]
    by (simp add: TxStatus_fields_def del: One_nat_def)
  then have "length (put_fields (TxStatus_fields (TxStatus code [] []))) \<le> 60"
    using put_fields_length [OF TxStatus.nums, of "TxStatus code [] []"] by linarith
  then have "length (put_fields (TxStatus_fields (TxStatus code [] []))) < wire_max" by (simp add: wire_max_def)
  then show ?thesis using c by (simp add: storable_status_def TxStatus_utf8_def TxStatus_fits_def)
qed

lemma codes_fit [simp]: "TxStatusCode_fits ACCEPTED" "TxStatusCode_fits CONFIRMED" "TxStatusCode_fits FAILED"
  by (simp_all add: TxStatusCode_fits_def TxStatusCode_num_def TxStatusCode_of_def in32_def)


section \<open>What an action leaves alone\<close>

text \<open>The pending transactions: everything but the store and the cache of statuses.\<close>

definition same_pending :: "txmgr \<Rightarrow> txmgr \<Rightarrow> bool" where
  "same_pending s t \<longleftrightarrow>
     tm_txSet t = tm_txSet s \<and> tm_accTxMap t = tm_accTxMap s \<and> tm_locked t = tm_locked s \<and> tm_txChan t = tm_txChan s"

interpretation pending: frame same_pending
  by unfold_locales (auto simp: same_pending_def)

lemma pending_basic [simp]:
  "same_pending s (snd (onStore m s))" "same_pending s (snd (cacheStatus k st s))"
  by (auto simp: same_pending_def onStore_def cacheStatus_def split: prod.splits)

lemma pending_UpdateTxStatus [simp]: "same_pending s (snd (UpdateTxStatus k st s))"
  unfolding UpdateTxStatus_def
  by (intro pending.frame_then pending.frame_bind) simp_all

lemma pending_failTx [simp]: "same_pending s (snd (failTx k m s))"
  by (simp add: failTx_def)

lemma pending_present [simp]: "same_pending s (snd (present e p s))"
  by (simp add: present_def split: option.splits)

lemma pending_chargeTxs [simp]: "same_pending s (snd (chargeTxs c acc txs rest s))"
proof (induction txs arbitrary: acc rest s)
  case (Cons tx txs)
  then show ?case by (auto intro!: pending.frame_then)
qed simp

lemma pending_chargeAccounts [simp]: "same_pending s (snd (chargeAccounts c txs aids rest s))"
proof (induction aids arbitrary: rest s)
  case (Cons aid aids)
  then show ?case by (auto intro!: pending.frame_then pending.frame_bind split: prod.splits)
qed simp

lemma pending_runTx [simp]: "same_pending s (snd (runTx c k ops s))"
proof -
  have "same_pending t (snd (case applyOps c ops (tm_database t) of
         (Inr _, d) \<Rightarrow>
           thenA (errorfA ''commit changes to db failed: '' (onStore Commit))
             (errorfA ''update tx status failed: '' (UpdateTxStatus k (TxStatus CONFIRMED [] []))) (t\<lparr>tm_database := d\<rparr>)
       | (Inl (Error msg), d) \<Rightarrow> failTx k msg (t\<lparr>tm_database := x_undo c (tm_database t) d\<rparr>)
       | (Inl f, d) \<Rightarrow> (Inl f, t\<lparr>tm_database := d\<rparr>)))" for t
  proof -
    have u: "same_pending t (t\<lparr>tm_database := d\<rparr>)" for d by (simp add: same_pending_def)
    have a: "same_pending t (snd (m (t\<lparr>tm_database := d\<rparr>)))" if "\<And>x. same_pending x (snd (m x))" for m :: "(txmgr, unit) act" and d
      using pending.frame_trans [OF u that] .
    show ?thesis
      by (auto intro!: a u pending.frame_then split: prod.splits sum.splits failure.splits)
  qed
  then show ?thesis unfolding runTx_def by (intro pending.frame_then) simp_all
qed

lemma pending_applyTx [simp]: "same_pending s (snd (applyTx c n tx s))"
  unfolding applyTx_def Let_def
  by (intro pending.frame_then) (auto split: sum.splits failure.splits)

lemma pending_applyTxs [simp]: "same_pending s (snd (applyTxs c n txs s))"
  by (induction txs arbitrary: s) (auto intro!: pending.frame_then)

lemma pending_ApplyTxList: "same_pending s (snd (ApplyTxList c txs n s))"
  unfolding ApplyTxList_def Let_def by (intro pending.frame_bind) simp_all


section \<open>The invariant of the pending transactions\<close>

lemma i64_add_left: "i64 (i64 x + y) = i64 (x + y)"
proof -
  have "(i64 x + y + 2 ^ 63) mod 2 ^ 64 = ((x + 2 ^ 63) mod 2 ^ 64 + y) mod 2 ^ 64"
    by (simp add: i64_def algebra_simps)
  also have "\<dots> = (x + 2 ^ 63 + y) mod 2 ^ 64" by (rule mod_add_left_eq)
  finally show ?thesis by (simp only: i64_def add.assoc add.commute [of y "2 ^ 63"])
qed

text \<open>
  The history of an account: its transactions are of the account and known to the duplicate filter,
  the fees are their sum and the largest sequence number is that of one of them.
\<close>

definition pending_fees :: "(string \<times> tx) list \<Rightarrow> int" where
  "pending_fees m = sum_list (map (\<lambda>p. tx_Fee (snd p)) m)"

definition hist_ok :: "string set \<Rightarrow> string \<Rightarrow> tx_history \<Rightarrow> bool" where
  "hist_ok known aid h \<longleftrightarrow>
     distinct (map fst (h_txMap h)) \<and> fst ` set (h_txMap h) \<subseteq> known \<and>
     (\<forall>t \<in> snd ` set (h_txMap h). tx_AccountID t = aid \<and> tx_SeqNum t \<le> h_MaxSeqNum h) \<and>
     h_TotalFees h = i64 (pending_fees (h_txMap h)) \<and>
     h_MaxSeqNum h \<in> insert 0 (tx_SeqNum ` snd ` set (h_txMap h))"

definition tm_ok :: "txmgr \<Rightarrow> bool" where
  "tm_ok s \<longleftrightarrow>
     distinct (map fst (tm_accTxMap s)) \<and>
     (\<forall>aid h. map_of (tm_accTxMap s) aid = Some h \<longrightarrow> hist_ok (tm_txSet s) aid h)"

lemma hist_ok_new [simp]: "hist_ok known aid NewTxHistory"
  by (simp add: hist_ok_def NewTxHistory_def pending_fees_def i64_def)

lemma hist_ok_mono: "hist_ok known aid h \<Longrightarrow> known \<subseteq> known' \<Longrightarrow> hist_ok known' aid h"
  by (auto simp: hist_ok_def)

lemma update_new: "k \<notin> fst ` set xs \<Longrightarrow> AList.update k v xs = xs @ [(k, v)]"
  by (induction xs) auto

lemma hist_ok_AddTx:
  assumes "hist_ok known aid h" "k \<notin> known" "tx_AccountID tx = aid"
  shows "hist_ok (insert k known) aid (snd (TxHistory_AddTx k tx h))"
proof (cases "tx_SeqNum tx < h_MaxSeqNum h")
  case True
  then show ?thesis using hist_ok_mono [OF assms(1), of "insert k known"] by (auto simp: TxHistory_AddTx_def)
next
  case False
  have "k \<notin> fst ` set (h_txMap h)" using assms(1,2) by (auto simp: hist_ok_def)
  then have "AList.update k tx (h_txMap h) = h_txMap h @ [(k, tx)]" by (rule update_new)
  moreover have "tx_SeqNum t \<le> tx_SeqNum tx" if "t \<in> snd ` set (h_txMap h)" for t
    using assms(1) False that by (force simp: hist_ok_def)
  ultimately show ?thesis
    using assms False by (auto simp: TxHistory_AddTx_def hist_ok_def i64_add_left pending_fees_def)
qed

lemma fold_fees: "fold (\<lambda>(_, tx) n. i64 (n + tx_Fee tx)) m n = (if m = [] then n else i64 (n + pending_fees m))"
proof (induction m arbitrary: n)
  case (Cons p m)
  then show ?case by (cases p) (auto simp: i64_add_left add.assoc pending_fees_def)
qed simp

lemma fold_maxseq:
  fixes n :: "64 word"
  shows "fold (\<lambda>(_, tx) m. if tx_SeqNum tx > m then tx_SeqNum tx else m) ts n \<in> insert n (tx_SeqNum ` snd ` set ts) \<and>
    n \<le> fold (\<lambda>(_, tx) m. if tx_SeqNum tx > m then tx_SeqNum tx else m) ts n \<and>
    (\<forall>t \<in> snd ` set ts. tx_SeqNum t \<le> fold (\<lambda>(_, tx) m. if tx_SeqNum tx > m then tx_SeqNum tx else m) ts n)"
proof (induction ts arbitrary: n)
  case (Cons p ts)
  obtain k t where p: "p = (k, t)" by (cases p)
  show ?case using Cons.IH [of "if tx_SeqNum t > n then tx_SeqNum t else n"] unfolding p
    by (auto split: if_splits)
qed simp

lemma set_fold_delete: "set (fold AList.delete ks m) \<subseteq> set m"
proof (induction ks arbitrary: m)
  case (Cons k ks)
  then show ?case by (fastforce simp: AList.delete_eq)
qed simp

lemma distinct_fold_delete: "distinct (map fst m) \<Longrightarrow> distinct (map fst (fold AList.delete ks m))"
  by (induction ks arbitrary: m) (auto simp: AList.delete_eq distinct_map_filter)

lemma hist_ok_DeleteTxList:
  assumes "hist_ok known aid h"
  shows "hist_ok known aid (TxHistory_DeleteTxList ks h)"
proof -
  let ?m = "fold AList.delete ks (h_txMap h)"
  have "set ?m \<subseteq> set (h_txMap h)" by (rule set_fold_delete)
  then have "fst ` set ?m \<subseteq> known" "\<forall>t \<in> snd ` set ?m. tx_AccountID t = aid"
    using assms unfolding hist_ok_def by blast+
  moreover have "distinct (map fst ?m)" using assms by (simp add: hist_ok_def distinct_fold_delete)
  moreover have "fold (\<lambda>(_, tx) n. i64 (n + tx_Fee tx)) ?m 0 = i64 (pending_fees ?m)"
    by (auto simp: fold_fees pending_fees_def i64_id in64_def)
  ultimately show ?thesis
    using fold_maxseq [of ?m 0] unfolding hist_ok_def TxHistory_DeleteTxList_def Let_def by simp
qed

lemma tm_ok_pending: "same_pending s t \<Longrightarrow> tm_ok t = tm_ok s"
  by (simp add: same_pending_def tm_ok_def)

lemma tm_ok_newHistory: "tm_ok s \<Longrightarrow> tm_ok (newHistory aid s)"
  by (auto simp: newHistory_def tm_ok_def AList.distinct_update AList.update_conv' simp del: map_of_eq_Some_iff split: if_splits)

lemma tm_ok_addToHistory:
  assumes "tm_ok s" "k \<notin> tm_txSet s"
  shows "tm_ok ((addToHistory k tx s)\<lparr>tm_txSet := insert k (tm_txSet (addToHistory k tx s))\<rparr>)"
proof (cases "map_of (tm_accTxMap s) (tx_AccountID tx)")
  case None
  then show ?thesis using assms hist_ok_mono [of "tm_txSet s" _ _ "insert k (tm_txSet s)"]
    by (auto simp: addToHistory_def tm_ok_def simp del: map_of_eq_Some_iff)
next
  case (Some h)
  then have "hist_ok (insert k (tm_txSet s)) (tx_AccountID tx) (snd (TxHistory_AddTx k tx h))"
    using assms by (intro hist_ok_AddTx) (auto simp: tm_ok_def)
  then show ?thesis using assms Some hist_ok_mono [of "tm_txSet s" _ _ "insert k (tm_txSet s)"]
    by (auto simp: addToHistory_def tm_ok_def AList.distinct_update AList.update_conv' simp del: map_of_eq_Some_iff)
qed

lemma tm_ok_lock [simp]: "tm_ok (s\<lparr>tm_locked := b\<rparr>) = tm_ok s" "tm_ok (s\<lparr>tm_txChan := ch\<rparr>) = tm_ok s"
  "tm_ok (s\<lparr>tm_database := d\<rparr>) = tm_ok s" "tm_ok (s\<lparr>tm_txStatus := cc\<rparr>) = tm_ok s"
  by (simp_all add: tm_ok_def)

lemma tm_ok_deleteAccounts: "tm_ok s \<Longrightarrow> tm_ok (snd (deleteAccounts c txs accs s))"
proof (induction accs arbitrary: s)
  case (Cons acc accs)
  have del: "tm_ok (s\<lparr>tm_accTxMap := AList.delete acc (tm_accTxMap s)\<rparr>)"
    using Cons.prems distinct_fold_delete [of "tm_accTxMap s" "[acc]"]
    by (auto simp: tm_ok_def AList.delete_conv' simp del: map_of_eq_Some_iff split: if_splits)
  have upd: "tm_ok (s\<lparr>tm_accTxMap := AList.update acc (TxHistory_DeleteTxList ks h) (tm_accTxMap s)\<rparr>)"
    if "map_of (tm_accTxMap s) acc = Some h" for ks h
    using Cons.prems that hist_ok_DeleteTxList
    by (auto simp: tm_ok_def AList.update_conv' AList.distinct_update simp del: map_of_eq_Some_iff split: if_splits)
  show ?case
    using Cons.prems Cons.IH del upd
    by (auto simp: thenA_def bindA_def lockTm_def unlockTm_def Let_def split: option.splits)
qed simp


text \<open>The steps of AddTx once all checks are passed: the pending transactions first, then the store.\<close>

definition enterTx :: "string \<Rightarrow> tx \<Rightarrow> txmgr \<Rightarrow> txmgr" where
  "enterTx k tx s = (let t = addToHistory k tx s in t\<lparr>tm_locked := False, tm_txSet := insert k (tm_txSet t)\<rparr>)"

definition storeTx :: "string \<Rightarrow> tx \<Rightarrow> (txmgr, unit) act" where
  "storeTx k tx =
     bindA (liftA (errorf ''encode tx failed: '' (EncodeTx tx))) (\<lambda>b.
     thenA (errorfA ''save tx in db failed: '' (onStore (Put TX k b)))
    (thenA (errorfA ''update tx status failed: '' (UpdateTxStatus k (TxStatus ACCEPTED [] [])))
    (modifyA (\<lambda>s. s\<lparr>tm_txChan := tm_txChan s @ [tx]\<rparr>))))"

definition pendingOf :: "string \<Rightarrow> txmgr \<Rightarrow> tx_history" where
  "pendingOf aid s = (case map_of (tm_accTxMap s) aid of None \<Rightarrow> NewTxHistory | Some h \<Rightarrow> h)"

definition spendable :: "txcfg \<Rightarrow> account \<Rightarrow> int" where
  "spendable c acc = i64 (a_Balance acc - i64 (x_baseReserve c * a_EntryCount acc))"

definition admissible :: "txcfg \<Rightarrow> tx \<Rightarrow> account \<Rightarrow> txmgr \<Rightarrow> bool" where
  "admissible c tx acc s \<longleftrightarrow>
     h_MaxSeqNum (pendingOf (tx_AccountID tx) s) \<le> tx_SeqNum tx \<and>
     (if map_of (tm_accTxMap s) (tx_AccountID tx) = None then tx_Fee tx
      else i64 (tx_Fee tx + h_TotalFees (pendingOf (tx_AccountID tx) s))) \<le> spendable c acc \<and>
     length (tx_Note tx) \<le> MaxTxNote \<and> length (tx_OpList tx) \<le> MaxTxOpList"

lemma onStore_GetAccount [simp]: "onStore (readA g) s = (g (tm_database s), s)"
  by (simp add: onStore_def)

text \<open>What AddTx does, case by case.\<close>

lemma AddTx_known: "k \<in> tm_txSet s \<Longrightarrow> AddTx c k tx s = (Inr (), s)"
  by (simp add: AddTx_def bindA_def)

lemma AddTx_cases:
  assumes "k \<notin> tm_txSet s"
  shows "AddTx c k tx s =
    (case GetAccount (tx_AccountID tx) (tm_database s) of
       Inl f \<Rightarrow> (Inl (wrap_failure ''get account failed: '' f), s)
     | Inr None \<Rightarrow> (Inl ErrAccountNotExist, s)
     | Inr (Some acc) \<Rightarrow>
         let t = newHistory (tx_AccountID tx) s in
         if admissible c tx acc s then
           (if tm_locked s then (Inl (Blocked ''tm.rwm''), t) else storeTx k tx (enterTx k tx (t\<lparr>tm_locked := True\<rparr>)))
         else (fst (AddTx c k tx s), t))"
proof -
  have m: "MaxUint64 x y > x \<longleftrightarrow> \<not> y \<le> x" for x y by (auto simp: MaxUint64_def)
  have l: "tm_locked (newHistory a s) = tm_locked s" for a by (simp add: newHistory_def)
  show ?thesis
    unfolding AddTx_def using assms
    by (auto simp: bindA_def thenA_def errorfA_def present_def Let_def m l lockTm_def unlockTm_def admissible_def
        pendingOf_def spendable_def NewTxHistory_def storeTx_def enterTx_def not_less
        split: sum.splits option.splits prod.splits)
qed

lemma enter_ok:
  assumes "tm_ok s" "k \<notin> tm_txSet s"
  shows "tm_ok (enterTx k tx ((newHistory aid s)\<lparr>tm_locked := b\<rparr>))"
proof -
  have "tm_ok ((newHistory aid s)\<lparr>tm_locked := b\<rparr>)" using tm_ok_newHistory [OF assms(1)] by simp
  moreover have "k \<notin> tm_txSet ((newHistory aid s)\<lparr>tm_locked := b\<rparr>)" using assms(2) by (simp add: newHistory_def)
  ultimately have "tm_ok ((addToHistory k tx ((newHistory aid s)\<lparr>tm_locked := b\<rparr>))
      \<lparr>tm_txSet := insert k (tm_txSet (addToHistory k tx ((newHistory aid s)\<lparr>tm_locked := b\<rparr>)))\<rparr>)"
    by (rule tm_ok_addToHistory)
  then show ?thesis by (simp add: enterTx_def Let_def tm_ok_def)
qed

interpretation keep_ok: frame "\<lambda>s t. tm_ok s \<longrightarrow> tm_ok t"
  by unfold_locales auto

lemma tm_ok_storeTx: "tm_ok s \<longrightarrow> tm_ok (snd (storeTx k tx s))"
proof -
  have "tm_ok t \<longrightarrow> tm_ok (snd (onStore m t))" "tm_ok t \<longrightarrow> tm_ok (snd (UpdateTxStatus j st t))" for t m j st
    using tm_ok_pending [OF pending_basic(1)] tm_ok_pending [OF pending_UpdateTxStatus] by blast+
  then show ?thesis unfolding storeTx_def by (intro keep_ok.frame_bind keep_ok.frame_then) auto
qed

lemma tm_ok_AddTx: "tm_ok s \<Longrightarrow> tm_ok (snd (AddTx c k tx s))"
proof (cases "k \<in> tm_txSet s")
  case False
  assume s: "tm_ok s"
  then show ?thesis
    using tm_ok_storeTx enter_ok [OF s False] tm_ok_newHistory [OF s]
    by (subst AddTx_cases [OF False]) (auto simp: Let_def split: sum.splits option.splits)
qed (simp add: AddTx_known)

text \<open>
  The manager as a state machine: its methods in any order and with any arguments, and writes of the
  other managers to the shared store.
\<close>

inductive tm_step :: "txcfg \<Rightarrow> txmgr \<Rightarrow> txmgr \<Rightarrow> bool" for c where
  "tm_step c s (snd (AddTx c k tx s))"
| "tm_step c s (snd (ApplyTxList c txs n s))"
| "tm_step c s (snd (DeleteTxList c txs s))"
| "tm_step c s (snd (GetTxStatus k s))"
| "tm_step c s (snd (GetTxList c s))"
| "tm_step c s (snd (UpdateTxStatus k st s))"
| "tm_step c s (snd (TxMgr_Start_step c rpc s))"
| "tm_step c s (s\<lparr>tm_database := d\<rparr>)"

definition freshTm :: "db \<Rightarrow> txmgr" where
  "freshTm d = \<lparr>tm_database = d, tm_txStatus = [], tm_txSet = {}, tm_accTxMap = [], tm_locked = False, tm_txChan = []\<rparr>"

lemma TxMgr_NewManager_fresh: "TxMgr_NewManager d = (Inr (freshTm d), d)"
  by (simp add: TxMgr_NewManager_def freshTm_def mustBucket_def NewBucket_def thenA_def bindA_def)

lemma tm_ok_step: "tm_step c s t \<Longrightarrow> tm_ok s \<Longrightarrow> tm_ok t"
proof (induction rule: tm_step.induct)
  case (3 s txs)
  then show ?case by (simp add: DeleteTxList_def tm_ok_deleteAccounts)
next
  case (4 s k)
  then show ?case by (auto simp: GetTxStatus_def split: prod.splits option.splits)
next
  case (7 s rpc)
  then show ?case by (auto simp: TxMgr_Start_step_def split: list.splits)
qed (auto simp: tm_ok_AddTx tm_ok_pending [OF pending_ApplyTxList] tm_ok_pending [OF pending_UpdateTxStatus] GetTxList_def)

text \<open>
  C28.  Pending transactions: in every state the manager can reach, the fees recorded for an account are
  the sum of the fees of its pending transactions, the sequence number recorded is the largest of
  theirs, and every pending transaction is held once, under its own account and known to the filter
  of duplicates.
\<close>

theorem pending_invariant:
  assumes "TxMgr_NewManager d = (Inr s0, d)" "(tm_step c)\<^sup>*\<^sup>* s0 s" "map_of (tm_accTxMap s) aid = Some h"
  shows "h_TotalFees h = i64 (pending_fees (h_txMap h)) \<and>
    (\<forall>(k, t) \<in> set (h_txMap h). tx_AccountID t = aid \<and> k \<in> tm_txSet s \<and> tx_SeqNum t \<le> h_MaxSeqNum h) \<and>
    (h_txMap h \<noteq> [] \<longrightarrow> h_MaxSeqNum h \<in> tx_SeqNum ` snd ` set (h_txMap h)) \<and> distinct (map fst (h_txMap h))"
proof -
  have "tm_ok s0" using assms(1) by (auto simp: TxMgr_NewManager_fresh freshTm_def tm_ok_def)
  with assms(2) have "tm_ok s" by (induction rule: rtranclp_induct) (auto intro: tm_ok_step)
  then have h: "hist_ok (tm_txSet s) aid h" using assms(3) by (simp add: tm_ok_def del: map_of_eq_Some_iff)
  moreover have "h_MaxSeqNum h \<in> tx_SeqNum ` snd ` set (h_txMap h)" if ne: "h_txMap h \<noteq> []"
  proof -
    obtain p where "p \<in> set (h_txMap h)" using ne by (meson list.set_sel(1))
    then have "tx_SeqNum (snd p) \<le> h_MaxSeqNum h" and p: "tx_SeqNum (snd p) \<in> tx_SeqNum ` snd ` set (h_txMap h)"
      using h by (auto simp: hist_ok_def)
    then have "h_MaxSeqNum h = 0 \<longrightarrow> h_MaxSeqNum h = tx_SeqNum (snd p)" by auto
    moreover have "h_MaxSeqNum h = 0 \<or> h_MaxSeqNum h \<in> tx_SeqNum ` snd ` set (h_txMap h)"
      using h by (simp add: hist_ok_def)
    ultimately show ?thesis using p by metis
  qed
  moreover have "\<forall>(k, t) \<in> set (h_txMap h). tx_AccountID t = aid \<and> k \<in> tm_txSet s \<and> tx_SeqNum t \<le> h_MaxSeqNum h"
    using h unfolding hist_ok_def by (auto simp: image_subset_iff)
  ultimately show ?thesis unfolding hist_ok_def by blast
qed


definition cfg :: txcfg where
  "cfg = \<lparr>x_crypto = plain, x_seed = ''seed'', x_baseReserve = 1, x_amReserve = 1, x_sort = go_sort TxSlice_Less,
     x_order = (\<lambda>xs. xs), x_txOrder = (\<lambda>xs. xs), x_dbOrder = (\<lambda>xs. xs), x_undo = (\<lambda>_ d. d)\<rparr>"

theorem pending_invariant_witness:
  "\<exists>h. map_of (tm_accTxMap (snd (AddTx cfg ''k'' sample_tx (freshTm two_accounts)))) ''alice'' = Some h \<and>
     h_TotalFees h = 10 \<and> i64 (pending_fees (h_txMap h)) = 10 \<and> h_MaxSeqNum h = 7"
proof -
  let ?h = "\<lparr>h_MaxSeqNum = 7, h_TotalFees = 10, h_txMap = [(''k'', sample_tx)]\<rparr>"
  have m: "map_of (tm_accTxMap (snd (AddTx cfg ''k'' sample_tx (freshTm two_accounts)))) ''alice'' = Some ?h"
    by code_simp
  have "h_TotalFees ?h = i64 (pending_fees (h_txMap ?h))"
    using pending_invariant [OF TxMgr_NewManager_fresh r_into_rtranclp [of "tm_step cfg", OF tm_step.intros(1)] m] by blast
  then show ?thesis using m by simp
qed


section \<open>The lock that is not released\<close>

lemma deleteAccounts_locked: "tm_locked s \<Longrightarrow> accs \<noteq> [] \<Longrightarrow> deleteAccounts c txs accs s = (Inl (Blocked ''tm.rwm''), s)"
  by (cases accs) (auto simp: thenA_def bindA_def lockTm_def)

lemma deleteAccounts_unknown:
  "a \<in> set accs \<Longrightarrow> map_of (tm_accTxMap s) a = None \<Longrightarrow> tm_locked (snd (deleteAccounts c txs accs s))"
proof (induction accs arbitrary: s)
  case (Cons acc accs)
  show ?case
  proof (cases "tm_locked s")
    case True
    then show ?thesis using deleteAccounts_locked [OF True, of "acc # accs" c txs] by (simp del: deleteAccounts.simps)
  next
    case open_: False
    show ?thesis
    proof (cases "map_of (tm_accTxMap s) acc")
      case None
      then show ?thesis using open_
        by (cases "accs = []") (auto simp: thenA_def bindA_def lockTm_def deleteAccounts_locked)
    next
      case (Some h)
      then have "a \<in> set accs" "a \<noteq> acc" using Cons.prems by auto
      then show ?thesis using open_ Some Cons.prems(2) Cons.IH
        by (auto simp: thenA_def bindA_def lockTm_def unlockTm_def Let_def AList.update_conv' AList.delete_conv')
    qed
  qed
qed simp

definition permutes_maps :: "txcfg \<Rightarrow> bool" where
  "permutes_maps c \<longleftrightarrow> (\<forall>xs. mset (x_order c xs) = mset xs) \<and> (\<forall>xs. mset (x_txOrder c xs) = mset xs)"

lemma set_x_order: "permutes_maps c \<Longrightarrow> set (x_order c xs) = set xs"
  unfolding permutes_maps_def by (metis set_mset_mset)

text \<open>
  Deleting the transactions of a closed ledger never gives the lock back when one of them belongs
  to an account without pending transactions: afterwards listing the pending transactions waits
  forever, and so does every transaction that passes the checks.
\<close>

theorem DeleteTxList_deadlock:
  assumes "permutes_maps c" "tx \<in> set txs" "map_of (tm_accTxMap s) (tx_AccountID tx) = None"
    and "s' = snd (DeleteTxList c txs s)"
  shows "GetTxList c s' = (Inl (Blocked ''tm.rwm''), s') \<and>
    (\<forall>k t acc. k \<notin> tm_txSet s' \<and> GetAccount (tx_AccountID t) (tm_database s') = Inr (Some acc) \<and> admissible c t acc s'
      \<longrightarrow> fst (AddTx c k t s') = Inl (Blocked ''tm.rwm''))"
proof -
  have "tx_AccountID tx \<in> set (x_order c (remdups (map tx_AccountID txs)))"
    using assms(1,2) by (simp add: set_x_order)
  then have "tm_locked s'"
    using assms(3,4) deleteAccounts_unknown by (simp add: DeleteTxList_def)
  then show ?thesis by (auto simp: GetTxList_def AddTx_cases Let_def)
qed

theorem DeleteTxList_deadlock_witness:
  "let s' = snd (DeleteTxList cfg [sample_tx] (freshTm two_accounts))
   in GetTxList cfg s' = (Inl (Blocked ''tm.rwm''), s') \<and> fst (AddTx cfg ''k'' sample_tx s') = Inl (Blocked ''tm.rwm'')"
proof -
  let ?s = "snd (DeleteTxList cfg [sample_tx] (freshTm two_accounts))"
  have "permutes_maps cfg" by (simp add: permutes_maps_def cfg_def)
  moreover have "map_of (tm_accTxMap (freshTm two_accounts)) (tx_AccountID sample_tx) = None" by (simp add: freshTm_def)
  moreover have "''k'' \<notin> tm_txSet ?s" "GetAccount (tx_AccountID sample_tx) (tm_database ?s) = Inr (Some alice)"
    "admissible cfg sample_tx alice ?s"
    by code_simp+
  ultimately show ?thesis using DeleteTxList_deadlock [of cfg sample_tx "[sample_tx]" "freshTm two_accounts"] by simp
qed


section \<open>Charging fees\<close>

definition fees :: "tx list \<Rightarrow> int" where
  "fees txs = sum_list (map tx_Fee txs)"

lemma chargeTxs_exact:
  assumes "chargeTxs c acc txs rest s = (Inr (acc', rest'), s')"
    and "0 \<le> a_Balance acc" "in64 (a_Balance acc)" "\<forall>t \<in> set txs. 0 \<le> tx_Fee t"
  shows "\<exists>paid. rest' = rest @ paid \<and> subseq paid txs \<and> a_Balance acc' = a_Balance acc - fees paid \<and>
    0 \<le> a_Balance acc' \<and> acc' = acc\<lparr>a_Balance := a_Balance acc', a_SeqNum := a_SeqNum acc'\<rparr> \<and>
    sorted (a_SeqNum acc # map tx_SeqNum paid)"
  using assms
proof (induction txs arbitrary: acc rest s)
  case Nil
  then show ?case by (auto intro!: exI [of _ "[]"] simp: fees_def)
next
  case (Cons tx txs)
  have skip: "\<exists>paid. rest' = rest @ paid \<and> subseq paid (tx # txs) \<and> a_Balance acc' = a_Balance acc - fees paid \<and>
    0 \<le> a_Balance acc' \<and> acc' = acc\<lparr>a_Balance := a_Balance acc', a_SeqNum := a_SeqNum acc'\<rparr> \<and>
    sorted (a_SeqNum acc # map tx_SeqNum paid)" if "chargeTxs c acc txs rest t = (Inr (acc', rest'), s')" for t
    using Cons.IH [OF that Cons.prems(2,3)] Cons.prems(4) by (auto intro: list_emb_Cons)
  show ?case
  proof (cases "a_SeqNum acc > tx_SeqNum tx \<or> a_Balance acc < tx_Fee tx")
    case True
    then show ?thesis using Cons.prems(1) skip by (auto elim!: thenA_runE split: if_splits)
  next
    case False
    let ?acc = "acc\<lparr>a_Balance := a_Balance acc - tx_Fee tx, a_SeqNum := tx_SeqNum tx\<rparr>"
    have f: "0 \<le> tx_Fee tx" "tx_Fee tx \<le> a_Balance acc" "a_SeqNum acc \<le> tx_SeqNum tx" using Cons.prems(4) False by auto
    then have i: "in64 (a_Balance acc - tx_Fee tx)" using Cons.prems(2,3) by (auto simp: in64_def)
    then have "chargeTxs c ?acc txs (rest @ [tx]) s = (Inr (acc', rest'), s')"
      using Cons.prems(1) False by (simp add: i64_id)
    from Cons.IH [OF this] f i Cons.prems(4)
    obtain paid where p: "rest' = (rest @ [tx]) @ paid" "subseq paid txs" "a_Balance acc' = a_Balance ?acc - fees paid"
      "0 \<le> a_Balance acc'" "acc' = ?acc\<lparr>a_Balance := a_Balance acc', a_SeqNum := a_SeqNum acc'\<rparr>"
      "sorted (tx_SeqNum tx # map tx_SeqNum paid)"
      by auto
    have "acc' = acc\<lparr>a_Balance := a_Balance acc', a_SeqNum := a_SeqNum acc'\<rparr>" by (subst p(5)) simp
    moreover have "sorted (a_SeqNum acc # map tx_SeqNum (tx # paid))" using p(6) f(3) by auto
    ultimately show ?thesis using p(1-4) by (intro exI [of _ "tx # paid"]) (auto simp: fees_def)
  qed
qed




section \<open>Writing a status\<close>

lemma UpdateTxStatus_store:
  assumes "bucket_ok b" "(b, j) \<noteq> (TXSTATUS, k)"
  shows "Get b j (tm_database (snd (UpdateTxStatus k st s))) = Get b j (tm_database s)"
proof (cases "EncodeTxStatus st")
  case (Inl e)
  then show ?thesis by (simp add: UpdateTxStatus_def cacheStatus_def thenA_def bindA_def)
next
  case (Inr v)
  show ?thesis
  proof (cases "opened (tm_database s)")
    case True
    then show ?thesis using Inr assms mem.put_ok [OF True, of TXSTATUS k v] mem.get_put [OF True, of TXSTATUS b j k v]
      by (auto simp: UpdateTxStatus_def cacheStatus_def thenA_def bindA_def errorfA_def onStore_def split: prod.splits)
  next
    case False
    then show ?thesis using Inr mem.closed_write [OF False, of TXSTATUS k v]
      by (auto simp: UpdateTxStatus_def cacheStatus_def thenA_def bindA_def errorfA_def onStore_def split: prod.splits)
  qed
qed

lemma UpdateTxStatus_ok:
  assumes "opened (tm_database s)" "storable_status st"
  obtains s' where "UpdateTxStatus k st s = (Inr (), s')" "opened (tm_database s')"
    "statuses.load k (tm_database s') = Some st" "map_of (tm_txStatus s') k = Some st"
    "wrote TXSTATUS k (tm_database s) (tm_database s')" "same_pending s s'"
proof -
  obtain v where v: "EncodeTxStatus st = Inr v" using statuses.stores [OF assms(2)] by blast
  obtain d where p: "Put TXSTATUS k v (tm_database s) = (Inr (), d)" using mem.put_ok [OF assms(1)] by metis
  let ?c = "lru_Add 100 k st (lru_Add 100 k st (tm_txStatus s))"
  let ?s = "s\<lparr>tm_txStatus := ?c, tm_database := d\<rparr>"
  have u: "UpdateTxStatus k st s = (Inr (), ?s)"
    using p by (simp add: UpdateTxStatus_def cacheStatus_def thenA_def bindA_def errorfA_def onStore_def v)
  have w: "wrote TXSTATUS k (tm_database s) d" using Put_wrote [OF assms(1)] p by (metis bucket_ok_tx(1) snd_conv)
  show ?thesis
  proof (rule that [OF u])
    show "opened (tm_database ?s)" using w by (simp add: wrote_opened)
    show "statuses.load k (tm_database ?s) = Some st" using statuses.load_put_same [OF assms v, of k] p by simp
    show "wrote TXSTATUS k (tm_database s) (tm_database ?s)" using w by simp
    show "same_pending s ?s" by (simp add: same_pending_def)
  qed simp
qed

lemma GetTxStatus_cached: "map_of (tm_txStatus s) k = Some st \<Longrightarrow> fst (GetTxStatus k s) = Inr st"
  by (simp add: GetTxStatus_def lru_Get_def)

text \<open>
  The status of a transaction: once written it is what a query returns; after a restart, with an
  empty cache, the query returns it with the stored transaction, and if that transaction was never
  stored the query exits the process.
\<close>

theorem status_after_restart:
  assumes "opened (tm_database s)" "storable_status (TxStatus code msg [])"
  shows "\<exists>s'. UpdateTxStatus k (TxStatus code msg []) s = (Inr (), s') \<and>
    fst (GetTxStatus k s') = Inr (TxStatus code msg []) \<and>
    fst (GetTxStatus k (freshTm (tm_database s'))) =
      (case Get TX k (tm_database s) of
         Inr (Some b) \<Rightarrow> Inr (TxStatus code msg b)
       | _ \<Rightarrow> Inl (Fatal ''tx is missing while tx status is present''))"
proof -
  obtain s' where u: "UpdateTxStatus k (TxStatus code msg []) s = (Inr (), s')" "opened (tm_database s')"
    "statuses.load k (tm_database s') = Some (TxStatus code msg [])" "map_of (tm_txStatus s') k = Some (TxStatus code msg [])"
    "wrote TXSTATUS k (tm_database s) (tm_database s')" "same_pending s s'"
    using assms by (rule UpdateTxStatus_ok)
  obtain b where b: "Get TXSTATUS k (tm_database s') = Inr (Some b)" "DecodeTxStatus b = Inr (TxStatus code msg [])"
    using u(3) by (auto simp: statuses.load_def split: sum.splits option.splits)
  obtain t where t: "Get TX k (tm_database s) = Inr t"
    using assms(1) mem.get_opened [of TX k "tm_database s"] by (cases "Get TX k (tm_database s)") auto
  then have "Get TX k (tm_database s') = Inr t" using u(5) by (auto simp: wrote_def)
  then have "fst (GetTxStatus k (freshTm (tm_database s'))) =
      (case t of Some b \<Rightarrow> Inr (TxStatus code msg b) | None \<Rightarrow> Inl (Fatal ''tx is missing while tx status is present''))"
    using b by (simp add: GetTxStatus_def freshTm_def lru_Get_def split: option.splits)
  then show ?thesis using u(1) GetTxStatus_cached [OF u(4)] t by (auto split: option.splits)
qed

lemma status_storable: "storable_status (TxStatus CONFIRMED [] [])" "storable_status (TxStatus ACCEPTED [] [])"
  by (rule storable_plain_status, simp)+

theorem status_after_restart_witness:
  "\<exists>s'. UpdateTxStatus ''k'' (TxStatus CONFIRMED [] []) (freshTm two_accounts) = (Inr (), s') \<and>
    fst (GetTxStatus ''k'' (freshTm (tm_database s'))) = Inl (Fatal ''tx is missing while tx status is present'')"
proof -
  have "opened (tm_database (freshTm two_accounts))" "Get TX ''k'' (tm_database (freshTm two_accounts)) = Inr None"
    by code_simp+
  then show ?thesis
    using status_after_restart [OF _ status_storable(1), of "freshTm two_accounts" "''k''"] by auto
qed


section \<open>Transactions that fail\<close>

lemma failTx_store: "bucket_ok b \<Longrightarrow> b \<noteq> TXSTATUS \<Longrightarrow> Get b j (tm_database (snd (failTx k m s))) = Get b j (tm_database s)"
  by (simp add: failTx_def UpdateTxStatus_store)

lemma onStore_Begin [simp]: "onStore Begin s = (Inr (), s)" "onStore Commit s = (Inr (), s)"
  by (simp_all add: onStore_def Begin_def Commit_def)

lemma runTx_failed:
  "applyOps c ops (tm_database s) = (Inl (Error msg), d) \<Longrightarrow>
     runTx c k ops s = failTx k msg (s\<lparr>tm_database := x_undo c (tm_database s) d\<rparr>)"
  by (simp add: runTx_def thenA_def bindA_def errorfA_def)

lemma runTx_confirmed:
  "applyOps c ops (tm_database s) = (Inr u, d) \<Longrightarrow>
     runTx c k ops s = errorfA ''update tx status failed: '' (UpdateTxStatus k (TxStatus CONFIRMED [] [])) (s\<lparr>tm_database := d\<rparr>)"
  by (simp add: runTx_def thenA_def bindA_def errorfA_def)

lemma failTx_ok:
  assumes "opened (tm_database s)" "storable_status (TxStatus FAILED msg [])"
  obtains s' where "failTx k msg s = (Inr (), s')" "opened (tm_database s')" "map_of (tm_txStatus s') k = Some (TxStatus FAILED msg [])"
proof -
  obtain s' where "UpdateTxStatus k (TxStatus FAILED msg []) s = (Inr (), s')" "opened (tm_database s')"
    "map_of (tm_txStatus s') k = Some (TxStatus FAILED msg [])"
    using assms by (rule UpdateTxStatus_ok)
  then show ?thesis by (intro that) (auto simp: failTx_def)
qed


text \<open>
  A transaction with an operation that the manager does not support, such as a path payment, is
  confirmed: the error of the operation list is recorded and then overwritten.
\<close>

theorem unsupported_op_confirmed:
  assumes "getTxOpList c (tx_OpList tx) (tx_AccountID tx) n = Inl (Error msg)"
    and "opened (tm_database s)" "storable_status (TxStatus FAILED msg [])"
  shows "\<exists>s'. applyTx c n tx s = (Inr (), s') \<and> fst (GetTxStatus (txKeyOf c tx) s') = Inr (TxStatus CONFIRMED [] [])"
proof -
  let ?k = "txKeyOf c tx"
  obtain s1 where s1: "failTx ?k msg s = (Inr (), s1)" "opened (tm_database s1)"
    using assms(2,3) by (rule failTx_ok)
  obtain s2 where s2: "UpdateTxStatus ?k (TxStatus CONFIRMED [] []) s1 = (Inr (), s2)"
    "map_of (tm_txStatus s2) ?k = Some (TxStatus CONFIRMED [] [])"
    using s1(2) status_storable(1) by (rule UpdateTxStatus_ok)
  have "runTx c ?k [] s1 = (Inr (), s2)"
    using runTx_confirmed [of c "[]" s1 "()" "tm_database s1" ?k] s2(1) by (simp add: errorfA_def)
  then have "applyTx c n tx s = (Inr (), s2)"
    using assms(1) s1(1) by (simp add: applyTx_def Let_def opsOf_def thenA_def bindA_def)
  then show ?thesis using GetTxStatus_cached [OF s2(2)] by blast
qed


definition failing_tx :: tx where
  "failing_tx = sample_tx\<lparr>tx_OpList := tx_OpList sample_tx @
     [Op PAYMENT (Some (PPayment \<lparr>pa_AccountID = ''carol'', pa_Asset = Some (Asset NATIVE ''ULU'' []), pa_Amount = 5\<rparr>))]\<rparr>"

definition path_tx :: tx where
  "path_tx = sample_tx\<lparr>tx_OpList := [Op PATH_PAYMENT None]\<rparr>"

lemma storable_failed: "length msg < 1000 \<Longrightarrow> utf8_valid msg \<Longrightarrow> storable_status (TxStatus FAILED msg [])"
proof -
  assume l: "length msg < 1000" and u: "utf8_valid msg"
  have "fsize (TxStatus_fields (TxStatus FAILED msg [])) \<le> 60 + 2 * length msg"
    using fsize_int [of 1 "TxStatusCode_num FAILED"] fsize_str [of 2 msg] fsize_str [of 3 "[]"]
    by (simp add: TxStatus_fields_def del: One_nat_def)
  then have "length (put_fields (TxStatus_fields (TxStatus FAILED msg []))) \<le> 60 + 2 * length msg"
    using put_fields_length [OF TxStatus.nums, of "TxStatus FAILED msg []"] by linarith
  then have "length (put_fields (TxStatus_fields (TxStatus FAILED msg []))) < wire_max" using l by (simp add: wire_max_def)
  then show ?thesis using u by (simp add: storable_status_def TxStatus_utf8_def TxStatus_fits_def)
qed

text \<open>On the store in memory, which does not roll back, the first payment of the failed transaction stays.\<close>

lemma failed_tx_in_memory:
  "case applyTx cfg 2 failing_tx (freshTm two_accounts) of (r, s) \<Rightarrow>
     r = Inr () \<and> map_option a_Balance (accounts.load ''bob'' (tm_database s)) = Some 75 \<and>
     isOk (fst (GetTxStatus (txKeyOf cfg failing_tx) s))"
  unfolding accounts.load_def by code_simp


theorem unsupported_op_confirmed_witness:
  "\<exists>s'. applyTx cfg 2 path_tx (freshTm two_accounts) = (Inr (), s') \<and>
     fst (GetTxStatus (txKeyOf cfg path_tx) s') = Inr (TxStatus CONFIRMED [] [])"
proof -
  have "getTxOpList cfg (tx_OpList path_tx) (tx_AccountID path_tx) 2 = Inl (Error ''received invalid op type: PATH_PAYMENT'')"
    by (simp add: path_tx_def txOp_def opTypeName_def)
  moreover have "storable_status (TxStatus FAILED ''received invalid op type: PATH_PAYMENT'' [])"
    by (rule storable_failed) code_simp+
  moreover have "opened (tm_database (freshTm two_accounts))" by code_simp
  ultimately show ?thesis using unsupported_op_confirmed by blast
qed

text \<open>
  A transaction whose operation is tagged as a payment but carries another payload, or none, ends
  the process of every node that applies it: no check stands before the nil payload is read.
\<close>

theorem payload_mismatch_panics:
  assumes "x_sort c [tx] = [tx]" "x_order c [tx_AccountID tx] = [tx_AccountID tx]"
    and "tx_OpList tx = Op PAYMENT p # os" "\<forall>pa. p \<noteq> Some (PPayment pa)"
    and "GetAccount (tx_AccountID tx) (tm_database s) = Inr (Some acc)" "storable_account acc"
    and "a_SeqNum acc \<le> tx_SeqNum tx" "0 \<le> tx_Fee tx" "tx_Fee tx \<le> a_Balance acc"
  shows "fst (ApplyTxList c [tx] n s) = Inl (Panic ''payment'')"
proof -
  let ?acc = "acc\<lparr>a_Balance := a_Balance acc - tx_Fee tx, a_SeqNum := tx_SeqNum tx\<rparr>"
  have b: "in64 (a_Balance acc)" using assms(6) by (rule storable_in64)
  then have i: "in64 (a_Balance acc - tx_Fee tx)" using assms(8,9) by (auto simp: in64_def)
  then have st: "storable_account ?acc"
    using assms(6) b by (auto simp: storable_account_def Account_utf8_def Account_fits_def account_size_def)
  have op: "opened (tm_database s)" using assms(5) by (rule GetAccount_opened)
  obtain d where d: "SaveAccount (Some ?acc) (tm_database s) = (Inr (), d)" using op st by (rule SaveAccount_ok)
  have "\<not> tx_SeqNum tx < a_SeqNum acc" using assms(7) by (simp add: not_less)
  then have "chargeAccounts c [tx] [tx_AccountID tx] [] s = (Inr [tx], s\<lparr>tm_database := d\<rparr>)"
    using assms(5,9) d i by (simp add: bindA_def thenA_def errorfA_def present_def onStore_def i64_id)
  moreover have "getTxOpList c (tx_OpList tx) (tx_AccountID tx) n = Inl (Panic ''payment'')"
    using assms(3,4) by (auto simp: txOp_def split: option.splits op_payload.splits)
  ultimately show ?thesis
    using assms(1,2) by (simp add: ApplyTxList_def applyTx_def Let_def bindA_def thenA_def)
qed

theorem payload_mismatch_panics_witness:
  "fst (ApplyTxList cfg [sample_tx\<lparr>tx_OpList := [Op PAYMENT None]\<rparr>] 2 (freshTm two_accounts)) = Inl (Panic ''payment'')"
  by (rule payload_mismatch_panics [of _ _ None "[]" _ alice])
    (simp_all add: cfg_def go_sort_def sample_tx_def freshTm_def two_accounts_facts sample_accounts_storable, simp_all add: alice_def)


end
