(* ===== verification/StoreFrames.thy ===== *)
theory StoreFrames
  imports TxMgrSpec
begin

text \<open>
  What the operations leave alone in the shared store: every operation writes only to the bucket of
  the accounts, and applying a list of transactions writes only there and to the statuses.  The
  ledger manager relies on this for its own buckets.
\<close>

definition untouched :: "string set \<Rightarrow> db \<Rightarrow> db \<Rightarrow> bool" where
  "untouched B d d' \<longleftrightarrow> opened d' = opened d \<and> (\<forall>b j. bucket_ok b \<longrightarrow> b \<notin> B \<longrightarrow> Get b j d' = Get b j d)"

interpretation store: frame "untouched B" for B
  by unfold_locales (auto simp: untouched_def)

lemma untouched_Put:
  assumes "b \<in> B" "bucket_ok b"
  shows "untouched B d (snd (Put b k v d))"
proof (cases "opened d")
  case True
  then show ?thesis using assms mem.put_ok [OF True, of b k v] mem.get_put [OF True assms(2)] by (auto simp: untouched_def)
next
  case False
  then obtain e where "Put b k v d = (Inl (Error e), d)" using mem.closed_write by blast
  then show ?thesis by simp
qed

lemma untouched_Delete:
  assumes "b \<in> B" "bucket_ok b"
  shows "untouched B d (snd (Delete b k d))"
proof (cases "opened d")
  case True
  then show ?thesis using assms mem.del_ok [OF True, of b k] mem.get_del [OF True assms(2)] by (auto simp: untouched_def)
next
  case False
  then show ?thesis by (cases d) (auto simp: opened_def Delete_def)
qed

lemma untouched_mono: "untouched B d d' \<Longrightarrow> B \<subseteq> B' \<Longrightarrow> untouched B' d d'"
  by (auto simp: untouched_def)

lemma untouched_reads [simp]:
  "untouched B d (snd (retA x d))" "untouched B d (snd (liftA r d))" "untouched B d (snd (readA g d))"
  "untouched B d (snd (failA f d))" "untouched B d (snd (guardA c m d))" "untouched B d (snd (present e p d))"
  by (auto simp: guardA_def present_def split: option.splits)

lemmas store_intros = store.frame_bind store.frame_then

text \<open>The writes of the account manager.\<close>

lemma untouched_account [simp]:
  "untouched {ACCOUNT} d (snd (SaveAccount a d))" "untouched {ACCOUNT} d (snd (SaveTrust t d))"
  "untouched {ACCOUNT} d (snd (DeleteTrust i x d))"
  unfolding SaveAccount_def SaveTrust_def DeleteTrust_def
  by (auto intro!: store_intros simp: untouched_Put untouched_Delete)

lemma untouched_create [simp]:
  "untouched {ACCOUNT} d (snd (CreateAccount r i n sg sq d))" "untouched {ACCOUNT} d (snd (CreateTrust i x n d))"
  unfolding CreateAccount_def CreateTrust_def Let_def
  by (auto intro!: store_intros simp: untouched_Put)

text \<open>The operations.\<close>

lemma untouched_CreateAccount_Apply: "untouched {ACCOUNT} d (snd (CreateAccount_Apply r x d))"
  unfolding CreateAccount_Apply_def by (intro store_intros) simp_all

lemma untouched_changeTrust [simp]: "untouched {ACCOUNT} d (snd (changeTrust i x n d))"
  unfolding changeTrust_def issuerExists_def by (intro store_intros) simp_all

lemma untouched_credit [simp]: "untouched {ACCOUNT} d (snd (creditDst pp d))" "untouched {ACCOUNT} d (snd (debitSrc pp x n d))"
  unfolding creditDst_def debitSrc_def by (auto intro!: store_intros)

lemma untouched_Payment_Apply: "untouched {ACCOUNT} d (snd (Payment_Apply r iter p d))"
  unfolding Payment_Apply_def PathPayment_Apply_def by (auto intro!: store_intros)

lemma untouched_countEntry [simp]: "untouched {ACCOUNT} d (snd (countEntry r v i n a d))"
  unfolding countEntry_def by (intro store_intros) simp_all

lemma untouched_Trust_Apply: "untouched {ACCOUNT} d (snd (Trust_Apply r t d))"
  unfolding Trust_Apply_def newTrust_def changeLimit_def
  by (auto intro!: store_intros split: option.splits)

lemma untouched_applyOps: "untouched {ACCOUNT} d (snd (applyOps c ops d))"
proof (induction ops arbitrary: d)
  case (Cons x ops)
  have "untouched {ACCOUNT} d (snd (tx_op_Apply c x d))" for d
    by (cases x) (auto simp: untouched_CreateAccount_Apply untouched_Payment_Apply untouched_Trust_Apply)
  then show ?case using Cons by (auto intro!: store_intros)
qed simp


section \<open>The transaction manager\<close>

definition tm_untouched :: "txmgr \<Rightarrow> txmgr \<Rightarrow> bool" where
  "tm_untouched s t \<longleftrightarrow> untouched {ACCOUNT, TXSTATUS, TX} (tm_database s) (tm_database t)"

interpretation tm_store: frame tm_untouched
proof
  fix s t u
  show "tm_untouched s s" by (simp add: tm_untouched_def)
  show "tm_untouched s t \<Longrightarrow> tm_untouched t u \<Longrightarrow> tm_untouched s u"
    unfolding tm_untouched_def by (rule store.frame_trans)
qed

lemmas tm_store_intros = tm_store.frame_bind tm_store.frame_then

text \<open>What rolling back leaves is the store before or after the transaction.\<close>

definition undo_ok :: "txcfg \<Rightarrow> bool" where
  "undo_ok c \<longleftrightarrow> (\<forall>d d'. x_undo c d d' \<in> {d, d'})"

lemma tm_untouched_onStore: "untouched {ACCOUNT, TXSTATUS, TX} (tm_database s) (snd (m (tm_database s))) \<Longrightarrow> tm_untouched s (snd (onStore m s))"
  by (cases "m (tm_database s)") (simp add: tm_untouched_def onStore_def)

lemma tm_untouched_cacheStatus [simp]: "tm_untouched s (snd (cacheStatus k st s))"
  by (simp add: cacheStatus_def tm_untouched_def)

lemma tm_untouched_UpdateTxStatus [simp]: "tm_untouched s (snd (UpdateTxStatus k st s))"
  unfolding UpdateTxStatus_def
  by (intro tm_store_intros) (simp_all add: tm_untouched_onStore untouched_Put)

lemma tm_untouched_failTx [simp]: "tm_untouched s (snd (failTx k m s))"
  by (simp add: failTx_def)

lemma tm_untouched_present [simp]: "tm_untouched s (snd (present e p s))"
  by (simp add: present_def split: option.splits)

lemma tm_untouched_chargeTxs [simp]: "tm_untouched s (snd (chargeTxs c acc txs rest s))"
  by (induction txs arbitrary: acc rest s) (auto intro!: tm_store.frame_then)

lemma tm_untouched_chargeAccounts [simp]: "tm_untouched s (snd (chargeAccounts c txs aids rest s))"
proof (induction aids arbitrary: rest s)
  case (Cons aid aids)
  have "tm_untouched s (snd (onStore (SaveAccount a) s))" for a s
    by (rule tm_untouched_onStore) (rule untouched_mono [OF untouched_account(1)], simp)
  then show ?case using Cons by (auto intro!: tm_store_intros split: prod.splits)
qed simp

lemma tm_untouched_runTx: "undo_ok c \<Longrightarrow> tm_untouched s (snd (runTx c k ops s))"
proof -
  assume u: "undo_ok c"
  have a: "untouched {ACCOUNT, TXSTATUS, TX} d (snd (applyOps c ops d))" for d
    by (rule untouched_mono [OF untouched_applyOps]) simp
  obtain r d where r: "applyOps c ops (tm_database s) = (r, d)" by (cases "applyOps c ops (tm_database s)")
  then have d: "tm_untouched s (s\<lparr>tm_database := d\<rparr>)" using a [of "tm_database s"] by (simp add: tm_untouched_def)
  moreover have "tm_untouched s (s\<lparr>tm_database := x_undo c (tm_database s) d\<rparr>)"
  proof -
    have "x_undo c (tm_database s) d = tm_database s \<or> x_undo c (tm_database s) d = d" using u by (auto simp: undo_ok_def)
    then show ?thesis using d by (auto simp: tm_untouched_def)
  qed
  ultimately show ?thesis
    using r tm_store.frame_trans [OF _ tm_untouched_failTx] tm_store.frame_trans [OF _ tm_untouched_UpdateTxStatus]
    by (cases r) (auto simp: runTx_def thenA_def bindA_def errorfA_def [of _ "onStore _"] split: failure.splits)
qed

lemma tm_untouched_applyTxs: "undo_ok c \<Longrightarrow> tm_untouched s (snd (applyTxs c n txs s))"
proof (induction txs arbitrary: s)
  case (Cons tx txs)
  have "tm_untouched s (snd (applyTx c n tx s))" for s
    unfolding applyTx_def Let_def
    by (intro tm_store.frame_then) (auto simp: tm_untouched_runTx Cons.prems split: sum.splits failure.splits)
  then show ?case using Cons by (auto intro!: tm_store.frame_then)
qed simp

lemma ApplyTxList_untouched: "undo_ok c \<Longrightarrow> tm_untouched s (snd (ApplyTxList c txs n s))"
  unfolding ApplyTxList_def Let_def by (intro tm_store.frame_bind) (simp_all add: tm_untouched_applyTxs)

end
