(* ===== verification/LedgerMgrSpec.thy ===== *)
theory LedgerMgrSpec
  imports LedgerMgr StoreFrames
begin

text \<open>
  What the ledger manager does: transaction sets through its cache, and the chain of ledgers that grows
  and never changes.
\<close>


section \<open>Headers, transaction sets and checkpoints in the store\<close>

lemma bucket_ok_ledger [simp]: "bucket_ok LEDGER" "bucket_ok TXSET" "LEDGER \<noteq> TXSET" "TXSET \<noteq> LEDGER"
  "LEDGER \<notin> {ACCOUNT, TXSTATUS, TX}" "TXSET \<notin> {ACCOUNT, TXSTATUS, TX}"
  by (simp_all add: bucket_ok_def LEDGER_def TXSET_def TXSTATUS_def TX_def ACCOUNT_def)

definition storable_txset :: "txset \<Rightarrow> bool" where
  "storable_txset m \<longleftrightarrow> TxSet_utf8 m \<and> TxSet_fits m \<and> length (put_fields (TxSet_fields m)) < wire_max"

definition storable_checkpoint :: "ledger_checkpoint \<Rightarrow> bool" where
  "storable_checkpoint m \<longleftrightarrow>
     LedgerCheckpoint_utf8 m \<and> LedgerCheckpoint_fits m \<and> length (put_fields (LedgerCheckpoint_fields m)) < wire_max"

interpretation txsets: table TXSET EncodeTxSet DecodeTxSet storable_txset
proof
  fix m assume s: "storable_txset m"
  then have "DecodeTxSet (put_fields (TxSet_fields m)) = Inr m"
    using TxSet.round_trip [of m "put_fields (TxSet_fields m)"] by (simp add: storable_txset_def DecodeTxSet_def marshal_def)
  with s show "\<exists>b. EncodeTxSet m = Inr b \<and> DecodeTxSet b = Inr m" by (simp add: storable_txset_def EncodeTxSet_def marshal_def)
qed simp

interpretation checkpoints: table LEDGER EncodeLedgerCheckpoint DecodeLedgerCheckpoint storable_checkpoint
proof
  fix m assume s: "storable_checkpoint m"
  then have "DecodeLedgerCheckpoint (put_fields (LedgerCheckpoint_fields m)) = Inr m"
    using LedgerCheckpoint.round_trip [of m "put_fields (LedgerCheckpoint_fields m)"]
    by (simp add: storable_checkpoint_def DecodeLedgerCheckpoint_def marshal_def)
  with s show "\<exists>b. EncodeLedgerCheckpoint m = Inr b \<and> DecodeLedgerCheckpoint b = Inr m"
    by (simp add: storable_checkpoint_def EncodeLedgerCheckpoint_def marshal_def)
qed simp


section \<open>Transaction sets through the cache\<close>

text \<open>The contract: a finite map from hashes to transaction sets, which is what the store holds.\<close>

definition txset_map :: "ledgermgr \<Rightarrow> string \<Rightarrow> txset option" where
  "txset_map s h = txsets.load h (lm_database s)"

definition txsets_coherent :: "ledgermgr \<Rightarrow> bool" where
  "txsets_coherent s \<longleftrightarrow> opened (lm_database s) \<and> coherent (lm_txsetCache s) (txset_map s)"

lemma GetTxSet_run:
  assumes "txsets_coherent s"
  shows "(case fst (GetTxSet h s) of Inl _ \<Rightarrow> txset_map s h = None | Inr x \<Rightarrow> x = txset_map s h) \<and>
    txsets_coherent (snd (GetTxSet h s)) \<and> txset_map (snd (GetTxSet h s)) = txset_map s"
proof (cases "map_of (lm_txsetCache s) h")
  case (Some t)
  then have "txset_map s h = Some t" using assms unfolding txsets_coherent_def by (blast intro: coherentD)
  moreover have "GetTxSet h s = (Inr (Some t), s\<lparr>lm_txsetCache := snd (lru_Get h (lm_txsetCache s))\<rparr>)"
    using Some by (simp add: GetTxSet_def lru_Get_def)
  moreover have "txset_map (s\<lparr>lm_txsetCache := x\<rparr>) = txset_map s" for x by (auto simp: txset_map_def)
  ultimately show ?thesis using assms by (simp add: txsets_coherent_def coherent_Get)
next
  case None
  have g: "lru_Get h (lm_txsetCache s) = (None, lm_txsetCache s)" using None by (simp add: lru_Get_def)
  have m: "txset_map (s\<lparr>lm_txsetCache := x\<rparr>) = txset_map s" for x by (auto simp: txset_map_def)
  show ?thesis
  proof (cases "Get TXSET h (lm_database s)")
    case (Inl e)
    then show ?thesis using g assms by (simp add: GetTxSet_def txset_map_def txsets.load_def)
  next
    case (Inr b)
    show ?thesis
    proof (cases b)
      case None
      then show ?thesis using g Inr assms by (simp add: GetTxSet_def txset_map_def txsets.load_def)
    next
      case (Some v)
      show ?thesis
      proof (cases "DecodeTxSet v")
        case (Inl e)
        then show ?thesis using g \<open>b = Some v\<close> \<open>Get TXSET h (lm_database s) = Inr b\<close> assms
          by (simp add: GetTxSet_def txset_map_def txsets.load_def)
      next
        case t: (Inr t)
        then have l: "txset_map s h = Some t"
          using Some Inr by (simp add: txset_map_def txsets.load_def)
        have "GetTxSet h s = (Inr (Some t), s\<lparr>lm_txsetCache := lru_Add 100 h t (lm_txsetCache s)\<rparr>)"
          using g Some Inr t by (simp add: GetTxSet_def)
        then show ?thesis using assms l coherent_fill [of 100 "lm_txsetCache s" "txset_map s" h t]
          by (simp add: txsets_coherent_def m)
      qed
    qed
  qed
qed

lemma AddTxSet_run:
  assumes "txsets_coherent s" "storable_txset t"
  shows "\<exists>s'. AddTxSet h t s = (Inr (), s') \<and> txsets_coherent s' \<and> txset_map s' = (txset_map s)(h \<mapsto> t)"
proof -
  have op: "opened (lm_database s)" using assms(1) by (simp add: txsets_coherent_def)
  obtain b where b: "EncodeTxSet t = Inr b" using txsets.stores [OF assms(2)] by blast
  obtain d where d: "Put TXSET h b (lm_database s) = (Inr (), d)" using mem.put_ok [OF op] by metis
  let ?s = "s\<lparr>lm_tm := (lm_tm s)\<lparr>tm_database := d\<rparr>, lm_txsetCache := lru_Add 100 h t (lm_txsetCache s)\<rparr>"
  have r: "AddTxSet h t s = (Inr (), ?s)"
    using d by (simp add: AddTxSet_def b bindA_def thenA_def errorfA_def onTm_def onStore_def)
  have m: "txset_map ?s = (txset_map s)(h \<mapsto> t)"
  proof
    fix j
    show "txset_map ?s j = ((txset_map s)(h \<mapsto> t)) j"
      using txsets.load_put_same [OF op assms(2) b, of h] txsets.load_put_other [OF op, of TXSET h j b] d
      by (auto simp: txset_map_def)
  qed
  have "opened (lm_database ?s)" using mem.put_ok [OF op, of TXSET h b] d by simp
  moreover have "coherent (lm_txsetCache ?s) (txset_map ?s)"
    using assms(1) coherent_write [of 100 "lm_txsetCache s" "txset_map s" "txset_map ?s" h t]
    by (simp add: m txsets_coherent_def)
  ultimately show ?thesis using r m by (auto simp: txsets_coherent_def)
qed

text \<open>
  C5.  Transaction sets behind the cache refine a finite map: a lookup returns the entry of the map, or
  fails when there is none, and adding a set updates the map at its hash; the cache, its evictions and
  the order of earlier calls never show.
\<close>

theorem txset_cache_refines_map:
  assumes "txsets_coherent s" "storable_txset t"
  shows "(case fst (GetTxSet h s) of Inl _ \<Rightarrow> txset_map s h = None | Inr x \<Rightarrow> x = txset_map s h) \<and>
    txset_map (snd (GetTxSet h s)) = txset_map s \<and> txsets_coherent (snd (GetTxSet h s)) \<and>
    fst (AddTxSet h t s) = Inr () \<and> txset_map (snd (AddTxSet h t s)) = (txset_map s)(h \<mapsto> t) \<and>
    txsets_coherent (snd (AddTxSet h t s))"
  using GetTxSet_run [OF assms(1), of h] AddTxSet_run [OF assms, of h] by auto

theorem txset_cache_refines_map_witness:
  "fst (GetTxSet ''h'' (snd (AddTxSet ''h'' (TxSet ''p'' []) (newLedgerMgr (freshTm (Some [])))))) = Inr (Some (TxSet ''p'' []))"
proof -
  let ?s = "newLedgerMgr (freshTm (Some []))"
  have s: "txsets_coherent ?s" by (simp add: txsets_coherent_def newLedgerMgr_def freshTm_def opened_def)
  have "length (put_fields (TxSet_fields (TxSet ''p'' []))) < 100" by code_simp
  then have t: "storable_txset (TxSet ''p'' [])"
    by (simp add: storable_txset_def TxSet_utf8_def TxSet_fits_def wire_max_def)
  have "txset_map (snd (AddTxSet ''h'' (TxSet ''p'' []) ?s)) ''h'' = Some (TxSet ''p'' [])"
    and c: "txsets_coherent (snd (AddTxSet ''h'' (TxSet ''p'' []) ?s))"
    using txset_cache_refines_map [OF s t, of "''h''"] by simp_all
  then show ?thesis using txset_cache_refines_map [OF c t, of "''h''"] by (auto split: sum.splits)
qed


section \<open>The chain of ledgers\<close>

text \<open>
  The headers of the ledgers closed so far, from the genesis ledger to the current one: numbered from
  one, each stored under its number, and each naming the key of the one before it.
\<close>

definition stored_header :: "nat \<Rightarrow> ledger_header \<Rightarrow> db \<Rightarrow> bool" where
  "stored_header n h d \<longleftrightarrow> (\<exists>b. EncodeLedgerHeader h = Inr b \<and> Get LEDGER (dec n) d = Inr (Some b))"

definition linked :: "crypto \<Rightarrow> ledgermgr \<Rightarrow> ledger_header list \<Rightarrow> bool" where
  "linked c s hs \<longleftrightarrow>
     opened (lm_database s) \<and> hs \<noteq> [] \<and> length hs < 2 ^ 64 \<and> lm_currLedgerHeader s = Some (last hs) \<and>
     GetLedgerHeaderKey c (Some (last hs)) = Inr (lm_currLedgerHeaderHash s) \<and>
     (\<forall>i < length hs. lh_SeqNum (hs ! i) = of_nat (Suc i) \<and> stored_header (Suc i) (hs ! i) (lm_database s)) \<and>
     (\<forall>i. Suc i < length hs \<longrightarrow> GetLedgerHeaderKey c (Some (hs ! i)) = Inr (lh_PrevLedgerHash (hs ! Suc i)))"

text \<open>A step that appends to the chain, and nothing else.\<close>

definition grows :: "crypto \<Rightarrow> ledgermgr \<Rightarrow> ledgermgr \<Rightarrow> bool" where
  "grows c s t \<longleftrightarrow> (\<forall>hs. linked c s hs \<longrightarrow> (\<exists>hs'. linked c t (hs @ hs')))"

interpretation chain: frame "grows c" for c
proof
  fix s t u
  show "grows c s s" unfolding grows_def by (metis append_Nil2)
  assume "grows c s t" "grows c t u"
  then show "grows c s u" unfolding grows_def by (metis append.assoc)
qed

lemmas chain_intros = chain.frame_bind chain.frame_then

lemma dec_not_checkpoint [simp]: "dec n \<noteq> ''CHECKPOINT''" "''CHECKPOINT'' \<noteq> dec n"
proof -
  have "CHR ''C'' \<notin> set (dec n)" using set_dec [of "CHR ''C''" n] by auto
  then show "dec n \<noteq> ''CHECKPOINT''" by force
  then show "''CHECKPOINT'' \<noteq> dec n" by metis
qed

text \<open>Steps that write neither the headers in the store nor the current one.\<close>

definition same_chain :: "ledgermgr \<Rightarrow> ledgermgr \<Rightarrow> bool" where
  "same_chain s t \<longleftrightarrow>
     lm_currLedgerHeader t = lm_currLedgerHeader s \<and> lm_currLedgerHeaderHash t = lm_currLedgerHeaderHash s \<and>
     opened (lm_database t) = opened (lm_database s) \<and>
     (\<forall>n. Get LEDGER (dec n) (lm_database t) = Get LEDGER (dec n) (lm_database s))"

lemma same_chain_grows: "same_chain s t \<Longrightarrow> grows c s t"
proof -
  assume "same_chain s t"
  then have "linked c s hs \<Longrightarrow> linked c t hs" for hs by (simp add: same_chain_def linked_def stored_header_def)
  then show ?thesis unfolding grows_def by (metis append_Nil2)
qed

lemma untouched_same_chain:
  "untouched {ACCOUNT, TXSTATUS, TX, TXSET} (lm_database s) (tm_database u) \<Longrightarrow> same_chain s (s\<lparr>lm_tm := u\<rparr>)"
proof -
  have "LEDGER \<notin> {ACCOUNT, TXSTATUS, TX, TXSET}" using bucket_ok_ledger(3,5) by auto
  then show "untouched {ACCOUNT, TXSTATUS, TX, TXSET} (lm_database s) (tm_database u) \<Longrightarrow> same_chain s (s\<lparr>lm_tm := u\<rparr>)"
    by (simp add: same_chain_def untouched_def)
qed

lemma grows_plain [simp]:
  "grows c s (snd (retA x s))" "grows c s (snd (liftA r s))" "grows c s (snd (readA g s))" "grows c s (snd (failA f s))"
  "grows c s (snd (present e p s))"
  by (auto simp: present_def split: option.splits)

lemma grows_onTm: "tm_untouched (lm_tm s) (snd (m (lm_tm s))) \<Longrightarrow> grows c s (snd (onTm m s))"
proof -
  assume "tm_untouched (lm_tm s) (snd (m (lm_tm s)))"
  then have "untouched {ACCOUNT, TXSTATUS, TX, TXSET} (lm_database s) (tm_database (snd (m (lm_tm s))))"
    unfolding tm_untouched_def by (rule untouched_mono) auto
  then show ?thesis
    by (cases "m (lm_tm s)") (auto simp: onTm_def intro!: same_chain_grows untouched_same_chain)
qed

lemma grows_AddTxSet: "grows c s (snd (AddTxSet h t s))"
proof -
  have "grows c s (snd (onLedgerStore (Put TXSET h b) s))" for b s
  proof -
    have "untouched {ACCOUNT, TXSTATUS, TX, TXSET} (lm_database s) (snd (Put TXSET h b (lm_database s)))"
      by (rule untouched_Put) simp_all
    then show ?thesis
      by (cases "Put TXSET h b (lm_database s)") (auto simp: onTm_def onStore_def intro!: same_chain_grows untouched_same_chain)
  qed
  moreover have "grows c s (s\<lparr>lm_txsetCache := x\<rparr>)" for s x by (rule same_chain_grows) (simp add: same_chain_def)
  ultimately show ?thesis unfolding AddTxSet_def by (intro chain_intros) simp_all
qed

lemma grows_GetTxSet [simp]: "grows c s (snd (GetTxSet h s))" "grows c s (snd (GetLedgerHeader q s))"
  by (rule same_chain_grows; auto simp: same_chain_def GetTxSet_def GetLedgerHeader_def split: prod.splits option.splits sum.splits)+

lemma grows_GetLedger: "grows c s (snd (GetLedger q s))"
  unfolding GetLedger_def by (intro chain_intros) simp_all

lemma grows_fields [simp]:
  "grows c s (s\<lparr>lm_ledgerState := a\<rparr>)" "grows c s (s\<lparr>lm_buffer := b\<rparr>)" "grows c s (s\<lparr>lm_downloader := x\<rparr>)"
  "grows c s (s\<lparr>lm_largestConsensusIndex := n, lm_ledgerState := a\<rparr>)" "grows c s (s\<lparr>lm_buffer := b, lm_ledgerState := a\<rparr>)"
  by (rule same_chain_grows; simp add: same_chain_def)+

text \<open>Closing a ledger appends its header.\<close>

lemma snd_onLedgerStore: "snd (onLedgerStore m s) = s\<lparr>lm_tm := (lm_tm s)\<lparr>tm_database := snd (m (lm_database s))\<rparr>\<rparr>"
  by (cases "m (lm_database s)") (simp add: onTm_def onStore_def)

lemma saveCheckpoint_same: "same_chain s (snd (saveCheckpoint s))"
proof -
  have "same_chain s (snd (onLedgerStore (Put LEDGER ''CHECKPOINT'' b) s))" for b
  proof (cases "opened (lm_database s)")
    case True
    then show ?thesis
      using mem.put_ok [OF True, of LEDGER "''CHECKPOINT''" b] mem.get_put [OF True, of LEDGER LEDGER _ "''CHECKPOINT''" b]
      by (simp add: snd_onLedgerStore same_chain_def)
  next
    case False
    then have "snd (Put LEDGER ''CHECKPOINT'' b (lm_database s)) = lm_database s"
      using mem.closed_write [OF False] by (metis snd_conv)
    then show ?thesis by (simp add: snd_onLedgerStore same_chain_def)
  qed
  moreover have "same_chain s s" by (simp add: same_chain_def)
  ultimately show ?thesis by (auto simp: saveCheckpoint_def bindA_def Let_def split: sum.splits)
qed

text \<open>The state between saving the header and saving the checkpoint.\<close>

definition advanced :: "(64 word \<Rightarrow> int) \<Rightarrow> ledger_header \<Rightarrow> string \<Rightarrow> db \<Rightarrow> ledgermgr \<Rightarrow> ledgermgr" where
  "advanced now header h d s =
     s\<lparr>lm_tm := (lm_tm s)\<lparr>tm_database := d\<rparr>, lm_headers := lru_Add 100 (dec (unat (lh_SeqNum header))) header (lm_headers s),
       lm_prevLedgerHeader := lm_currLedgerHeader s, lm_prevLedgerHeaderHash := lm_currLedgerHeaderHash s,
       lm_currLedgerHeader := Some header, lm_currLedgerHeaderHash := h,
       lm_ledgerHeaderCount := i64 (lm_ledgerHeaderCount s + 1), lm_lastCloseTime := now (lh_SeqNum header)\<rparr>"

lemma advanceLedger_run:
  assumes "opened (lm_database s)" "header = genesisHeader seq ph th cv" "EncodeLedgerHeader header = Inr b"
    and "GetLedgerHeaderKey (x_crypto c) (Some header) = Inr h"
  shows "advanceLedger c now seq ph th cv s =
    errorfA ''save ledger checkpoint failed: '' saveCheckpoint (advanced now header h (snd (Put LEDGER (dec (unat seq)) b (lm_database s))) s)"
proof -
  obtain d where d: "Put LEDGER (dec (unat seq)) b (lm_database s) = (Inr (), d)" using mem.put_ok [OF assms(1)] by metis
  have "lh_SeqNum header = seq" by (simp add: assms(2) genesisHeader_def)
  then show ?thesis
    using d assms(2-4)
    by (simp add: advanceLedger_def Let_def bindA_def thenA_def dropA_def onTm_def onStore_def advanced_def)
qed

lemma advanceLedger_stops:
  assumes "\<not> (\<exists>b h. EncodeLedgerHeader (genesisHeader seq ph th cv) = Inr b \<and>
      GetLedgerHeaderKey (x_crypto c) (Some (genesisHeader seq ph th cv)) = Inr h)"
  shows "snd (advanceLedger c now seq ph th cv s) = s"
proof (cases "EncodeLedgerHeader (genesisHeader seq ph th cv)")
  case (Inl e)
  then show ?thesis by (simp add: advanceLedger_def Let_def bindA_def)
next
  case (Inr b)
  then obtain e where "GetLedgerHeaderKey (x_crypto c) (Some (genesisHeader seq ph th cv)) = Inl e"
    using assms by (cases "GetLedgerHeaderKey (x_crypto c) (Some (genesisHeader seq ph th cv))") auto
  then show ?thesis using Inr by (simp add: advanceLedger_def Let_def bindA_def)
qed

lemma bind_read: "bindA (readA Inr) f s = f s s"
  by (simp add: bindA_def)

lemma same_chain_linked: "same_chain s t \<Longrightarrow> linked c s hs \<Longrightarrow> linked c t hs"
  by (simp add: same_chain_def linked_def stored_header_def)

lemma linked_advanced:
  assumes "linked c s hs" "lh_SeqNum header = lh_SeqNum (last hs) + 1" "lh_SeqNum header \<noteq> 0"
    and "lh_PrevLedgerHash header = lm_currLedgerHeaderHash s" "EncodeLedgerHeader header = Inr b"
    and "GetLedgerHeaderKey c (Some header) = Inr h"
    and "d = snd (Put LEDGER (dec (unat (lh_SeqNum header))) b (lm_database s))"
  shows "linked c (advanced now header h d s) (hs @ [header])"
proof -
  let ?n = "length hs"
  have op: "opened (lm_database s)" and ne: "hs \<noteq> []" using assms(1) by (auto simp: linked_def)
  have "lh_SeqNum (last hs) = of_nat (Suc (?n - 1))"
    using assms(1) ne by (simp add: linked_def last_conv_nth del: of_nat_Suc)
  then have sq: "lh_SeqNum header = of_nat (Suc ?n)" using assms(2) ne by (cases hs) auto
  have "Suc ?n < 2 ^ 64"
  proof (rule ccontr)
    assume "\<not> Suc ?n < 2 ^ 64"
    then have "Suc ?n = 2 ^ 64" using assms(1) by (auto simp: linked_def)
    then have "lh_SeqNum header = of_nat (2 ^ 64)" using sq by metis
    then show False using assms(3) by simp
  qed
  then have un: "unat (lh_SeqNum header) = Suc ?n" using sq by (simp add: unsigned_of_nat take_bit_nat_eq_self del: of_nat_Suc)
  have g: "Get LEDGER (dec m) d = (if m = Suc ?n then Inr (Some b) else Get LEDGER (dec m) (lm_database s))" for m
    using mem.get_put [OF op, of LEDGER LEDGER "dec m" "dec (Suc ?n)" b] assms(7) un by simp
  have "opened d" using mem.put_ok [OF op] assms(7) by simp
  moreover have "lh_SeqNum ((hs @ [header]) ! i) = of_nat (Suc i) \<and> stored_header (Suc i) ((hs @ [header]) ! i) d"
    if "i < Suc ?n" for i
  proof (cases "i = ?n")
    case True
    then show ?thesis using sq assms(5) g [of "Suc ?n"] by (simp add: stored_header_def del: of_nat_Suc)
  next
    case False
    then show ?thesis using that assms(1) g [of "Suc i"] by (simp add: linked_def stored_header_def nth_append del: of_nat_Suc)
  qed
  moreover have "GetLedgerHeaderKey c (Some ((hs @ [header]) ! i)) = Inr (lh_PrevLedgerHash ((hs @ [header]) ! Suc i))"
    if "i < ?n" for i
  proof (cases "Suc i = ?n")
    case True
    then have "hs ! i = last hs" using ne by (metis diff_Suc_1 last_conv_nth)
    then show ?thesis using True assms(1,4) by (simp add: linked_def nth_append)
  next
    case False
    then show ?thesis using that assms(1) by (simp add: linked_def nth_append)
  qed
  ultimately show ?thesis using assms(6) \<open>Suc ?n < 2 ^ 64\<close> by (simp add: linked_def advanced_def del: of_nat_Suc)
qed

lemma grows_advanceLedger:
  assumes "lm_currLedgerHeader s = None \<or> (\<exists>h. lm_currLedgerHeader s = Some h \<and> seq = lh_SeqNum h + 1 \<and> ph = lm_currLedgerHeaderHash s)"
    and "seq \<noteq> 0"
  shows "grows (x_crypto c) s (snd (advanceLedger c now seq ph th cv s))"
  unfolding grows_def
proof (intro allI impI)
  fix hs assume l: "linked (x_crypto c) s hs"
  let ?h = "genesisHeader seq ph th cv"
  show "\<exists>hs'. linked (x_crypto c) (snd (advanceLedger c now seq ph th cv s)) (hs @ hs')"
  proof (cases "\<exists>b h. EncodeLedgerHeader ?h = Inr b \<and> GetLedgerHeaderKey (x_crypto c) (Some ?h) = Inr h")
    case False
    then have "snd (advanceLedger c now seq ph th cv s) = s" by (rule advanceLedger_stops)
    then show ?thesis using l by (metis append_Nil2)
  next
    case True
    then obtain b h where e: "EncodeLedgerHeader ?h = Inr b" "GetLedgerHeaderKey (x_crypto c) (Some ?h) = Inr h" by blast
    have op: "opened (lm_database s)" and c: "lm_currLedgerHeader s = Some (last hs)" using l by (auto simp: linked_def)
    let ?s = "advanced now ?h h (snd (Put LEDGER (dec (unat seq)) b (lm_database s))) s"
    have "linked (x_crypto c) ?s (hs @ [?h])"
      using assms c e by (intro linked_advanced [OF l]) (auto simp: genesisHeader_def)
    then have "linked (x_crypto c) (snd (saveCheckpoint ?s)) (hs @ [?h])" by (rule same_chain_linked [OF saveCheckpoint_same])
    then show ?thesis using advanceLedger_run [OF op refl e, of now] by auto
  qed
qed

lemma snd_fatalf [simp]: "snd (fatalf p m s) = snd (m s)"
  by (auto simp: fatalf_def split: prod.splits sum.splits failure.splits)

lemma grows_closeLedger:
  assumes "undo_ok c" "index \<noteq> 0"
  shows "grows (x_crypto c) s (snd (closeLedger c now index value txset s))"
proof -
  have t: "grows (x_crypto c) s (snd (onTm (ApplyTxList c txs n) s))" for txs n s
    by (rule grows_onTm) (rule ApplyTxList_untouched [OF assms(1)])
  have same: "lm_currLedgerHeader (snd (onTm m s)) = lm_currLedgerHeader s"
    "lm_currLedgerHeaderHash (snd (onTm m s)) = lm_currLedgerHeaderHash s" for m :: "(txmgr, unit) act"
    by (auto simp: onTm_def split: prod.splits)
  show ?thesis
  proof (cases "lm_currLedgerHeader s \<noteq> None \<and> (NextLedgerHeaderSeq s \<noteq> index \<or> lm_currLedgerHeaderHash s \<noteq> ts_PrevLedgerHash txset)")
    case True
    then show ?thesis by (auto simp: closeLedger_def bindA_def)
  next
    case False
    have adv: "grows (x_crypto c) u (snd (advanceLedger c now index (ts_PrevLedgerHash txset) th value u))"
      if "errorfA e (onTm (ApplyTxList c txs n)) s = (Inr x, u)" for u th txs n x e
    proof (rule grows_advanceLedger)
      have "u = snd (onTm (ApplyTxList c txs n) s)" using that by simp
      then show "lm_currLedgerHeader u = None \<or>
        (\<exists>h. lm_currLedgerHeader u = Some h \<and> index = lh_SeqNum h + 1 \<and> ts_PrevLedgerHash txset = lm_currLedgerHeaderHash u)"
        using False same by (auto simp: NextLedgerHeaderSeq_def)
    qed (use assms(2) in simp)
    let ?close = "\<lambda>n. bindA (liftA (errorf ''get txset hash failed: '' (GetTxSetKey (x_crypto c) txset))) (\<lambda>txsetHash.
       bindA (liftA (errorf ''hex decode consensus value failed: '' (k_b58Decode (x_crypto c) value))) (\<lambda>b.
       bindA (liftA (errorf ''decode consensus value failed: '' (DecodeConsensusValue b))) (\<lambda>cv.
       if TxSetHash cv \<noteq> txsetHash
       then failA (Error (''txset hash mismatch: cv txset hash '' @ TxSetHash cv @ '', computed txset hash '' @ txsetHash))
       else
         thenA (errorfA ''apply tx list failed: '' (onTm (ApplyTxList c (ts_TxList txset) n)))
        (fatalf ''advance ledger failed: '' (advanceLedger c now index (ts_PrevLedgerHash txset) txsetHash value)))))"
    have "grows (x_crypto c) s (snd (?close n s))" for n
      by (intro chain_intros) (auto intro!: chain_intros adv simp: t)
    then show ?thesis by (simp add: closeLedger_def bind_read)
  qed
qed


lemma grows_onDownloader [simp]: "grows c s (snd (onDownloader m s))"
  by (auto simp: onDownloader_def split: prod.splits)

lemma grows_RecvExtVal:
  assumes "undo_ok c" "index \<noteq> 0"
  shows "grows (x_crypto c) s (snd (RecvExtVal c now index value txset s))"
  using assms unfolding RecvExtVal_def bind_read Let_def
  by (auto intro!: chain_intros simp: grows_closeLedger split: LedgerState.splits)

lemma grows_closeBuffered:
  assumes "undo_ok c" "\<forall>ci \<in> set infos. ci_Index ci \<noteq> 0"
  shows "grows (x_crypto c) s (snd (closeBuffered c now infos s))"
  using assms(2)
proof (induction infos arbitrary: s)
  case (Cons ci infos)
  have "grows (x_crypto c) u (snd (case closeLedger c now (ci_Index ci) (ci_Value ci) (ci_TxSet ci) u of
         (Inl (Error _), t) \<Rightarrow> (Inr (), t) | (Inl f, t) \<Rightarrow> (Inl f, t) | (Inr _, t) \<Rightarrow> closeBuffered c now infos t))" for u
  proof -
    have "grows (x_crypto c) u (snd (closeLedger c now (ci_Index ci) (ci_Value ci) (ci_TxSet ci) u))"
      using Cons.prems by (intro grows_closeLedger [OF assms(1)]) simp
    then show ?thesis using Cons chain.frame_trans
      by (cases "closeLedger c now (ci_Index ci) (ci_Value ci) (ci_TxSet ci) u") (auto split: sum.splits failure.splits)
  qed
  then show ?case by (auto intro!: chain.frame_then)
qed simp

lemma buffer_unchanged: "lm_buffer (snd (closeLedger c now i v t s)) = lm_buffer s"
proof -
  have a: "lm_buffer (snd (advanceLedger c now i p h v u)) = lm_buffer u" for p h u
    by (auto simp: advanceLedger_def saveCheckpoint_def Let_def bindA_def thenA_def dropA_def errorfA_def onTm_def
        split: prod.splits sum.splits)
  show ?thesis
    by (auto simp: closeLedger_def bindA_def thenA_def errorfA_def onTm_def a split: prod.splits sum.splits)
qed

lemma grows_recvDownloaded:
  assumes "undo_ok c" "ci_Index info \<noteq> 0" "\<forall>ci \<in> set (lm_buffer s). ci_Index ci \<noteq> 0"
  shows "grows (x_crypto c) s (snd (recvDownloaded c now info s))"
proof -
  have b: "\<forall>ci \<in> set (lm_buffer u). ci_Index ci \<noteq> 0"
    if "dropA (closeLedger c now (ci_Index info) (ci_Value info) (ci_TxSet info)) s = (Inr x, u)" for u x
  proof -
    have "u = snd (closeLedger c now (ci_Index info) (ci_Value info) (ci_TxSet info) s)"
      using that by (metis snd_act_simps(2) snd_conv)
    then show ?thesis using assms(3) by (simp add: buffer_unchanged)
  qed
  have "grows (x_crypto c) u (snd (bindA (readA Inr) (\<lambda>s.
     case Buffer_PeekHead (lm_buffer s) of
       None \<Rightarrow> retA ()
     | Some head \<Rightarrow>
         if NextLedgerHeaderSeq s \<noteq> ci_Index head then retA ()
         else
           thenA (closeBuffered c now (lm_buffer s))
          (modifyA (\<lambda>s. s\<lparr>lm_buffer := Buffer_Clear (lm_buffer s), lm_ledgerState := LedgerStateSynced\<rparr>))) u))"
    if "\<forall>ci \<in> set (lm_buffer u). ci_Index ci \<noteq> 0" for u
    using grows_closeBuffered [OF assms(1) that] by (auto intro!: chain.frame_then simp: bind_read split: option.splits)
  then show ?thesis unfolding recvDownloaded_def
    using b by (intro chain.frame_then) (auto simp: grows_closeLedger [OF assms(1,2)])
qed

text \<open>
  The manager as a state machine: externalized values, downloaded ledgers, queries, and the work of the
  other managers on the shared store, which does not touch the bucket of the ledgers.  No ledger has
  the number zero: the counter does not wrap around.
\<close>

inductive lm_step :: "txcfg \<Rightarrow> (64 word \<Rightarrow> int) \<Rightarrow> ledgermgr \<Rightarrow> ledgermgr \<Rightarrow> bool" for c now where
  "index \<noteq> 0 \<Longrightarrow> lm_step c now s (snd (RecvExtVal c now index value txset s))"
| "\<forall>ci \<in> set (dl_ready (lm_downloader s)) \<union> set (lm_buffer s). ci_Index ci \<noteq> 0
     \<Longrightarrow> lm_step c now s (snd (LedgerMgr_Start_step c now s))"
| "lm_step c now s (snd (AddTxSet h txset s))"
| "lm_step c now s (snd (GetTxSet h s))"
| "lm_step c now s (snd (GetLedger q s))"
| "lm_step c now s (s\<lparr>lm_downloader := d\<rparr>)"
| "tm_untouched (lm_tm s) t \<Longrightarrow> lm_step c now s (s\<lparr>lm_tm := t\<rparr>)"

lemma grows_step: "lm_step c now s t \<Longrightarrow> undo_ok c \<Longrightarrow> grows (x_crypto c) s t"
proof (induction rule: lm_step.induct)
  case (2 s)
  show ?case
  proof (cases "dl_ready (lm_downloader s)")
    case (Cons info infos)
    let ?s = "s\<lparr>lm_downloader := (lm_downloader s)\<lparr>dl_ready := infos\<rparr>\<rparr>"
    have "grows (x_crypto c) ?s (snd (recvDownloaded c now info ?s))"
      using 2 Cons by (intro grows_recvDownloaded) auto
    then show ?thesis using Cons by (simp add: LedgerMgr_Start_step_def chain.frame_trans [OF grows_fields(3)])
  qed (simp add: LedgerMgr_Start_step_def)
next
  case (7 s t)
  then have "grows (x_crypto c) s (snd (onTm (\<lambda>_. (Inr (), t)) s))" by (intro grows_onTm) simp
  then show ?case by (simp add: onTm_def)
qed (auto simp: grows_RecvExtVal grows_AddTxSet grows_GetLedger)

text \<open>The genesis ledger.\<close>

definition genesis :: ledger_header where
  "genesis = genesisHeader 1 [] [] []"

lemma genesis_encodes: "EncodeLedgerHeader genesis = Inr (put_fields (LedgerHeader_fields genesis))"
  by (simp add: EncodeLedgerHeader_def marshal_def LedgerHeader_utf8_def genesis_def genesisHeader_def)

lemma genesis_key: "\<exists>h. GetLedgerHeaderKey c (Some genesis) = Inr h"
  by (simp add: GetLedgerHeaderKey_def hashKey_def genesis_encodes)

lemma genesis_linked:
  assumes "opened (tm_database tm)" "s = snd (CreateGenesisLedger c now (newLedgerMgr tm))"
  shows "linked (x_crypto c) s [genesis]"
proof -
  let ?s = "(newLedgerMgr tm)\<lparr>lm_ledgerState := LedgerStateSynced\<rparr>"
  obtain h where h: "GetLedgerHeaderKey (x_crypto c) (Some genesis) = Inr h" using genesis_key by blast
  obtain b where b: "EncodeLedgerHeader genesis = Inr b" using genesis_encodes by blast
  let ?d = "snd (Put LEDGER (dec 1) b (tm_database tm))"
  have op: "opened (lm_database ?s)" using assms(1) by (simp add: newLedgerMgr_def)
  have "advanceLedger c now 1 [] [] [] ?s = errorfA ''save ledger checkpoint failed: '' saveCheckpoint (advanced now genesis h ?d ?s)"
    using advanceLedger_run [OF op genesis_def b h, of now] by (simp add: newLedgerMgr_def)
  then have s: "s = snd (saveCheckpoint (advanced now genesis h ?d ?s))"
    using assms(2) by (simp add: CreateGenesisLedger_def thenA_def bindA_def)
  have "opened ?d" "Get LEDGER (dec 1) ?d = Inr (Some b)"
    using mem.put_ok [OF assms(1)] mem.get_put [OF assms(1), of LEDGER LEDGER "dec 1" "dec 1" b] by auto
  then have "linked (x_crypto c) (advanced now genesis h ?d ?s) [genesis]"
    using b h by (simp add: linked_def advanced_def stored_header_def) (simp add: genesis_def genesisHeader_def)
  then show ?thesis unfolding s by (rule same_chain_linked [OF saveCheckpoint_same])
qed

text \<open>
  C4.  The chain of ledgers only grows: from the genesis ledger on, whatever values are externalized and
  whatever the peers send, the ledgers closed up to any state are stored under their numbers one to n,
  each names the key of the one before it, and in every later state they are still the first n ledgers
  of the chain.
\<close>

theorem ledger_chain_grows:
  assumes "undo_ok c" "opened (tm_database tm)"
    and "(lm_step c now)\<^sup>*\<^sup>* (snd (CreateGenesisLedger c now (newLedgerMgr tm))) s" "(lm_step c now)\<^sup>*\<^sup>* s t"
  shows "\<exists>hs hs'. linked (x_crypto c) s (genesis # hs) \<and> linked (x_crypto c) t (genesis # hs @ hs')"
proof -
  have g: "grows (x_crypto c) x y" if "(lm_step c now)\<^sup>*\<^sup>* x y" for x y
    using that by (induction rule: rtranclp_induct) (auto intro: chain.frame_trans grows_step [OF _ assms(1)])
  have "linked (x_crypto c) (snd (CreateGenesisLedger c now (newLedgerMgr tm))) [genesis]"
    by (rule genesis_linked [OF assms(2) refl])
  then obtain hs where hs: "linked (x_crypto c) s ([genesis] @ hs)" using g [OF assms(3)] unfolding grows_def by blast
  then obtain hs' where "linked (x_crypto c) t (([genesis] @ hs) @ hs')" using g [OF assms(4)] unfolding grows_def by blast
  then show ?thesis using hs by auto
qed

theorem ledger_chain_grows_witness:
  "\<exists>hs hs'. linked plain (snd (CreateGenesisLedger cfg (\<lambda>_. 0) (newLedgerMgr (freshTm (Some []))))) (genesis # hs) \<and>
     linked plain (snd (RecvExtVal cfg (\<lambda>_. 0) 2 ''v'' (TxSet ''p'' []) (snd (CreateGenesisLedger cfg (\<lambda>_. 0) (newLedgerMgr (freshTm (Some [])))))))
       (genesis # hs @ hs')"
proof -
  have "undo_ok cfg" by (simp add: undo_ok_def cfg_def)
  moreover have "opened (tm_database (freshTm (Some [])))" by (simp add: freshTm_def opened_def)
  moreover have "(lm_step cfg (\<lambda>_. 0))\<^sup>*\<^sup>* x (snd (RecvExtVal cfg (\<lambda>_. 0) 2 ''v'' (TxSet ''p'' []) x))" for x
    by (rule r_into_rtranclp, rule lm_step.intros(1)) simp
  ultimately show ?thesis
    using ledger_chain_grows [of cfg "freshTm (Some [])" "\<lambda>_. 0" _ _, OF _ _ rtranclp.rtrancl_refl]
    by (simp add: cfg_def)
qed

end
