(* ===== verification/SyncSpec.thy ===== *)
theory SyncSpec
  imports LedgerMgrSpec
begin

text \<open>
  Catching up with the network: the buffer of externalized values, the order in which downloaded
  ledgers are passed on, the download that a node at the genesis ledger starts, and recovery from the
  checkpoint.
\<close>


section \<open>The buffer\<close>

text \<open>The indices in the buffer are consecutive.\<close>

definition consecutive :: "close_buffer \<Rightarrow> bool" where
  "consecutive b \<longleftrightarrow> (\<forall>i. Suc i < length b \<longrightarrow> ci_Index (b ! Suc i) = ci_Index (b ! i) + 1)"

lemma consecutive_Append: "consecutive b \<Longrightarrow> consecutive (Buffer_Append info b)"
proof (cases info)
  case (Some x)
  assume b: "consecutive b"
  have "consecutive (b @ [x])" if "b = [] \<or> ci_Index (last b) + 1 = ci_Index x"
  proof (cases "b = []")
    case False
    then have l: "ci_Index x = ci_Index (b ! i) + 1" if "Suc i = length b" for i
      using that \<open>b = [] \<or> ci_Index (last b) + 1 = ci_Index x\<close> by (simp add: last_conv_nth flip: that)
    then show ?thesis using b unfolding consecutive_def
      by (auto simp: nth_append less_Suc_eq)
  qed (simp add: consecutive_def)
  then show ?thesis using b Some by (simp add: Buffer_Append_def)
qed (simp add: Buffer_Append_def)

lemma consecutive_PopHead: "consecutive b \<Longrightarrow> consecutive (snd (Buffer_PopHead b))"
  by (cases b) (auto simp: consecutive_def Buffer_PopHead_def)


section \<open>The order of downloaded ledgers\<close>

lemma prepareTask_nth:
  assumes "a \<le> b" "i < length (prepareTask (a, b))"
  shows "prepareTask (a, b) ! i = a + of_nat i"
  using assms by (simp add: prepareTask_def del: upt_Suc)

lemma length_prepareTask: "a \<le> b \<Longrightarrow> length (prepareTask (a, b)) = Suc (unat b - unat a)"
  by (simp add: prepareTask_def Suc_diff_le word_le_nat_alt del: upt_Suc)

lemma prepareTask_next:
  assumes "a \<le> b"
  shows "a + of_nat (length (prepareTask (a, b))) = b + 1"
proof -
  have "unat a + (unat b - unat a) = unat b" using assms by (simp add: word_le_nat_alt)
  then have "(of_nat (unat a) + of_nat (unat b - unat a) :: 64 word) = of_nat (unat b)" by (metis of_nat_add)
  then have "a + of_nat (unat b - unat a) = b" by simp
  then show ?thesis using length_prepareTask [OF assms] by (simp add: algebra_simps)
qed

lemma distinct_prepareTask: "distinct (prepareTask (a, b))"
proof -
  have "inj_on (of_nat :: nat \<Rightarrow> 64 word) {unat a..<Suc (unat b)}"
  proof (rule inj_onI)
    fix x y assume "x \<in> {unat a..<Suc (unat b)}" "y \<in> {unat a..<Suc (unat b)}" "(of_nat x :: 64 word) = of_nat y"
    moreover have "unat (of_nat z :: 64 word) = z" if "z \<in> {unat a..<Suc (unat b)}" for z
    proof -
      have "unat b < 2 ^ LENGTH(64)" by (rule unsigned_less)
      then show ?thesis using that by (simp add: unsigned_of_nat take_bit_nat_eq_self)
    qed
    ultimately show "x = y" by metis
  qed
  then show ?thesis by (simp add: prepareTask_def distinct_map del: upt_Suc)
qed

text \<open>
  The contract of the downloader: what has been passed on is the longest part of the range, from its
  start, whose ledgers have all arrived.
\<close>

definition passed :: "64 word list \<Rightarrow> 64 word set \<Rightarrow> 64 word list" where
  "passed rs S = takeWhile (\<lambda>i. i \<in> S) rs"

definition dl_inv ::
  "64 word \<times> 64 word \<Rightarrow> (64 word \<Rightarrow> close_info) \<Rightarrow> close_info list \<Rightarrow> 64 word set \<Rightarrow> downloader \<Rightarrow> bool" where
  "dl_inv tr info old S d \<longleftrightarrow>
     S \<subseteq> set (prepareTask tr) \<and> dl_ready d = old @ map info (passed (prepareTask tr) S) \<and>
     dl_nextIndex d = fst tr + of_nat (length (passed (prepareTask tr) S)) \<and>
     (\<forall>i \<in> S. map_of (dl_infoMap d) i = Some (info i)) \<and>
     (\<forall>i \<in> insert (snd tr + 1) (set (prepareTask tr)) - S. map_of (dl_infoMap d) i = None)"

text \<open>Passing on from position k of the range.\<close>

lemma deliver_run:
  assumes "a \<le> b" "R = prepareTask (a, b)" "S \<subseteq> set R"
    and "\<forall>i \<in> S. map_of m i = Some (info i)" "\<forall>i \<in> insert (b + 1) (set R) - S. map_of m i = None"
    and "k \<le> length R" "dl_infoMap d = m" "dl_nextIndex d = a + of_nat k"
    and "length (takeWhile (\<lambda>i. i \<in> S) (drop k R)) < fuel" "b + 1 \<notin> S"
  shows "deliver fuel d = (Inr (), d\<lparr>dl_ready := dl_ready d @ map info (takeWhile (\<lambda>i. i \<in> S) (drop k R)),
    dl_nextIndex := a + of_nat (k + length (takeWhile (\<lambda>i. i \<in> S) (drop k R)))\<rparr>)"
  using assms(6-9)
proof (induction fuel arbitrary: k d)
  case (Suc fuel)
  show ?case
  proof (cases "k < length R \<and> R ! k \<in> S")
    case True
    then have n: "dl_nextIndex d = R ! k" using prepareTask_nth [OF assms(1), of k] Suc.prems(3) assms(2) by simp
    have dr: "drop k R = R ! k # drop (Suc k) R" using True by (simp add: Cons_nth_drop_Suc)
    let ?d = "d\<lparr>dl_ready := dl_ready d @ [info (R ! k)], dl_nextIndex := dl_nextIndex d + 1\<rparr>"
    have "deliver fuel ?d = (Inr (), ?d\<lparr>dl_ready := dl_ready ?d @ map info (takeWhile (\<lambda>i. i \<in> S) (drop (Suc k) R)),
      dl_nextIndex := a + of_nat (Suc k + length (takeWhile (\<lambda>i. i \<in> S) (drop (Suc k) R)))\<rparr>)"
      using True Suc.prems dr by (intro Suc.IH) (auto simp: algebra_simps)
    then show ?thesis using n assms(4) True Suc.prems(2) dr by simp
  next
    case False
    have "dl_nextIndex d \<notin> S \<and> dl_nextIndex d \<in> insert (b + 1) (set R)"
    proof (cases "k = length R")
      case True
      then show ?thesis using prepareTask_next [OF assms(1)] Suc.prems(3) assms(2,10) by simp
    next
      case lt: False
      then have k: "k < length R" using Suc.prems(1) by simp
      then have "dl_nextIndex d = R ! k" using prepareTask_nth [OF assms(1), of k] Suc.prems(3) assms(2) by simp
      then show ?thesis using False k by simp
    qed
    then have "map_of m (dl_nextIndex d) = None" using assms(5) by blast
    moreover have "takeWhile (\<lambda>i. i \<in> S) (drop k R) = []"
      using False Suc.prems(1) by (cases "k = length R") (auto simp: Cons_nth_drop_Suc [symmetric])
    ultimately show ?thesis using Suc.prems(2,3) by simp
  qed
qed simp


lemma takeWhile_continue:
  assumes "\<And>x. P x \<Longrightarrow> Q x"
  shows "takeWhile P xs @ takeWhile Q (drop (length (takeWhile P xs)) xs) = takeWhile Q xs"
  using assms by (induction xs) auto

lemma next_not_in_range: "b < - 1 \<Longrightarrow> b + 1 \<notin> set (prepareTask (a, b))"
proof
  assume b: "b < - 1" and "b + 1 \<in> set (prepareTask (a, b))"
  then obtain n where n: "n \<le> unat b" "b + 1 = of_nat n" by (auto simp: prepareTask_def less_Suc_eq_le simp del: upt_Suc)
  have "unat (b + 1) = Suc (unat b)" using b unatSuc [of b] max_word_wrap [of b] by (auto simp: add.commute)
  moreover have "unat (of_nat n :: 64 word) \<le> n" by (simp add: unsigned_of_nat take_bit_nat_less_eq_self)
  ultimately show False using n by simp
qed

lemma reorder_step:
  assumes "fst tr \<le> snd tr" "snd tr < - 1" "dl_inv tr info old S d"
    and "i \<in> set (prepareTask tr)" "ci_Index (info i) = i"
  obtains d' where "reorder (info i) d = (Inr (), d')" "dl_inv tr info old (insert i S) d'"
proof -
  obtain a b where tr: "tr = (a, b)" by (cases tr)
  let ?R = "prepareTask tr" and ?S = "insert i S" and ?k = "length (passed (prepareTask tr) S)"
  let ?m = "AList.update i (info i) (dl_infoMap d)" and ?T = "takeWhile (\<lambda>x. x \<in> insert i S) (drop (length (passed (prepareTask tr) S)) (prepareTask tr))"
  have b1: "b + 1 \<notin> set ?R" using next_not_in_range assms(2) tr by simp
  have present: "\<forall>x \<in> ?S. map_of ?m x = Some (info x)" and absent: "\<forall>x \<in> insert (b + 1) (set ?R) - ?S. map_of ?m x = None"
    using assms(3) by (auto simp: dl_inv_def tr update_conv')
  have T: "distinct ?T" "set ?T \<subseteq> ?S" by (cases tr, auto simp: distinct_prepareTask distinct_drop distinct_takeWhile dest: set_takeWhileD)
  have "?S \<subseteq> fst ` set ?m"
  proof
    fix x assume "x \<in> ?S"
    then have "map_of ?m x = Some (info x)" using present by blast
    then show "x \<in> fst ` set ?m" by (force dest: map_of_SomeD)
  qed
  then have "set ?T \<subseteq> fst ` set ?m" using T(2) by (rule subset_trans [rotated])
  then have "length ?T \<le> length ?m" using T(1) card_mono [of "fst ` set ?m" "set ?T"] card_image_le [of "set ?m" fst] card_length [of ?m]
    by (simp add: distinct_card)
  then have run: "reorder (info i) d =
    (Inr (), d\<lparr>dl_infoMap := ?m, dl_ready := dl_ready d @ map info ?T, dl_nextIndex := a + of_nat (?k + length ?T)\<rparr>)"
    unfolding reorder_def Let_def assms(5) using assms tr present absent b1
    by (subst deliver_run [where a = a and b = b and R = ?R and S = ?S and m = ?m and info = info and k = ?k])
      (auto simp: dl_inv_def passed_def length_takeWhile_le)
  have T': "passed ?R S @ ?T = passed ?R ?S" using takeWhile_continue [of "\<lambda>x. x \<in> S" "\<lambda>x. x \<in> ?S"] by (simp add: passed_def)
  then have "?k + length ?T = length (passed ?R ?S)" by (metis length_append)
  moreover have "dl_ready d @ map info ?T = old @ map info (passed ?R ?S)"
    using assms(3) by (simp add: dl_inv_def flip: T')
  ultimately show thesis using that [OF run] assms(3,4) present absent tr by (simp add: dl_inv_def)
qed

lemma reorderAll_inv:
  assumes "fst tr \<le> snd tr" "snd tr < - 1" "dl_inv tr info old S d"
    and "\<forall>i \<in> set is. i \<in> set (prepareTask tr) \<and> ci_Index (info i) = i"
  obtains d' where "reorderAll (map info is) d = (Inr (), d')" "dl_inv tr info old (S \<union> set is) d'"
  using assms(3,4)
proof (induction "is" arbitrary: d S thesis)
  case (Cons i js)
  obtain d1 where d1: "reorder (info i) d = (Inr (), d1)" "dl_inv tr info old (insert i S) d1"
    using reorder_step [OF assms(1,2) Cons.prems(2)] Cons.prems(3) by auto
  obtain d2 where "reorderAll (map info js) d1 = (Inr (), d2)" "dl_inv tr info old (insert i S \<union> set js) d2"
    using Cons.IH [OF _ d1(2)] Cons.prems(3) by auto
  then show ?case using Cons.prems(1) [of d2] d1(1) by (simp add: thenA_def bindA_def)
qed (simp add: retA_def)

text \<open>
  C6. The downloader passes ledgers on in order.  Let a task ask for the ledgers of a range of which
  the downloader has seen none, and let any of them arrive, in any order: the downloader then has
  passed on exactly the ledgers at the start of the range up to the first that did not arrive, each
  once and in increasing order, and its loop has ended without running out of turns.
\<close>

theorem downloader_refines_prefix:
  assumes "fst tr \<le> snd tr" "snd tr < - 1" "dl_nextIndex d = fst tr"
    and "\<forall>i \<in> insert (snd tr + 1) (set (prepareTask tr)). map_of (dl_infoMap d) i = None"
    and "\<forall>i \<in> set is. i \<in> set (prepareTask tr) \<and> ci_Index (info i) = i"
  shows "\<exists>d'. reorderAll (map info is) d = (Inr (), d') \<and>
    dl_ready d' = dl_ready d @ map info (takeWhile (\<lambda>i. i \<in> set is) (prepareTask tr))"
proof -
  have "takeWhile (\<lambda>i. False) xs = []" for xs :: "64 word list" by (cases xs) simp_all
  then have "dl_inv tr info (dl_ready d) {} d" using assms(3,4) by (cases tr) (simp add: dl_inv_def passed_def)
  then obtain d' where "reorderAll (map info is) d = (Inr (), d')" "dl_inv tr info (dl_ready d) ({} \<union> set is) d'"
    using reorderAll_inv [OF assms(1,2) _ assms(5)] by blast
  then show ?thesis by (auto simp: dl_inv_def passed_def)
qed

text \<open>Ledgers 3 to 6 of which 4, 3 and 6 arrive in that order: 3 and 4 are passed on.\<close>

theorem downloader_refines_prefix_witness:
  "\<exists>d'. reorderAll (map (\<lambda>i. \<lparr>ci_Index = i, ci_Value = [], ci_TxSet = zero_TxSet\<rparr>) [4, 3, 6])
      (NewDownloader\<lparr>dl_nextIndex := 3\<rparr>) = (Inr (), d') \<and>
    map ci_Index (dl_ready d') = [3, 4]"
proof -
  let ?info = "\<lambda>i. \<lparr>ci_Index = i, ci_Value = [], ci_TxSet = zero_TxSet\<rparr>"
  have r: "prepareTask (3, 6) = [3, 4, 5, 6]" by code_simp
  show ?thesis
    using downloader_refines_prefix [of "(3, 6)" "NewDownloader\<lparr>dl_nextIndex := 3\<rparr>" "[4, 3, 6]" ?info]
    by (auto simp: r NewDownloader_def)
qed


section \<open>Recovery from the checkpoint\<close>

definition checkpointOf :: "ledgermgr \<Rightarrow> ledger_checkpoint" where
  "checkpointOf s =
     \<lparr>lc_LastCloseTime = lm_lastCloseTime s, lc_LedgerHeaderCount = lm_ledgerHeaderCount s,
      lc_LargestConsensusIndex = 0, lc_PrevLedgerHeader = lm_prevLedgerHeader s,
      lc_PrevLedgerHeaderHash = lm_prevLedgerHeaderHash s, lc_CurrLedgerHeader = lm_currLedgerHeader s,
      lc_CurrLedgerHeaderHash = lm_currLedgerHeaderHash s\<rparr>"

lemma checkpointOf_store [simp]: "checkpointOf (s\<lparr>lm_tm := tm\<rparr>) = checkpointOf s"
  by (simp add: checkpointOf_def)

lemma saveCheckpoint_run:
  assumes "opened (lm_database s)" "saveCheckpoint s = (Inr (), t)" "storable_checkpoint (checkpointOf s)"
  shows "checkpointOf t = checkpointOf s \<and>
    (\<exists>b. Get LEDGER ''CHECKPOINT'' (lm_database t) = Inr (Some b) \<and> DecodeLedgerCheckpoint b = Inr (checkpointOf t))"
proof -
  obtain b where b: "EncodeLedgerCheckpoint (checkpointOf s) = Inr b" "DecodeLedgerCheckpoint b = Inr (checkpointOf s)"
    using checkpoints.stores [OF assms(3)] by blast
  have "saveCheckpoint s = errorfA ''save checkpoint in db failed: '' (onLedgerStore (Put LEDGER ''CHECKPOINT'' b)) s"
    unfolding saveCheckpoint_def bind_read Let_def checkpointOf_def [of s, symmetric] using b(1) by (simp add: bindA_def)
  then have t: "t = s\<lparr>lm_tm := (lm_tm s)\<lparr>tm_database := snd (Put LEDGER ''CHECKPOINT'' b (lm_database s))\<rparr>\<rparr>"
    using arg_cong [where f = snd, OF assms(2)] by (simp add: snd_onLedgerStore)
  have "Get LEDGER ''CHECKPOINT'' (lm_database t) = Inr (Some b)"
    using mem.get_put [OF assms(1), of LEDGER LEDGER "''CHECKPOINT''" "''CHECKPOINT''" b] by (simp add: t)
  then show ?thesis using b(2) by (simp add: t)
qed

lemma saveCheckpoint_ok:
  assumes "opened (lm_database s)" "storable_checkpoint (checkpointOf s)"
  shows "\<exists>t. saveCheckpoint s = (Inr (), t)"
proof -
  obtain b where b: "EncodeLedgerCheckpoint (checkpointOf s) = Inr b" using checkpoints.stores [OF assms(2)] by blast
  obtain d where "Put LEDGER ''CHECKPOINT'' b (lm_database s) = (Inr (), d)" using mem.put_ok [OF assms(1)] by metis
  then have "errorfA p (onLedgerStore (Put LEDGER ''CHECKPOINT'' b)) s = (Inr (), s\<lparr>lm_tm := (lm_tm s)\<lparr>tm_database := d\<rparr>\<rparr>)" for p
    by (simp add: errorfA_def onTm_def onStore_def)
  then show ?thesis
    unfolding saveCheckpoint_def bind_read Let_def checkpointOf_def [of s, symmetric] using b by (simp add: bindA_def)
qed

lemma errorfA_Inr: "errorfA p m s = (Inr a, t) \<Longrightarrow> m s = (Inr a, t)"
  by (cases "m s"; cases "fst (m s)") (simp_all add: errorfA_def errorf_def)

lemma checkpointOf_saved: "checkpointOf (snd (saveCheckpoint s)) = checkpointOf s"
  unfolding saveCheckpoint_def bind_read Let_def checkpointOf_def [of s, symmetric]
  by (cases "EncodeLedgerCheckpoint (checkpointOf s)") (simp_all add: bindA_def snd_onLedgerStore)

lemma checkpoint_after_advance:
  assumes "opened (lm_database s)" "advanceLedger c now seq ph th cv s = (Inr (), s')" "storable_checkpoint (checkpointOf s')"
  shows "\<exists>b h. Get LEDGER ''CHECKPOINT'' (lm_database s') = Inr (Some b) \<and> DecodeLedgerCheckpoint b = Inr (checkpointOf s') \<and>
    GetLedgerHeaderKey (x_crypto c) (Some (genesisHeader seq ph th cv)) = Inr h \<and>
    checkpointOf s' = \<lparr>lc_LastCloseTime = now seq, lc_LedgerHeaderCount = i64 (lm_ledgerHeaderCount s + 1),
      lc_LargestConsensusIndex = 0, lc_PrevLedgerHeader = lm_currLedgerHeader s,
      lc_PrevLedgerHeaderHash = lm_currLedgerHeaderHash s, lc_CurrLedgerHeader = Some (genesisHeader seq ph th cv),
      lc_CurrLedgerHeaderHash = h\<rparr>"
proof -
  let ?header = "genesisHeader seq ph th cv"
  obtain eb where e: "EncodeLedgerHeader ?header = Inr eb"
    using assms(2) by (cases "EncodeLedgerHeader ?header") (simp_all add: advanceLedger_def Let_def bindA_def)
  obtain h where h: "GetLedgerHeaderKey (x_crypto c) (Some ?header) = Inr h"
    using assms(2) e by (cases "GetLedgerHeaderKey (x_crypto c) (Some ?header)") (simp_all add: advanceLedger_def Let_def bindA_def)
  define d where "d = snd (Put LEDGER (dec (unat seq)) eb (lm_database s))"
  let ?s = "advanced now ?header h d s"
  have op: "opened (lm_database ?s)" using mem.put_ok [OF assms(1), of LEDGER "dec (unat seq)" eb]
    by (auto simp: advanced_def d_def)
  have run: "advanceLedger c now seq ph th cv s = errorfA ''save ledger checkpoint failed: '' saveCheckpoint ?s"
    using advanceLedger_run [OF assms(1) refl e h, of now] d_def by simp
  have sc: "saveCheckpoint ?s = (Inr (), s')" by (rule errorfA_Inr [OF trans [OF run [symmetric] assms(2)]])
  have ck: "checkpointOf s' = checkpointOf ?s" using sc checkpointOf_saved [of ?s] by simp
  then obtain b where b: "Get LEDGER ''CHECKPOINT'' (lm_database s') = Inr (Some b)" "DecodeLedgerCheckpoint b = Inr (checkpointOf s')"
    using saveCheckpoint_run [OF op sc] assms(3) by metis
  have "lh_SeqNum ?header = seq" by (simp add: genesisHeader_def)
  then have "checkpointOf ?s = \<lparr>lc_LastCloseTime = now seq, lc_LedgerHeaderCount = i64 (lm_ledgerHeaderCount s + 1),
      lc_LargestConsensusIndex = 0, lc_PrevLedgerHeader = lm_currLedgerHeader s,
      lc_PrevLedgerHeaderHash = lm_currLedgerHeaderHash s, lc_CurrLedgerHeader = Some ?header, lc_CurrLedgerHeaderHash = h\<rparr>"
    by (simp add: checkpointOf_def advanced_def)
  then show ?thesis using b h ck by (intro exI [of _ b] exI [of _ h]) simp
qed


lemma recovers_closed_ledger:
  assumes "opened (lm_database s)" "advanceLedger c now seq (lm_currLedgerHeaderHash s) th cv s = (Inr (), s')"
    and "storable_checkpoint (checkpointOf s')" "0 \<le> now seq" "now seq \<le> now'" "0 \<le> i64 (lm_ledgerHeaderCount s + 1)"
    and "lm_currLedgerHeader s = None \<Longrightarrow> lm_ledgerHeaderCount s = 0" "lm_database t = lm_database s'"
  shows "\<exists>t'. RecoverFromCheckpoint c now' t = (Inr (), t') \<and> checkpointOf t' = checkpointOf s' \<and>
    NextLedgerHeaderSeq t' = seq + 1 \<and> NextLedgerHeaderSeq s' = seq + 1 \<and>
    lm_largestConsensusIndex t' = seq \<and> lm_ledgerState t' = LedgerStateNotSynced \<and> lm_tm t' = lm_tm t"
proof -
  let ?header = "genesisHeader seq (lm_currLedgerHeaderHash s) th cv"
  obtain b h where b: "Get LEDGER ''CHECKPOINT'' (lm_database t) = Inr (Some b)" "DecodeLedgerCheckpoint b = Inr (checkpointOf s')"
    and h: "GetLedgerHeaderKey (x_crypto c) (Some ?header) = Inr h"
    and ck: "checkpointOf s' = \<lparr>lc_LastCloseTime = now seq, lc_LedgerHeaderCount = i64 (lm_ledgerHeaderCount s + 1),
      lc_LargestConsensusIndex = 0, lc_PrevLedgerHeader = lm_currLedgerHeader s,
      lc_PrevLedgerHeaderHash = lm_currLedgerHeaderHash s, lc_CurrLedgerHeader = Some ?header, lc_CurrLedgerHeaderHash = h\<rparr>"
    using checkpoint_after_advance [OF assms(1-3)] assms(8) by auto
  have hd: "lh_PrevLedgerHash ?header = lm_currLedgerHeaderHash s" "lh_SeqNum ?header = seq" by (simp_all add: genesisHeader_def)
  have "lm_currLedgerHeader s = None \<Longrightarrow> i64 (lm_ledgerHeaderCount s + 1) = 1" using assms(7) by (simp add: i64_def)
  then have ok: "checkCheckpoint c now' (checkpointOf s') = Inr ?header"
    using assms(4-6) h hd by (auto simp: checkCheckpoint_def ck)
  let ?t = "t\<lparr>lm_ledgerState := LedgerStateNotSynced, lm_lastCloseTime := now seq, lm_ledgerHeaderCount := i64 (lm_ledgerHeaderCount s + 1),
    lm_prevLedgerHeader := lm_currLedgerHeader s, lm_prevLedgerHeaderHash := lm_currLedgerHeaderHash s,
    lm_currLedgerHeader := Some ?header, lm_currLedgerHeaderHash := h, lm_largestConsensusIndex := seq\<rparr>"
  have run: "RecoverFromCheckpoint c now' t = (Inr (), ?t)"
    using b ok hd by (simp add: RecoverFromCheckpoint_def bindA_def thenA_def errorfA_def present_def ck)
  have "checkpointOf ?t = checkpointOf s'" unfolding ck by (simp add: checkpointOf_def)
  moreover have "NextLedgerHeaderSeq s' = seq + 1"
    using arg_cong [where f = lc_CurrLedgerHeader, OF ck] hd by (simp add: checkpointOf_def NextLedgerHeaderSeq_def)
  ultimately show ?thesis using run hd by (intro exI [of _ ?t]) (simp add: NextLedgerHeaderSeq_def)
qed

text \<open>
  C7. A restart resumes where the node stopped.  After a ledger has been closed, any manager on the same
  store that recovers from the checkpoint at a later time has the same current and previous ledger with
  their keys, the same count and closing time, and expects the same next ledger.  It is not synced and
  the largest consensus index is the number of the ledger.
\<close>

theorem restart_resumes:
  assumes "opened (lm_database s)" "advanceLedger c now seq (lm_currLedgerHeaderHash s) th cv s = (Inr (), s')"
    and "storable_checkpoint (checkpointOf s')" "0 \<le> now seq" "now seq \<le> now'" "0 \<le> i64 (lm_ledgerHeaderCount s + 1)"
    and "lm_currLedgerHeader s = None \<Longrightarrow> lm_ledgerHeaderCount s = 0" "lm_database t = lm_database s'"
  shows "\<exists>t'. RecoverFromCheckpoint c now' t = (Inr (), t') \<and> checkpointOf t' = checkpointOf s' \<and>
    NextLedgerHeaderSeq t' = seq + 1 \<and> NextLedgerHeaderSeq s' = seq + 1 \<and>
    lm_largestConsensusIndex t' = seq \<and> lm_ledgerState t' = LedgerStateNotSynced"
  using recovers_closed_ledger [OF assms] by blast


lemma LedgerHeader_size:
  "fsize (LedgerHeader_fields m) \<le> 180 + 2 * (length (lh_PrevLedgerHash m) + length (lh_TxSetHash m) + length (lh_ConsensusValue m))"
proof -
  note a = fsize_word [of 1 "lh_Version m"] fsize_word [of 5 "lh_MaxTxListSize m"] fsize_word [of 6 "lh_SeqNum m"]
    and b = fsize_int [of 7 "lh_TotalTokens m"] fsize_int [of 8 "lh_BaseFee m"] fsize_int [of 9 "lh_BaseReserve m"]
    and c = fsize_str [of 2 "lh_PrevLedgerHash m"] fsize_str [of 3 "lh_TxSetHash m"] fsize_str [of 4 "lh_ConsensusValue m"]
  show ?thesis unfolding LedgerHeader_fields_def fsize_append distrib_left using a b c by linarith
qed

lemma genesis_storable:
  assumes "utf8_valid h" "length h < 1000" "in64 t"
  shows "storable_checkpoint \<lparr>lc_LastCloseTime = t, lc_LedgerHeaderCount = 1, lc_LargestConsensusIndex = 0,
    lc_PrevLedgerHeader = None, lc_PrevLedgerHeaderHash = [], lc_CurrLedgerHeader = Some genesis, lc_CurrLedgerHeaderHash = h\<rparr>"
    (is "storable_checkpoint ?m")
proof -
  have "length (put_fields (LedgerCheckpoint_fields ?m)) \<le> fsize (LedgerCheckpoint_fields ?m)"
    by (rule put_fields_length [OF LedgerCheckpoint.nums])
  moreover have g: "fsize (LedgerHeader_fields genesis) \<le> 180"
    using LedgerHeader_size [of genesis] by (simp add: genesis_def genesisHeader_def)
  have "fsize (LedgerCheckpoint_fields ?m) \<le> 5000"
    using fsize_int [of 1 t] fsize_int [of 2 1] fsize_word [of 3 "0 :: 64 word"] LedgerHeader.fsize_msg [of 4 None]
      LedgerHeader.fsize_msg [of 6 "Some genesis"] fsize_str [of 5 "[]"] fsize_str [of 7 h] assms(2) g
    by (simp add: LedgerCheckpoint_fields_def)
  moreover have "(5000::nat) < wire_max" by (simp add: wire_max_def)
  ultimately have "length (put_fields (LedgerCheckpoint_fields ?m)) < wire_max" by linarith
  moreover have "LedgerHeader_utf8 genesis" "LedgerHeader_fits genesis"
    by (simp_all add: LedgerHeader_utf8_def LedgerHeader_fits_def genesis_def genesisHeader_def in64_def)
  ultimately show ?thesis using assms
    by (simp add: storable_checkpoint_def LedgerCheckpoint_utf8_def LedgerCheckpoint_fits_def in64_def)
qed


text \<open>The genesis ledger is closed at time 5 by a node whose digests are 32 letters, which restarts at time 9.\<close>

definition letters :: txcfg where
  "letters = cfg\<lparr>x_crypto := plain\<lparr>k_sha256 := (\<lambda>_. replicate 32 (CHR ''h''))\<rparr>\<rparr>"

lemma saveCheckpoint_other:
  assumes "opened (lm_database s)" "bucket_ok B" "B \<noteq> LEDGER"
  shows "\<exists>tm. snd (saveCheckpoint s) = s\<lparr>lm_tm := tm\<rparr> \<and> Get B k (tm_database tm) = Get B k (lm_database s)"
proof (cases "EncodeLedgerCheckpoint (checkpointOf s)")
  case (Inl e)
  then show ?thesis unfolding saveCheckpoint_def bind_read Let_def checkpointOf_def [of s, symmetric]
    by (intro exI [of _ "lm_tm s"]) (simp add: bindA_def)
next
  case (Inr b)
  then show ?thesis unfolding saveCheckpoint_def bind_read Let_def checkpointOf_def [of s, symmetric]
    using assms(2,3) mem.get_put [OF assms(1), of LEDGER B k "''CHECKPOINT''" b]
    by (intro exI [of _ "(lm_tm s)\<lparr>tm_database := snd (Put LEDGER ''CHECKPOINT'' b (lm_database s))\<rparr>"])
      (simp add: bindA_def snd_onLedgerStore)
qed

lemma genesis_closed:
  "\<exists>s'. advanceLedger letters (\<lambda>_. 5) 1 [] [] [] (newLedgerMgr (freshTm (Some []))) = (Inr (), s') \<and> storable_checkpoint (checkpointOf s') \<and>
    (\<forall>k. Get ACCOUNT k (lm_database s') = Inr None)"
proof -
  let ?s = "newLedgerMgr (freshTm (Some []))" and ?h = "char_of (6 :: nat) # replicate 32 (CHR ''h'')"
  have op: "opened (lm_database ?s)" by (simp add: newLedgerMgr_def freshTm_def opened_def)
  have h: "GetLedgerHeaderKey (x_crypto letters) (Some genesis) = Inr ?h"
    using genesis_encodes by (simp add: GetLedgerHeaderKey_def hashKey_def EncodeKey_def letters_def plain_def)
  define d where "d = snd (Put LEDGER (dec (unat (1 :: 64 word))) (put_fields (LedgerHeader_fields genesis)) (lm_database ?s))"
  let ?a = "advanced (\<lambda>_. 5) genesis ?h d ?s"
  have run: "advanceLedger letters (\<lambda>_. 5) 1 [] [] [] ?s = errorfA ''save ledger checkpoint failed: '' saveCheckpoint ?a"
    using advanceLedger_run [OF op genesis_def genesis_encodes h, of "\<lambda>_. 5"] d_def by simp
  have opa: "opened (lm_database ?a)" using mem.put_ok [OF op] by (auto simp: d_def advanced_def)
  have ck: "checkpointOf ?a = \<lparr>lc_LastCloseTime = 5, lc_LedgerHeaderCount = 1, lc_LargestConsensusIndex = 0,
    lc_PrevLedgerHeader = None, lc_PrevLedgerHeaderHash = [], lc_CurrLedgerHeader = Some genesis, lc_CurrLedgerHeaderHash = ?h\<rparr>"
    by (simp add: checkpointOf_def advanced_def newLedgerMgr_def i64_def)
  have utf8: "utf8_valid ?h" by code_simp
  have st: "storable_checkpoint (checkpointOf ?a)" unfolding ck by (rule genesis_storable [OF utf8]) (simp_all add: in64_def)
  obtain t where t: "saveCheckpoint ?a = (Inr (), t)" using saveCheckpoint_ok [OF opa st] by blast
  then have s': "advanceLedger letters (\<lambda>_. 5) 1 (lm_currLedgerHeaderHash ?s) [] [] ?s = (Inr (), t)"
    using run by (simp add: errorfA_def newLedgerMgr_def)
  have "checkpointOf t = checkpointOf ?a" using checkpointOf_saved [of ?a] t by simp
  then have "storable_checkpoint (checkpointOf t)" using st by simp
  moreover have "Get ACCOUNT k (lm_database t) = Inr None" for k
  proof -
    have ne: "ACCOUNT \<noteq> LEDGER" by (simp add: ACCOUNT_def LEDGER_def)
    obtain tm where tm: "snd (saveCheckpoint ?a) = ?a\<lparr>lm_tm := tm\<rparr>" "Get ACCOUNT k (tm_database tm) = Get ACCOUNT k (lm_database ?a)"
      using ne saveCheckpoint_other [OF opa, of ACCOUNT k] by auto
    have "Get ACCOUNT k (lm_database ?a) = Get ACCOUNT k (lm_database ?s)"
      using ne mem.get_put [OF op, of LEDGER ACCOUNT k] by (simp add: advanced_def d_def)
    also have "\<dots> = Inr None" by (simp add: newLedgerMgr_def freshTm_def Get_def)
    finally show ?thesis using tm t by simp
  qed
  ultimately show ?thesis using s' by (auto simp: newLedgerMgr_def)
qed

theorem restart_resumes_witness:
  "\<exists>s' t'. advanceLedger letters (\<lambda>_. 5) 1 [] [] [] (newLedgerMgr (freshTm (Some []))) = (Inr (), s') \<and>
     RecoverFromCheckpoint letters 9 (newLedgerMgr (lm_tm s')) = (Inr (), t') \<and> checkpointOf t' = checkpointOf s' \<and>
     NextLedgerHeaderSeq t' = 2 \<and> lm_largestConsensusIndex t' = 1"
proof -
  let ?s = "newLedgerMgr (freshTm (Some []))"
  have op: "opened (lm_database ?s)" "lm_currLedgerHeaderHash ?s = []" by (simp_all add: newLedgerMgr_def freshTm_def opened_def)
  obtain s' where s': "advanceLedger letters (\<lambda>_. 5) 1 (lm_currLedgerHeaderHash ?s) [] [] ?s = (Inr (), s')" "storable_checkpoint (checkpointOf s')"
    using genesis_closed op(2) by auto
  from restart_resumes [OF op(1) s', of 9 "newLedgerMgr (lm_tm s')"] s' show ?thesis
    by (auto simp: newLedgerMgr_def i64_def)
qed


section \<open>A node at the genesis ledger\<close>

lemma genesis_state:
  assumes "opened (tm_database tm)"
  shows "\<exists>h d tm'. snd (CreateGenesisLedger c now (newLedgerMgr tm)) =
      (advanced now genesis h d ((newLedgerMgr tm)\<lparr>lm_ledgerState := LedgerStateSynced\<rparr>))\<lparr>lm_tm := tm'\<rparr> \<and>
    Get TXSET k (tm_database tm') = Get TXSET k (tm_database tm)"
proof -
  let ?s = "(newLedgerMgr tm)\<lparr>lm_ledgerState := LedgerStateSynced\<rparr>"
  obtain h where h: "GetLedgerHeaderKey (x_crypto c) (Some genesis) = Inr h" using genesis_key by blast
  obtain b where b: "EncodeLedgerHeader genesis = Inr b" using genesis_encodes by blast
  define d where "d = snd (Put LEDGER (dec 1) b (tm_database tm))"
  let ?a = "advanced now genesis h d ?s"
  have op: "opened (lm_database ?s)" using assms(1) by (simp add: newLedgerMgr_def)
  have s: "snd (CreateGenesisLedger c now (newLedgerMgr tm)) = snd (saveCheckpoint ?a)"
    using advanceLedger_run [OF op genesis_def b h, of now] d_def
    by (simp add: newLedgerMgr_def CreateGenesisLedger_def thenA_def bindA_def)
  have opd: "opened (lm_database ?a)" and get: "Get TXSET k (lm_database ?a) = Get TXSET k (tm_database tm)"
    using mem.put_ok [OF assms] mem.get_put [OF assms, of LEDGER TXSET k "dec 1" b] by (auto simp: advanced_def d_def)
  obtain tm' where "snd (saveCheckpoint ?a) = ?a\<lparr>lm_tm := tm'\<rparr>" "Get TXSET k (tm_database tm') = Get TXSET k (lm_database ?a)"
    using saveCheckpoint_other [OF opd, of TXSET k] by auto
  then show ?thesis using s get by metis
qed

text \<open>
  C30. A node that joins from the genesis ledger crashes.  It learns of a ledger above two, so that it
  starts to download the ledgers from number one on, since the largest consensus index is still zero.
  A peer answers with the genesis ledger, which has no transaction set: reading it panics.
\<close>

theorem genesis_download_panics:
  assumes "opened (tm_database tm)" "opened (tm_database tm')" "Get TXSET [] (tm_database tm') = Inr None"
    and "s = snd (CreateGenesisLedger c now (newLedgerMgr tm))" "peer = snd (CreateGenesisLedger c now' (newLedgerMgr tm'))"
    and "2 < index" "Sign (x_crypto c) seed ''1'' = Inr sg" "rpc ''1'' sg = fst (GetLedger ''1'' peer)"
  shows "\<exists>t. RecvExtVal c now index val txset s = (Inr (), t) \<and> lm_ledgerState t = LedgerStateSyncing \<and>
    fst (runDownloader (queryLedger (x_crypto c) seed rpc) arrive (lm_downloader t)) = Inl (Panic ''ts'')"
proof -
  have "dec 1 = ''1''" by code_simp
  then have one: "dec (unat (1 :: 64 word)) = ''1''" "lh_SeqNum genesis = 1" "lh_TxSetHash genesis = []"
    by (simp_all add: genesis_def genesisHeader_def)
  obtain h d tm1 where s: "s = (advanced now genesis h d ((newLedgerMgr tm)\<lparr>lm_ledgerState := LedgerStateSynced\<rparr>))\<lparr>lm_tm := tm1\<rparr>"
    using genesis_state [OF assms(1)] assms(4) by blast
  obtain h' d' tm2 where p: "peer = (advanced now' genesis h' d' ((newLedgerMgr tm')\<lparr>lm_ledgerState := LedgerStateSynced\<rparr>))\<lparr>lm_tm := tm2\<rparr>"
    and get: "Get TXSET [] (tm_database tm2) = Inr None"
    using genesis_state [OF assms(2), of c now' "[]"] assms(3,5) by auto
  have "fst (GetLedger ''1'' peer) = Inr (Ledger (Some genesis) None)"
    using get one by (simp add: GetLedger_def p advanced_def newLedgerMgr_def GetLedgerHeader_def GetTxSet_def bindA_def errorfA_def
      present_def lru_Add_def lru_Get_def)
  then have q: "queryLedger (x_crypto c) seed rpc 1 = Inl (Panic ''ts'')"
    using assms(7,8) one by (simp add: queryLedger_def logged_def)
  have le: "(1 :: 64 word) \<le> index - 1" using assms(6) by (simp add: word_le_nat_alt word_less_nat_alt unat_sub)
  then have task: "prepareTask (1, index - 1) = 1 # tl (prepareTask (1, index - 1))"
    using prepareTask_nth [of 1 "index - 1" 0] length_prepareTask [of 1 "index - 1"]
    by (cases "prepareTask (1, index - 1)") simp_all
  have fields: "NextLedgerHeaderSeq s = 2" "lm_largestConsensusIndex s = 0" "lm_ledgerState s = LedgerStateSynced"
    "lm_downloader s = NewDownloader"
    using one by (simp_all add: s advanced_def newLedgerMgr_def NextLedgerHeaderSeq_def)
  let ?t = "s\<lparr>lm_buffer := Buffer_Append (Some \<lparr>ci_Index = index, ci_Value = val, ci_TxSet = txset\<rparr>) (lm_buffer s),
    lm_downloader := NewDownloader\<lparr>dl_rangeChan := [(1, index - 1)]\<rparr>, lm_largestConsensusIndex := index - 1,
    lm_ledgerState := LedgerStateSyncing\<rparr>"
  have ix: "index \<noteq> 2" "\<not> index < 2" "\<not> index \<le> 0" "\<not> index - 1 < 1" using assms(6) le by auto
  then have "RecvExtVal c now index val txset s = (Inr (), ?t)"
    using fields by (simp add: RecvExtVal_def bind_read Let_def thenA_def bindA_def onDownloader_def AddTask_def errorfA_def NewDownloader_def)
  moreover have "fst (runDownloader (queryLedger (x_crypto c) seed rpc) arrive (lm_downloader ?t)) = Inl (Panic ''ts'')"
    using q by (simp add: runDownloader_def download_def bindA_def dropA_def, subst task) (simp add: bindA_def)
  ultimately show ?thesis by (intro exI [of _ ?t]) simp
qed


theorem genesis_download_panics_witness:
  "\<exists>t rpc. RecvExtVal cfg (\<lambda>_. 0) 5 ''v'' zero_TxSet (snd (CreateGenesisLedger cfg (\<lambda>_. 0) (newLedgerMgr (freshTm (Some []))))) = (Inr (), t) \<and>
     lm_ledgerState t = LedgerStateSyncing \<and>
     fst (runDownloader (queryLedger plain (EncodeKey plain (ULTKey KeyTypeSeed (replicate 32 (CHR ''s'')))) rpc) (\<lambda>rs. rs) (lm_downloader t)) = Inl (Panic ''ts'')"
proof -
  let ?tm = "freshTm (Some [])" and ?seed = "EncodeKey plain (ULTKey KeyTypeSeed (replicate 32 (CHR ''s'')))"
  let ?peer = "snd (CreateGenesisLedger cfg (\<lambda>_. 0) (newLedgerMgr (freshTm (Some []))))"
  have tm: "opened (tm_database ?tm)" "Get TXSET [] (tm_database ?tm) = Inr None" by (simp_all add: freshTm_def opened_def Get_def)
  have "isOk (Sign plain ?seed ''1'')" by code_simp
  then obtain sg where sg: "Sign (x_crypto cfg) ?seed ''1'' = Inr sg" by (auto simp: cfg_def isOk_def split: sum.splits)
  have "x_crypto cfg = plain" "(2 :: 64 word) < 5" by (simp_all add: cfg_def)
  with genesis_download_panics [OF tm(1) tm(1) tm(2) refl refl \<open>2 < 5\<close> sg, where rpc = "\<lambda>_ _. fst (GetLedger ''1'' ?peer)" and now = "\<lambda>_. 0" and now' = "\<lambda>_. 0" and arrive = "\<lambda>rs. rs" and val = "''v''" and txset = zero_TxSet]
  show ?thesis by metis
qed


section \<open>The buffer stays consecutive\<close>

text \<open>What no operation but those on externalized values and downloads touches.\<close>

definition same_buffer :: "ledgermgr \<Rightarrow> ledgermgr \<Rightarrow> bool" where
  "same_buffer s t \<longleftrightarrow> lm_buffer t = lm_buffer s"

interpretation bufs: frame same_buffer
  by unfold_locales (simp_all add: same_buffer_def)

lemma same_buffer_simps [simp]:
  "same_buffer s (snd (onTm m s))" "same_buffer s (snd (onDownloader m' s))" "same_buffer s (snd (retA x s))"
  "same_buffer s (snd (failA f s))" "same_buffer s (snd (readA g s))" "same_buffer s (snd (liftA r s))"
  "same_buffer s (snd (modifyA u s)) \<longleftrightarrow> lm_buffer (u s) = lm_buffer s"
  by (auto simp: same_buffer_def onTm_def onDownloader_def split: prod.splits)

lemma same_buffer_advanceLedger: "same_buffer s (snd (advanceLedger c now seq ph th cv s))"
proof -
  have "same_buffer s (snd (saveCheckpoint s))" for s
    unfolding saveCheckpoint_def Let_def by (intro bufs.frame_bind) simp_all
  then show ?thesis unfolding advanceLedger_def Let_def
    by (intro bufs.frame_bind bufs.frame_then) (simp_all, simp add: same_buffer_def)
qed

lemma same_buffer_closeLedger: "same_buffer s (snd (closeLedger c now index val txset s))"
proof -
  have "same_buffer s (snd (fatalf p (advanceLedger c now seq ph th cv) s))" for p seq ph th cv s
    by (simp add: same_buffer_advanceLedger)
  then show ?thesis unfolding closeLedger_def by (auto intro!: bufs.frame_bind bufs.frame_then)
qed


definition keeps_consecutive :: "ledgermgr \<Rightarrow> ledgermgr \<Rightarrow> bool" where
  "keeps_consecutive s t \<longleftrightarrow> (consecutive (lm_buffer s) \<longrightarrow> consecutive (lm_buffer t))"

interpretation keeps: frame keeps_consecutive
  by unfold_locales (auto simp: keeps_consecutive_def)

lemma keeps_same: "same_buffer s t \<Longrightarrow> keeps_consecutive s t"
  by (simp add: same_buffer_def keeps_consecutive_def)

lemma keeps_append [simp]: "keeps_consecutive s (s\<lparr>lm_buffer := Buffer_Append info (lm_buffer s)\<rparr>)"
  by (simp add: keeps_consecutive_def consecutive_Append)

lemma keeps_RecvExtVal: "keeps_consecutive s (snd (RecvExtVal c now index val txset s))"
proof -
  note [simp] = keeps_same [OF same_buffer_closeLedger] keeps_same [OF same_buffer_simps(2)]
  have [simp]: "keeps_consecutive s (s\<lparr>lm_largestConsensusIndex := i, lm_ledgerState := st\<rparr>)" for s i st
    by (simp add: keeps_consecutive_def)
  show ?thesis unfolding RecvExtVal_def bind_read Let_def
    by (auto intro!: keeps.frame_bind keeps.frame_then split: LedgerState.splits)
qed

lemma consecutive_closeBuffered:
  "consecutive infos \<Longrightarrow> consecutive (lm_buffer s) \<Longrightarrow> consecutive (lm_buffer (snd (closeBuffered c now infos s)))"
proof (induction infos arbitrary: s)
  case (Cons ci infos)
  have rest: "consecutive infos" using consecutive_PopHead [OF Cons.prems(1)] by (simp add: Buffer_PopHead_def)
  let ?u = "s\<lparr>lm_buffer := infos\<rparr>"
  obtain r t where cl: "closeLedger c now (ci_Index ci) (ci_Value ci) (ci_TxSet ci) ?u = (r, t)" by force
  then have "lm_buffer t = infos"
    using same_buffer_closeLedger [where s = ?u and index = "ci_Index ci" and val = "ci_Value ci" and txset = "ci_TxSet ci" and c = c and now = now]
    by (simp add: same_buffer_def)
  then show ?case using Cons.IH [OF rest, of t] rest cl
    by (auto simp: thenA_def bindA_def split: sum.splits failure.splits)
qed simp

lemma keeps_recvDownloaded: "keeps_consecutive s (snd (recvDownloaded c now info s))"
proof -
  have b: "keeps_consecutive s (snd (closeBuffered c now (lm_buffer s) s))" for s
    by (simp add: keeps_consecutive_def consecutive_closeBuffered)
  have [simp]: "keeps_consecutive s (s\<lparr>lm_buffer := Buffer_Clear b, lm_ledgerState := st\<rparr>)" for s b st
    by (simp add: keeps_consecutive_def Buffer_Clear_def consecutive_def)
  show ?thesis unfolding recvDownloaded_def
    by (intro keeps.frame_then)
      (auto intro!: keeps.frame_then simp: bind_read b keeps_same [OF same_buffer_closeLedger] split: option.splits)
qed

lemma keeps_step: "lm_step c now s t \<Longrightarrow> keeps_consecutive s t"
proof (induction rule: lm_step.induct)
  case (2 s)
  have "keeps_consecutive s (s\<lparr>lm_downloader := d\<rparr>)" for d by (simp add: keeps_consecutive_def)
  then have "keeps_consecutive s (snd (recvDownloaded c now info (s\<lparr>lm_downloader := d\<rparr>)))" for info d
    by (rule keeps.frame_trans [OF _ keeps_recvDownloaded])
  then show ?case unfolding LedgerMgr_Start_step_def by (simp split: list.splits)
next
  case (3 s h txset)
  have "same_buffer s (snd (AddTxSet h txset s))" unfolding AddTxSet_def
    by (intro bufs.frame_bind bufs.frame_then) (simp_all, simp add: same_buffer_def)
  then show ?case by (rule keeps_same)
next
  case (4 s h)
  show ?case by (auto simp: GetTxSet_def keeps_consecutive_def split: prod.splits option.splits sum.splits)
next
  case (5 s q)
  have "same_buffer s (snd (GetLedgerHeader q s))" "same_buffer s (snd (GetTxSet q s))" for q s
    by (auto simp: GetLedgerHeader_def GetTxSet_def same_buffer_def split: prod.splits option.splits sum.splits)
  then have "same_buffer s (snd (GetLedger q s))" unfolding GetLedger_def present_def
    by (intro bufs.frame_bind) (auto split: option.splits)
  then show ?case by (rule keeps_same)
qed (simp_all add: keeps_RecvExtVal, simp_all add: keeps_consecutive_def)

text \<open>
  C29. What is buffered while the node catches up has no gaps.  In every state that the manager reaches,
  by externalized values in any order, downloaded ledgers and queries, the indices in the buffer are
  consecutive.
\<close>

theorem buffer_consecutive:
  assumes "(lm_step c now)\<^sup>*\<^sup>* (newLedgerMgr tm) s" "Suc i < length (lm_buffer s)"
  shows "ci_Index (lm_buffer s ! Suc i) = ci_Index (lm_buffer s ! i) + 1"
proof -
  have "consecutive (lm_buffer s)" using assms(1)
  proof (induction rule: rtranclp_induct)
    case base
    show ?case by (simp add: newLedgerMgr_def consecutive_def)
  next
    case (step t u)
    then show ?case using keeps_step [OF step.hyps(2)] by (simp add: keeps_consecutive_def)
  qed
  then show ?thesis using assms(2) by (simp add: consecutive_def)
qed

text \<open>A syncing manager receives the values 5, 7 and 6: the value 7 is dropped.\<close>

theorem buffer_consecutive_witness:
  "let s0 = snd (RecvExtVal cfg (\<lambda>_. 0) 5 ''v'' zero_TxSet (newLedgerMgr (freshTm (Some []))));
       s1 = snd (RecvExtVal cfg (\<lambda>_. 0) 7 ''w'' zero_TxSet s0);
       s2 = snd (RecvExtVal cfg (\<lambda>_. 0) 6 ''x'' zero_TxSet s1)
   in map ci_Index (lm_buffer s2) = [5, 6] \<and> ci_Index (lm_buffer s2 ! Suc 0) = ci_Index (lm_buffer s2 ! 0) + 1"
proof -
  let ?R = "\<lambda>i v s. snd (RecvExtVal cfg (\<lambda>_. 0) i v zero_TxSet s)"
  let ?s = "?R 6 ''x'' (?R 7 ''w'' (?R 5 ''v'' (newLedgerMgr (freshTm (Some [])))))"
  have st: "lm_step cfg (\<lambda>_. 0) s (?R i v s)" if "i \<noteq> 0" for i v s using that by (rule lm_step.intros(1))
  have r: "(lm_step cfg (\<lambda>_. 0))\<^sup>*\<^sup>* (newLedgerMgr (freshTm (Some []))) ?s"
    using st [of 5 "newLedgerMgr (freshTm (Some []))" "''v''"] st [of 7 "?R 5 ''v'' (newLedgerMgr (freshTm (Some [])))" "''w''"]
      st [of 6 "?R 7 ''w'' (?R 5 ''v'' (newLedgerMgr (freshTm (Some []))))" "''x''"]
    by (simp add: r_into_rtranclp rtranclp.rtrancl_into_rtrancl)
  have b: "map ci_Index (lm_buffer ?s) = [5, 6]" by code_simp
  then have "length (lm_buffer ?s) = 2" by (metis length_map length_Cons list.size(3) numeral_2_eq_2)
  then show ?thesis using buffer_consecutive [OF r, of 0] b by (simp add: Let_def)
qed

end
