(* ===== verification/StmtValidatorSpec.thy ===== *)
theory StmtValidatorSpec
  imports StmtValidator SyncSpec
begin

text \<open>
  What the validator of statements does: every statement that reaches the engine is complete, the
  cached statements are passed on in the order of their indices, and a statement with the largest
  index stops the dispatcher.
\<close>


section \<open>Dispatching\<close>

lemma removeOld_once:
  "removeOld n m stmts = (if n \<le> m then stmts else AList.delete (n - m) stmts)"
proof (cases "n \<le> m \<or> map_of stmts (n - m) = None")
  case True
  then show ?thesis by (subst removeOld.simps) (auto simp: AList.delete_id map_of_eq_None_iff)
next
  case False
  have "map_of (AList.delete (n - m) stmts) (n - m) = None" by (simp add: AList.delete_conv')
  then have "removeOld n m (AList.delete (n - m) stmts) = AList.delete (n - m) stmts" by (subst removeOld.simps) simp
  then show ?thesis using False by (subst removeOld.simps) simp
qed

lemma pendingStmts_update [simp]:
  "pendingStmts j (s\<lparr>va_decreeStmts := AList.update i x (va_decreeStmts s)\<rparr>) = (if j = i then x else pendingStmts j s)"
  by (simp add: pendingStmts_def update_conv')

lemma pendingStmts_other [simp]:
  "pendingStmts i (s\<lparr>va_readyChan := r\<rparr>) = pendingStmts i s" "pendingStmts i (s\<lparr>va_dispatchChan := r\<rparr>) = pendingStmts i s"
  "pendingStmts i (s\<lparr>va_maxSeqNum := n\<rparr>) = pendingStmts i s" "pendingStmts i (s\<lparr>va_lm := l\<rparr>) = pendingStmts i s"
  by (simp_all add: pendingStmts_def)

text \<open>One turn: the statements of the index are passed on and none is left.\<close>

definition sent :: "64 word \<Rightarrow> validator \<Rightarrow> validator" where
  "sent i s =
     (if pendingStmts i s = [] then s
      else s\<lparr>va_readyChan := va_readyChan s @ pendingStmts i s, va_decreeStmts := AList.update i [] (va_decreeStmts s)\<rparr>)"

lemma sent_fields [simp]:
  "va_maxSeqNum (sent i s) = va_maxSeqNum s" "va_lm (sent i s) = va_lm s"
  "va_readyChan (sent i s) = va_readyChan s @ pendingStmts i s"
  "pendingStmts j (sent i s) = (if j = i then [] else pendingStmts j s)"
  by (auto simp: sent_def pendingStmts_def update_conv')

lemma dispatchFrom_step:
  "dispatchFrom (Suc fuel) i s = (if i \<le> va_maxSeqNum s then dispatchFrom fuel (i + 1) (sent i s) else (Inr (), s))"
  by (auto simp: sent_def pendingStmts_def split: option.splits list.splits)

declare dispatchFrom.simps(2) [simp del]

lemma prepareTask_Cons: "a \<le> b \<Longrightarrow> b < - 1 \<Longrightarrow> prepareTask (a, b) = a # prepareTask (a + 1, b)"
proof -
  assume a: "a \<le> b" "b < - 1"
  then have "a \<noteq> - 1" by auto
  then have "unat (a + 1) = Suc (unat a)" using unatSuc [of a] max_word_wrap [of a] by (auto simp: add.commute)
  then show ?thesis using a(1) by (simp add: prepareTask_def upt_conv_Cons word_le_nat_alt del: upt_Suc)
qed

lemma prepareTask_Nil: "\<not> a \<le> b \<Longrightarrow> prepareTask (a, b) = []"
  by (simp add: prepareTask_def word_le_nat_alt)

lemma dispatchFrom_run:
  assumes "va_maxSeqNum s < - 1" "length (prepareTask (i, va_maxSeqNum s)) < fuel"
  shows "\<exists>t. dispatchFrom fuel i s = (Inr (), t) \<and> va_lm t = va_lm s \<and>
    va_readyChan t = va_readyChan s @ concat (map (\<lambda>j. pendingStmts j s) (prepareTask (i, va_maxSeqNum s))) \<and>
    (\<forall>j. pendingStmts j t = (if j \<in> set (prepareTask (i, va_maxSeqNum s)) then [] else pendingStmts j s))"
  using assms
proof (induction fuel arbitrary: i s)
  case (Suc fuel)
  show ?case
  proof (cases "i \<le> va_maxSeqNum s")
    case True
    note r = prepareTask_Cons [OF True Suc.prems(1)]
    have d: "i \<notin> set (prepareTask (i + 1, va_maxSeqNum s))"
      using distinct_prepareTask [of i "va_maxSeqNum s"] r by simp
    then have m: "map (\<lambda>j. pendingStmts j (sent i s)) (prepareTask (i + 1, va_maxSeqNum s)) =
        map (\<lambda>j. pendingStmts j s) (prepareTask (i + 1, va_maxSeqNum s))" by auto
    obtain t where t: "dispatchFrom fuel (i + 1) (sent i s) = (Inr (), t)" "va_lm t = va_lm s"
      "va_readyChan t = va_readyChan (sent i s) @ concat (map (\<lambda>j. pendingStmts j (sent i s)) (prepareTask (i + 1, va_maxSeqNum s)))"
      "\<forall>j. pendingStmts j t = (if j \<in> set (prepareTask (i + 1, va_maxSeqNum s)) then [] else pendingStmts j (sent i s))"
      using Suc.IH [of "sent i s" "i + 1"] Suc.prems r by (auto simp del: sent_fields(4))
    then show ?thesis using True r unfolding m by (intro exI [of _ t]) (auto simp: dispatchFrom_step)
  next
    case False
    then show ?thesis by (simp add: dispatchFrom_step prepareTask_Nil)
  qed
qed simp

text \<open>
  C24.  A tick of the dispatcher passes on all the statements cached for the indices from the next ledger
  to the largest one, by increasing index and in the order in which they came, and leaves none of them
  behind; its loop ends as long as the largest index is not the largest number.
\<close>

theorem dispatch_in_order:
  assumes "va_maxSeqNum s < - 1" "length (prepareTask (NextLedgerHeaderSeq (va_lm s), va_maxSeqNum s)) < fuel"
  shows "\<exists>t. dispatchTick c fuel s = (Inr (), t) \<and>
    va_readyChan t = va_readyChan s @
      concat (map (\<lambda>i. pendingStmts i s) (prepareTask (NextLedgerHeaderSeq (va_lm s), va_maxSeqNum s))) \<and>
    (\<forall>i. NextLedgerHeaderSeq (va_lm s) \<le> i \<and> i \<le> va_maxSeqNum s \<longrightarrow> pendingStmts i t = [])"
proof -
  let ?n = "NextLedgerHeaderSeq (va_lm s)"
  obtain t where t: "dispatchFrom fuel ?n s = (Inr (), t)"
    "va_readyChan t = va_readyChan s @ concat (map (\<lambda>j. pendingStmts j s) (prepareTask (?n, va_maxSeqNum s)))"
    "\<forall>j. pendingStmts j t = (if j \<in> set (prepareTask (?n, va_maxSeqNum s)) then [] else pendingStmts j s)"
    using dispatchFrom_run [OF assms] by blast
  have "j \<in> set (prepareTask (?n, va_maxSeqNum s))" if "?n \<le> j" "j \<le> va_maxSeqNum s" for j
  proof -
    have "unat j \<in> {unat ?n..<Suc (unat (va_maxSeqNum s))}" using that by (simp add: word_le_nat_alt)
    then have "(of_nat (unat j) :: 64 word) \<in> set (prepareTask (?n, va_maxSeqNum s))"
      unfolding prepareTask_def set_map set_upt fst_conv snd_conv by (rule imageI)
    then show ?thesis by simp
  qed
  moreover have "pendingStmts j (t\<lparr>va_decreeStmts := removeOld n m (va_decreeStmts t)\<rparr>) = []" if "pendingStmts j t = []" for j n m
    using that by (auto simp: pendingStmts_def removeOld_once AList.delete_conv' split: option.splits)
  ultimately show ?thesis using t by (simp add: dispatchTick_def bind_read Let_def thenA_def bindA_def)
qed

definition sample_vcfg :: vcfg where
  "sample_vcfg = \<lparr>v_crypto = plain, v_maxDecrees = 3, v_hashStmt = (\<lambda>s. Inr (stmt_node s)),
     v_encodeQuorum = (\<lambda>q. if q = solo then Inr ''q'' else Inl (Error ''unknown'')), v_decodeQuorum = (\<lambda>_. Inr solo)\<rparr>"

definition ext_stmt :: "string \<Rightarrow> 64 word \<Rightarrow> statement" where
  "ext_stmt n i = BallotStmt (BStmt n i (Externalize (Ballot 1 ''v'') 1 ''q''))"

theorem dispatch_in_order_witness:
  "\<exists>t. dispatchTick sample_vcfg 10 ((newValidator (newLedgerMgr (freshTm (Some []))))\<lparr>va_maxSeqNum := 3,
        va_decreeStmts := [(3, [ext_stmt ''a'' 3]), (2, [ext_stmt ''b'' 2])]\<rparr>) = (Inr (), t) \<and>
    va_readyChan t = [ext_stmt ''b'' 2, ext_stmt ''a'' 3]"
proof -
  let ?s = "(newValidator (newLedgerMgr (freshTm (Some []))))\<lparr>va_maxSeqNum := 3,
        va_decreeStmts := [(3, [ext_stmt ''a'' 3]), (2, [ext_stmt ''b'' 2])]\<rparr>"
  have n: "NextLedgerHeaderSeq (va_lm ?s) = 1" by (simp add: newValidator_def newLedgerMgr_def NextLedgerHeaderSeq_def)
  have r: "prepareTask (1, 3) = [1, 2, 3]" by code_simp
  have p: "pendingStmts 1 ?s = []" "pendingStmts 2 ?s = [ext_stmt ''b'' 2]" "pendingStmts 3 ?s = [ext_stmt ''a'' 3]"
    by (simp_all add: pendingStmts_def)
  have "va_maxSeqNum ?s = 3" "va_readyChan ?s = []" by (simp_all add: newValidator_def)
  then show ?thesis using dispatch_in_order [of ?s 10 sample_vcfg] unfolding n by (auto simp only: r p) (auto simp: p)
qed

lemma dispatchFrom_hangs: "va_maxSeqNum s = - 1 \<Longrightarrow> fst (dispatchFrom fuel i s) = Inl OutOfFuel"
  by (induction fuel arbitrary: i s) (simp_all add: dispatchFrom_step)

lemma thenA_Inl: "fst (m s) = Inl f \<Longrightarrow> fst (thenA m k s) = Inl f"
  by (cases "m s") (simp add: thenA_def bindA_def)

lemma dispatchStmt_later:
  "va_dispatchChan s = stmt # stmts \<Longrightarrow> stmt_index stmt \<noteq> NextLedgerHeaderSeq (va_lm s) \<Longrightarrow>
   dispatchStmt s = (Inr (), s\<lparr>va_dispatchChan := stmts,
     va_decreeStmts := AList.update (stmt_index stmt) (pendingStmts (stmt_index stmt) s @ [stmt]) (va_decreeStmts s),
     va_maxSeqNum := max (stmt_index stmt) (va_maxSeqNum s)\<rparr>)"
  by (auto simp: dispatchStmt_def Let_def max_def)

text \<open>
  C25.  A statement with the largest index stops the dispatcher.  Once such a statement has been
  dispatched, the loop of every later tick runs for ever, whatever the ledger is.
\<close>

theorem max_index_stops_dispatch:
  assumes "va_dispatchChan s = stmt # stmts" "stmt_index stmt = - 1" "NextLedgerHeaderSeq (va_lm s) \<noteq> - 1"
  shows "\<exists>t. dispatchStmt s = (Inr (), t) \<and>
    (\<forall>lm fuel. fst (dispatchTick c fuel (t\<lparr>va_lm := lm\<rparr>)) = Inl OutOfFuel)"
proof -
  let ?s = "s\<lparr>va_dispatchChan := stmts\<rparr>"
  let ?t = "?s\<lparr>va_decreeStmts := AList.update (- 1) (pendingStmts (- 1) ?s @ [stmt]) (va_decreeStmts ?s), va_maxSeqNum := - 1\<rparr>"
  have "max (- 1) (va_maxSeqNum s) = - 1" by (rule max_absorb1) simp
  then have "dispatchStmt s = (Inr (), ?t)" using dispatchStmt_later [OF assms(1)] assms(2,3) by simp
  moreover have "fst (dispatchTick c fuel (?t\<lparr>va_lm := lm\<rparr>)) = Inl OutOfFuel" for lm fuel
  proof -
    have "fst (dispatchFrom fuel i (?t\<lparr>va_lm := lm\<rparr>)) = Inl OutOfFuel" for i by (rule dispatchFrom_hangs) simp
    then show ?thesis unfolding dispatchTick_def bind_read Let_def by (rule thenA_Inl)
  qed
  ultimately show ?thesis by blast
qed

theorem max_index_stops_dispatch_witness:
  "\<exists>t. dispatchStmt ((newValidator (newLedgerMgr (freshTm (Some []))))\<lparr>va_dispatchChan := [ext_stmt ''a'' (- 1)]\<rparr>) = (Inr (), t) \<and>
    fst (dispatchTick sample_vcfg 1000 t) = Inl OutOfFuel"
proof -
  let ?s = "(newValidator (newLedgerMgr (freshTm (Some []))))\<lparr>va_dispatchChan := [ext_stmt ''a'' (- 1)]\<rparr>"
  have "va_dispatchChan ?s = [ext_stmt ''a'' (- 1)]" "stmt_index (ext_stmt ''a'' (- 1)) = - 1" by (simp_all add: ext_stmt_def)
  moreover have "NextLedgerHeaderSeq (va_lm ?s) = 1" by (simp add: newValidator_def newLedgerMgr_def NextLedgerHeaderSeq_def)
  ultimately obtain t where t: "dispatchStmt ?s = (Inr (), t)" "\<forall>lm fuel. fst (dispatchTick sample_vcfg fuel (t\<lparr>va_lm := lm\<rparr>)) = Inl OutOfFuel"
    using max_index_stops_dispatch [of ?s "ext_stmt ''a'' (- 1)" "[]" sample_vcfg] by auto
  have "t\<lparr>va_lm := va_lm t\<rparr> = t" by simp
  then show ?thesis using t by metis
qed


section \<open>Complete statements\<close>

lemma bucket_ok_VALIDATOR [simp]: "bucket_ok VALIDATOR" "VALIDATOR \<noteq> TXSET" "TXSET \<noteq> VALIDATOR" "VALIDATOR \<notin> {ACCOUNT, TXSTATUS, TX, LEDGER}" "TXSET \<notin> {ACCOUNT, TXSTATUS, TX, LEDGER}"
  by (simp_all add: bucket_ok_def VALIDATOR_def TXSET_def ACCOUNT_def TXSTATUS_def TX_def LEDGER_def)

interpretation quorums: table VALIDATOR "v_encodeQuorum c" "v_decodeQuorum c" "\<lambda>q. quorum_codec c \<and> isOk (v_encodeQuorum c q)" for c
  by unfold_locales (auto simp: quorum_codec_def isOk_def split: sum.splits)

definition quorum_map :: "vcfg \<Rightarrow> validator \<Rightarrow> string \<Rightarrow> quorum option" where
  "quorum_map c s h = quorums.load c h (va_database s)"

abbreviation sets_of :: "validator \<Rightarrow> string \<Rightarrow> txset option" where
  "sets_of s \<equiv> txset_map (va_lm s)"

text \<open>The caches agree with the store, which is open.\<close>

definition va_ok :: "vcfg \<Rightarrow> validator \<Rightarrow> bool" where
  "va_ok c s \<longleftrightarrow> txsets_coherent (va_lm s) \<and> coherent (va_quorumCache s) (quorum_map c s)"

definition complete_stmt :: "vcfg \<Rightarrow> validator \<Rightarrow> statement \<Rightarrow> bool" where
  "complete_stmt c s stmt \<longleftrightarrow>
     quorum_map c s (extractQuorumHash stmt) \<noteq> None \<and>
     (\<exists>hashes. extractTxSetHash c stmt = Inr hashes \<and> (\<forall>h \<in> set hashes. sets_of s h \<noteq> None))"

text \<open>The statements on their way to the engine.\<close>

definition held :: "validator \<Rightarrow> statement set" where
  "held s = set (va_dispatchChan s) \<union> set (va_readyChan s) \<union> (\<Union>i. set (pendingStmts i s))"

text \<open>
  What every step of the node keeps: nothing known is forgotten, new quorums satisfy \<open>Q\<close> and new
  transaction sets \<open>T\<close>, and what is new on its way is complete.
\<close>

definition adds :: "(string \<Rightarrow> 'a \<Rightarrow> bool) \<Rightarrow> (string \<Rightarrow> 'a option) \<Rightarrow> (string \<Rightarrow> 'a option) \<Rightarrow> bool" where
  "adds P m m' \<longleftrightarrow> dom m \<subseteq> dom m' \<and> (\<forall>h x. m' h = Some x \<longrightarrow> m h = Some x \<or> P h x)"

lemma adds_refl [simp]: "adds P m m"
  by (simp add: adds_def)

lemma adds_trans: "adds P m m' \<Longrightarrow> adds P m' m'' \<Longrightarrow> adds P m m''"
  unfolding adds_def by (meson order_trans)

lemma adds_upd: "P h x \<Longrightarrow> adds P m (m(h \<mapsto> x))"
  by (auto simp: adds_def)

definition careful ::
  "(string \<Rightarrow> quorum \<Rightarrow> bool) \<Rightarrow> (string \<Rightarrow> txset \<Rightarrow> bool) \<Rightarrow> vcfg \<Rightarrow> validator \<Rightarrow> validator \<Rightarrow> bool" where
  "careful Q T c s t \<longleftrightarrow> (va_ok c s \<longrightarrow>
     va_ok c t \<and> adds Q (quorum_map c s) (quorum_map c t) \<and> adds T (sets_of s) (sets_of t) \<and>
     (\<forall>stmt \<in> held t. stmt \<in> held s \<or> complete_stmt c t stmt))"

lemma complete_mono:
  "complete_stmt c s stmt \<Longrightarrow> adds Q (quorum_map c s) (quorum_map c t) \<Longrightarrow> adds T (sets_of s) (sets_of t) \<Longrightarrow> complete_stmt c t stmt"
  unfolding complete_stmt_def adds_def by (metis domIff subsetD)

interpretation care: frame "careful Q T c" for Q T c
proof
  fix s t u
  show "careful Q T c s s" by (simp add: careful_def)
  assume st: "careful Q T c s t" and tu: "careful Q T c t u"
  show "careful Q T c s u" unfolding careful_def
  proof (intro impI conjI)
    assume s: "va_ok c s"
    then have t: "va_ok c t" "adds Q (quorum_map c s) (quorum_map c t)" "adds T (sets_of s) (sets_of t)"
      "\<forall>stmt \<in> held t. stmt \<in> held s \<or> complete_stmt c t stmt" using st by (simp_all add: careful_def)
    then have u: "va_ok c u" "adds Q (quorum_map c t) (quorum_map c u)" "adds T (sets_of t) (sets_of u)"
      "\<forall>stmt \<in> held u. stmt \<in> held t \<or> complete_stmt c u stmt" using tu by (simp_all add: careful_def)
    show "va_ok c u" "adds Q (quorum_map c s) (quorum_map c u)" "adds T (sets_of s) (sets_of u)"
      using u(1-3) t(2,3) by (auto intro: adds_trans)
    show "\<forall>stmt \<in> held u. stmt \<in> held s \<or> complete_stmt c u stmt"
      using t(4) u complete_mono [OF _ u(2,3)] by blast
  qed
qed

lemmas care_intros = care.frame_bind care.frame_then

text \<open>Steps that only look things up or write to a channel that is not on the way to the engine.\<close>

lemma careful_same:
  assumes "va_lm t = va_lm s" "va_quorumCache t = va_quorumCache s" "\<And>stmt. va_ok c s \<Longrightarrow> stmt \<in> held t \<Longrightarrow> stmt \<in> held s \<or> complete_stmt c s stmt"
  shows "careful Q T c s t"
proof -
  have m: "quorum_map c t = quorum_map c s" using assms(1) by (simp add: fun_eq_iff quorum_map_def)
  then have "complete_stmt c t stmt = complete_stmt c s stmt" for stmt using assms(1) by (simp add: complete_stmt_def)
  then show ?thesis using assms m by (auto simp: careful_def va_ok_def)
qed

lemma careful_fields [simp]:
  "careful Q T c s (s\<lparr>va_statements := x\<rparr>)" "careful Q T c s (s\<lparr>va_quorumDownloadChan := q\<rparr>)" "careful Q T c s (s\<lparr>va_txsetDownloadChan := q\<rparr>)"
  "careful Q T c s (s\<lparr>va_downloadChan := y\<rparr>)" "careful Q T c s (s\<lparr>va_downloadChan := y, va_downloads := z\<rparr>)"
  by (rule careful_same; simp add: held_def pendingStmts_def)+

lemma careful_plain [simp]:
  "careful Q T c s (snd (retA x s))" "careful Q T c s (snd (liftA r s))" "careful Q T c s (snd (readA g s))" "careful Q T c s (snd (failA f s))"
  by simp_all

text \<open>Looking up a quorum and a transaction set.\<close>

lemma GetQuorum_run:
  assumes "va_ok c s"
  shows "(\<forall>q. fst (Validator_GetQuorum c h s) = Inr (Some q) \<longrightarrow> quorum_map c s h = Some q) \<and>
    va_ok c (snd (Validator_GetQuorum c h s)) \<and> quorum_map c (snd (Validator_GetQuorum c h s)) = quorum_map c s \<and>
    va_lm (snd (Validator_GetQuorum c h s)) = va_lm s \<and> held (snd (Validator_GetQuorum c h s)) = held s"
proof -
  have m: "quorum_map c (s\<lparr>va_quorumCache := x\<rparr>) = quorum_map c s" for x by (simp add: fun_eq_iff quorum_map_def)
  have h: "held (s\<lparr>va_quorumCache := x\<rparr>) = held s" for x by (simp add: held_def pendingStmts_def)
  have co: "coherent (va_quorumCache s) (quorum_map c s)" using assms by (simp add: va_ok_def)
  show ?thesis
  proof (cases "map_of (va_quorumCache s) h")
    case (Some q)
    then have "quorum_map c s h = Some q" using co by (rule coherentD [rotated])
    moreover have "Validator_GetQuorum c h s = (Inr (Some q), s\<lparr>va_quorumCache := snd (lru_Get h (va_quorumCache s))\<rparr>)"
      using Some by (simp add: Validator_GetQuorum_def lru_Get_def)
    ultimately show ?thesis using assms by (simp add: m h va_ok_def coherent_Get)
  next
    case None
    then have g: "lru_Get h (va_quorumCache s) = (None, va_quorumCache s)" by (simp add: lru_Get_def)
    show ?thesis
    proof (cases "quorum_map c s h")
      case None
      then have "Validator_GetQuorum c h s = (fst (Validator_GetQuorum c h s), s) \<and> (\<forall>q. fst (Validator_GetQuorum c h s) \<noteq> Inr (Some q))"
        using g by (auto simp: Validator_GetQuorum_def quorum_map_def quorums.load_def split: sum.splits option.splits)
      then show ?thesis using assms by (metis snd_conv)
    next
      case (Some q)
      then obtain b where "Get VALIDATOR h (va_database s) = Inr (Some b)" "v_decodeQuorum c b = Inr q"
        by (auto simp: quorum_map_def quorums.load_def split: sum.splits option.splits)
      then have "Validator_GetQuorum c h s = (Inr (Some q), s\<lparr>va_quorumCache := lru_Add 1000 h q (va_quorumCache s)\<rparr>)"
        using g by (simp add: Validator_GetQuorum_def)
      then show ?thesis using Some assms coherent_fill [OF _ co Some, of 1000] by (simp add: m h va_ok_def)
    qed
  qed
qed

lemma held_lm [simp]: "held (s\<lparr>va_lm := l\<rparr>) = held s"
  by (simp add: held_def)

text \<open>Work of the ledger manager that leaves the quorums alone and forgets no transaction set.\<close>

definition lm_careful :: "(string \<Rightarrow> txset \<Rightarrow> bool) \<Rightarrow> ledgermgr \<Rightarrow> ledgermgr \<Rightarrow> bool" where
  "lm_careful T s t \<longleftrightarrow> (txsets_coherent s \<longrightarrow>
     txsets_coherent t \<and> adds T (txset_map s) (txset_map t) \<and>
     (\<forall>h. Get VALIDATOR h (lm_database t) = Get VALIDATOR h (lm_database s)))"

lemma careful_lm: "lm_careful T (va_lm s) l \<Longrightarrow> careful Q T c s (s\<lparr>va_lm := l\<rparr>)"
proof -
  assume l: "lm_careful T (va_lm s) l"
  have "quorum_map c (s\<lparr>va_lm := l\<rparr>) = quorum_map c s" if "va_ok c s"
    using l that by (simp add: fun_eq_iff quorum_map_def quorums.load_def lm_careful_def va_ok_def)
  then show ?thesis using l by (auto simp: careful_def va_ok_def lm_careful_def)
qed

lemma careful_onLm: "lm_careful T (va_lm s) (snd (m (va_lm s))) \<Longrightarrow> careful Q T c s (snd (onLm m s))"
  using careful_lm [of T s "snd (m (va_lm s))" Q c] by (cases "m (va_lm s)") (simp add: onLm_def)

lemma lm_careful_GetTxSet [simp]: "lm_careful T s (snd (GetTxSet h s))"
proof -
  have "Get VALIDATOR k (lm_database (snd (GetTxSet h s))) = Get VALIDATOR k (lm_database s)" for k
    by (auto simp: GetTxSet_def split: prod.splits sum.splits option.splits)
  then show ?thesis using GetTxSet_run [of s h] by (auto simp: lm_careful_def)
qed

lemma careful_GetQuorum [simp]: "careful Q T c s (snd (Validator_GetQuorum c h s))"
  using GetQuorum_run [of c s h] by (auto simp: careful_def)

lemma careful_GetTxSet [simp]: "careful Q T c s (snd (onLm (GetTxSet h) s))"
  by (rule careful_onLm) simp


lemma careful_haveTxSets [simp]: "careful Q T c s (snd (haveTxSets hashes s))"
  by (induction hashes arbitrary: s) (auto intro!: care.frame_bind)

lemma careful_validate [simp]: "careful Q T c s (snd (validate c stmt s))"
  unfolding validate_def by (auto intro!: care.frame_bind)

lemma haveTxSets_found:
  "va_ok c s \<Longrightarrow> haveTxSets hashes s = (Inr True, t) \<Longrightarrow> h \<in> set hashes \<Longrightarrow> sets_of t h \<noteq> None"
proof (induction hashes arbitrary: s)
  case (Cons k hashes)
  from Cons.prems(2) obtain x u where u: "onLm (GetTxSet k) s = (Inr (Some x), u)" "haveTxSets hashes u = (Inr True, t)"
    by (auto elim!: bindA_runE split: if_splits)
  then have lm: "GetTxSet k (va_lm s) = (Inr (Some x), va_lm u)"
    by (cases "GetTxSet k (va_lm s)") (auto simp: onLm_def)
  have ok: "va_ok c u" using careful_GetTxSet [of "\<lambda>_ _. True" "\<lambda>_ _. True" c s k] u(1) Cons.prems(1) by (simp add: careful_def)
  have "dom (sets_of u) \<subseteq> dom (sets_of t)" using careful_haveTxSets [of "\<lambda>_ _. True" "\<lambda>_ _. True" c u hashes] u(2) ok by (simp add: careful_def adds_def)
  moreover have "sets_of u k \<noteq> None"
    using GetTxSet_run [of "va_lm s" k] lm Cons.prems(1) by (simp add: va_ok_def) (metis option.distinct(1))
  ultimately show ?case using Cons.IH [OF ok u(2)] Cons.prems(3) by auto
qed simp

lemma validate_complete:
  assumes "va_ok c s" "validate c stmt s = (Inr True, t)"
  shows "complete_stmt c t stmt"
proof -
  from assms(2) obtain q u hashes where u: "Validator_GetQuorum c (extractQuorumHash stmt) s = (Inr (Some q), u)"
    "extractTxSetHash c stmt = Inr hashes" "haveTxSets hashes u = (Inr True, t)"
    unfolding validate_def by (auto elim!: bindA_runE split: if_splits)
  have ok: "va_ok c u" "quorum_map c u (extractQuorumHash stmt) = Some q"
    using GetQuorum_run [OF assms(1), of "extractQuorumHash stmt"] u(1) by auto
  have "dom (quorum_map c u) \<subseteq> dom (quorum_map c t)" using careful_haveTxSets [of "\<lambda>_ _. True" "\<lambda>_ _. True" c u hashes] u(3) ok(1) by (simp add: careful_def adds_def)
  then have "quorum_map c t (extractQuorumHash stmt) \<noteq> None" using ok(2) by auto
  then show ?thesis using u(2) haveTxSets_found [OF ok(1) u(3)] by (auto simp: complete_stmt_def)
qed

lemma held_dispatch: "held (s\<lparr>va_dispatchChan := va_dispatchChan s @ [stmt]\<rparr>) = insert stmt (held s)"
  by (auto simp: held_def)

text \<open>After a test, the statement goes on when the test succeeded.\<close>

lemma careful_after_validate:
  assumes "validate c stmt s = (Inr True, t)" "va_lm u = va_lm t" "va_quorumCache u = va_quorumCache t" "held u \<subseteq> insert stmt (held t)"
  shows "careful Q T c s u"
proof (cases "va_ok c s")
  case True
  have st: "careful Q T c s t" using careful_validate [of Q T c s stmt] assms(1) by simp
  have "careful Q T c t u" using assms(4) validate_complete [OF True assms(1)] by (intro careful_same [OF assms(2,3)]) auto
  then show ?thesis by (rule care.frame_trans [OF st])
qed (simp add: careful_def)

lemma careful_Recv: "careful Q T c s (snd (Validator_Recv c stmt s))"
proof -
  have tail: "careful Q T c s (snd (bindA (errorfA p (validate c x)) (\<lambda>valid. modifyA (\<lambda>s.
      if valid then s\<lparr>va_dispatchChan := va_dispatchChan s @ [x]\<rparr>
      else s\<lparr>va_downloadChan := va_downloadChan s @ [x], va_downloads := AList.update h x (va_downloads s)\<rparr>)) s))" for s p x h
  proof (cases "validate c x s")
    case (Pair r t)
    have st: "careful Q T c s t" using careful_validate [of Q T c s x] Pair by simp
    show ?thesis
    proof (cases "r = Inr True")
      case True
      then show ?thesis using Pair careful_after_validate [of c x s t "t\<lparr>va_dispatchChan := va_dispatchChan t @ [x]\<rparr>"]
        by (simp add: bindA_def errorfA_def held_dispatch)
    next
      case False
      then show ?thesis using Pair st care.frame_trans [OF st careful_fields(5)]
        by (auto simp: bindA_def errorfA_def errorf_def split: sum.splits)
    qed
  qed
  show ?thesis
  proof (cases stmt)
    case (Some x)
    have k: "careful Q T c s (snd (thenA (modifyA (\<lambda>s. s\<lparr>va_statements := insert h (va_statements s)\<rparr>))
      (bindA (errorfA p (validate c x)) (\<lambda>valid. modifyA (\<lambda>s.
        if valid then s\<lparr>va_dispatchChan := va_dispatchChan s @ [x]\<rparr>
        else s\<lparr>va_downloadChan := va_downloadChan s @ [x], va_downloads := AList.update h x (va_downloads s)\<rparr>))) s))" for s p h
    proof (rule care.frame_then)
      show "careful Q T c s (snd (modifyA (\<lambda>s. s\<lparr>va_statements := insert h (va_statements s)\<rparr>) s))" by simp
    qed (rule tail)
    show ?thesis unfolding Validator_Recv_def Some option.case
      by (intro care.frame_bind) (simp_all add: bind_read k)
  qed (simp add: Validator_Recv_def)
qed

lemma careful_tryAgain: "careful Q T c s (snd (tryAgain c h s))"
proof (cases "map_of (va_downloads s) h")
  case (Some stmt)
  obtain r t where v: "validate c stmt s = (r, t)" by force
  have st: "careful Q T c s t" using careful_validate [of Q T c s stmt] v by simp
  show ?thesis
  proof (cases "r = Inr True")
    case True
    let ?u = "t\<lparr>va_dispatchChan := va_dispatchChan t @ [stmt], va_downloads := AList.delete h (va_downloads t)\<rparr>"
    have "held ?u = insert stmt (held t)" by (auto simp: held_def pendingStmts_def)
    then show ?thesis using Some v True careful_after_validate [of c stmt s t ?u Q T] by (simp add: tryAgain_def)
  next
    case False
    then have "snd (tryAgain c h s) = t" using Some v by (auto simp: tryAgain_def split: sum.splits failure.splits bool.splits)
    then show ?thesis using st by simp
  qed
qed (simp add: tryAgain_def)

lemma careful_monitor: "careful Q T c s (snd (monitor c order s))"
proof -
  have "careful Q T c s (snd (monitorAll c hs s))" for hs
    by (induction hs arbitrary: s) (auto intro!: care.frame_then simp: careful_tryAgain)
  then show ?thesis by (simp add: monitor_def bind_read)
qed

lemma careful_sent: "careful Q T c s (sent i s)"
proof (rule careful_same)
  show "va_quorumCache (sent i s) = va_quorumCache s" "va_lm (sent i s) = va_lm s" by (simp_all add: sent_def)
  have "va_dispatchChan (sent i s) = va_dispatchChan s" by (simp add: sent_def)
  then show "stmt \<in> held (sent i s) \<Longrightarrow> stmt \<in> held s \<or> complete_stmt c s stmt" for stmt
    by (auto simp: held_def split: if_splits)
qed

lemma careful_dispatchTick: "careful Q T c s (snd (dispatchTick c fuel s))"
proof -
  have f: "careful Q T c s (snd (dispatchFrom fuel i s))" for i s
  proof (induction fuel arbitrary: i s)
    case (Suc fuel)
    show ?case using care.frame_trans [OF careful_sent Suc.IH] by (auto simp: dispatchFrom_step)
  qed simp
  have r: "careful Q T c s (s\<lparr>va_decreeStmts := removeOld n m (va_decreeStmts s)\<rparr>)" for s n m
    by (rule careful_same) (auto simp: held_def pendingStmts_def removeOld_once AList.delete_conv' split: option.splits if_splits)
  show ?thesis unfolding dispatchTick_def bind_read Let_def by (intro care.frame_then) (simp_all add: f r)
qed

lemma careful_dispatchStmt: "careful Q T c s (snd (dispatchStmt s))"
proof (cases "va_dispatchChan s")
  case (Cons stmt stmts)
  show ?thesis
  proof (cases "stmt_index stmt = NextLedgerHeaderSeq (va_lm s)")
    case True
    then have "snd (dispatchStmt s) = s\<lparr>va_dispatchChan := stmts, va_readyChan := va_readyChan s @ [stmt]\<rparr>"
      using Cons by (simp add: dispatchStmt_def Let_def)
    then show ?thesis using Cons by (auto intro!: careful_same simp: held_def pendingStmts_def)
  next
    case False
    then show ?thesis using dispatchStmt_later [OF Cons False] Cons
      by (auto intro!: careful_same simp: held_def pendingStmts_def update_conv' split: if_splits)
  qed
qed (simp add: dispatchStmt_def)

lemma careful_download: "careful Q T c s (snd (download_step c s))"
proof -
  have o: "snd (orNil m s) = snd (m s)" for m :: "(validator, 'a option) act" and s
    by (auto simp: orNil_def split: prod.splits sum.splits failure.splits)
  have t: "careful Q T c s (snd (askTxSets hs s))" for hs s
    by (induction hs arbitrary: s) (auto intro!: care_intros simp: o)
  have "careful Q T c s (snd (askMissing c stmt s))" for stmt s
    unfolding askMissing_def by (auto intro!: care_intros simp: o t)
  then have "careful Q T c s (snd (askMissing c stmt (s\<lparr>va_downloadChan := y\<rparr>)))" for stmt y
    by (rule care.frame_trans [OF careful_fields(4)])
  then show ?thesis by (simp add: download_step_def split: list.splits)
qed


lemma careful_RecvQuorum:
  assumes "quorum_codec c" "Q h q"
  shows "careful Q T c s (snd (RecvQuorum c h q s))"
proof (cases "va_ok c s \<and> isOk (ValidateQuorum q 0 False) \<and> isOk (v_encodeQuorum c q)")
  case True
  then obtain b where b: "v_encodeQuorum c q = Inr b" by (auto simp: isOk_def split: sum.splits)
  have op: "opened (va_database s)" and co: "coherent (va_quorumCache s) (quorum_map c s)"
    using True by (auto simp: va_ok_def txsets_coherent_def)
  obtain d where d: "Put VALIDATOR h b (va_database s) = (Inr (), d)" "opened d" using mem.put_ok [OF op] by (metis snd_conv)
  let ?lm = "(va_lm s)\<lparr>lm_tm := (lm_tm (va_lm s))\<lparr>tm_database := d\<rparr>\<rparr>"
  let ?t = "s\<lparr>va_lm := ?lm, va_quorumCache := lru_Add 1000 h q (va_quorumCache s)\<rparr>"
  have t: "RecvQuorum c h q s = (Inr (), ?t)"
    using True b d(1) by (auto simp: RecvQuorum_def thenA_def bindA_def errorfA_def onLm_def onTm_def onStore_def isOk_def split: sum.splits)
  have qm: "quorum_map c ?t = (quorum_map c s)(h \<mapsto> q)"
    using quorums.load_put_same [OF op, of c q b h] quorums.load_put_other [OF op, of VALIDATOR h _ c b] d(1) assms(1) b
    by (auto simp: quorum_map_def fun_eq_iff)
  have sm: "sets_of ?t = sets_of s"
    using txsets.load_put_other [OF op, of VALIDATOR h _ b] d(1) by (auto simp: txset_map_def fun_eq_iff)
  have "va_ok c ?t" using True d(2) sm qm coherent_write [OF _ co, of 1000 "quorum_map c ?t" h q]
    by (auto simp: va_ok_def txsets_coherent_def)
  moreover have "held ?t = held s" by (simp add: held_def pendingStmts_def)
  ultimately show ?thesis using t qm sm adds_upd [of Q h q] assms(2) by (auto simp: careful_def)
next
  case False
  then have "\<not> va_ok c s \<or> snd (RecvQuorum c h q s) = s"
    by (cases "ValidateQuorum q 0 False"; cases "v_encodeQuorum c q") (auto simp: RecvQuorum_def thenA_def bindA_def)
  then show ?thesis by (auto simp: careful_def)
qed

lemma lm_careful_AddTxSet: "storable_txset t \<Longrightarrow> T h t \<Longrightarrow> lm_careful T s (snd (AddTxSet h t s))"
proof -
  assume t: "storable_txset t" and T: "T h t"
  have "Get VALIDATOR k (lm_database (snd (AddTxSet h t s))) = Get VALIDATOR k (lm_database s)" if "opened (lm_database s)" for k
  proof -
    obtain b where b: "EncodeTxSet t = Inr b" using txsets.stores [OF t] by blast
    have "Get VALIDATOR k (lm_database (snd (onLedgerStore (Put TXSET h b) s))) = Get VALIDATOR k (lm_database s)"
      using mem.get_put [OF that, of TXSET VALIDATOR k h b] by (simp add: snd_onLedgerStore)
    moreover have "lm_database (snd (AddTxSet h t s)) = lm_database (snd (onLedgerStore (Put TXSET h b) s))"
      using b by (cases "onLedgerStore (Put TXSET h b) s") (auto simp: AddTxSet_def thenA_def bindA_def errorfA_def split: sum.splits)
    ultimately show ?thesis by simp
  qed
  then show ?thesis using AddTxSet_run [OF _ t, of s h] adds_upd [of T h t] T by (auto simp: lm_careful_def txsets_coherent_def)
qed

text \<open>Closing ledgers touches neither the transaction sets nor the quorums.\<close>

definition lm_quiet :: "ledgermgr \<Rightarrow> ledgermgr \<Rightarrow> bool" where
  "lm_quiet s t \<longleftrightarrow> untouched {ACCOUNT, TXSTATUS, TX, LEDGER} (lm_database s) (lm_database t) \<and> lm_txsetCache t = lm_txsetCache s"

interpretation lmq: frame lm_quiet
  by unfold_locales (auto simp: lm_quiet_def intro: store.frame_trans)

lemmas lmq_intros = lmq.frame_bind lmq.frame_then

lemma lm_quiet_careful: "lm_quiet s t \<Longrightarrow> lm_careful T s t"
proof -
  assume q: "lm_quiet s t"
  then have "Get b h (lm_database t) = Get b h (lm_database s)" if "b = TXSET \<or> b = VALIDATOR" for b h
    using that by (auto simp: lm_quiet_def untouched_def simp del: insert_iff)
  then have "txset_map t = txset_map s" "\<forall>h. Get VALIDATOR h (lm_database t) = Get VALIDATOR h (lm_database s)"
    by (simp_all add: fun_eq_iff txset_map_def txsets.load_def)
  then show ?thesis using q by (simp add: lm_careful_def txsets_coherent_def lm_quiet_def untouched_def)
qed

lemma lm_quiet_plain [simp]:
  "lm_quiet s (snd (retA x s))" "lm_quiet s (snd (liftA r s))" "lm_quiet s (snd (readA g s))" "lm_quiet s (snd (failA f s))"
  "lm_quiet s (snd (onDownloader m s))"
  by (auto simp: onDownloader_def lm_quiet_def split: prod.splits)

lemma lm_quiet_onTm: "tm_untouched (lm_tm s) (snd (m (lm_tm s))) \<Longrightarrow> lm_quiet s (snd (onTm m s))"
  unfolding tm_untouched_def lm_quiet_def
  by (cases "m (lm_tm s)") (auto simp: onTm_def intro: untouched_mono)

lemma lm_quiet_Put [simp]: "lm_quiet s (snd (onLedgerStore (Put LEDGER k b) s))"
  by (simp add: snd_onLedgerStore lm_quiet_def untouched_Put)

lemma lm_quiet_advanceLedger: "lm_quiet s (snd (advanceLedger c now seq ph th cv s))"
proof -
  have m: "lm_quiet s (s\<lparr>lm_headers := a, lm_prevLedgerHeader := x, lm_prevLedgerHeaderHash := y, lm_currLedgerHeader := z,
    lm_currLedgerHeaderHash := w, lm_ledgerHeaderCount := u, lm_lastCloseTime := v\<rparr>)" for s a x y z w u v by (simp add: lm_quiet_def)
  have "lm_quiet s (snd (saveCheckpoint s))" for s unfolding saveCheckpoint_def Let_def by (intro lmq_intros) simp_all
  then show ?thesis unfolding advanceLedger_def Let_def by (intro lmq_intros) (simp_all add: m)
qed

lemma lm_quiet_closeLedger:
  assumes "undo_ok c"
  shows "lm_quiet s (snd (closeLedger c now index val txset s))"
proof -
  have "lm_quiet s (snd (onTm (ApplyTxList c txs n) s))" for txs n s
    by (rule lm_quiet_onTm) (rule ApplyTxList_untouched [OF assms])
  then show ?thesis unfolding closeLedger_def by (auto intro!: lmq_intros simp: lm_quiet_advanceLedger)
qed

lemma lm_quiet_fields [simp]:
  "lm_quiet s (s\<lparr>lm_buffer := b\<rparr>)" "lm_quiet s (s\<lparr>lm_buffer := b, lm_ledgerState := a\<rparr>)"
  "lm_quiet s (s\<lparr>lm_largestConsensusIndex := n, lm_ledgerState := a\<rparr>)" "lm_quiet s (s\<lparr>lm_downloader := d\<rparr>)"
  by (simp_all add: lm_quiet_def)

lemma lm_quiet_RecvExtVal:
  assumes "undo_ok c"
  shows "lm_quiet s (snd (RecvExtVal c now index val txset s))"
  unfolding RecvExtVal_def bind_read Let_def
  by (auto intro!: lmq_intros simp: lm_quiet_closeLedger [OF assms] split: LedgerState.splits)

lemma lm_quiet_recvDownloaded:
  assumes "undo_ok c"
  shows "lm_quiet s (snd (recvDownloaded c now info s))"
proof -
  note [simp] = lm_quiet_closeLedger [OF assms]
  have b: "lm_quiet s (snd (closeBuffered c now infos s))" for infos s
  proof (induction infos arbitrary: s)
    case (Cons ci infos)
    obtain r t where cl: "closeLedger c now (ci_Index ci) (ci_Value ci) (ci_TxSet ci) (s\<lparr>lm_buffer := infos\<rparr>) = (r, t)" by force
    then have "lm_quiet (s\<lparr>lm_buffer := infos\<rparr>) t"
      using lm_quiet_closeLedger [OF assms, of "s\<lparr>lm_buffer := infos\<rparr>" now "ci_Index ci" "ci_Value ci" "ci_TxSet ci"] by simp
    then have st: "lm_quiet s t" by (rule lmq.frame_trans [OF lm_quiet_fields(1)])
    then show ?case using cl lmq.frame_trans [OF st Cons.IH]
      by (auto simp: thenA_def bindA_def split: sum.splits failure.splits)
  qed simp
  show ?thesis unfolding recvDownloaded_def
    by (intro lmq.frame_then) (auto intro!: lmq.frame_then simp: bind_read b split: option.splits)
qed


lemma GetQuorum_known:
  assumes "va_ok c s" "quorum_map c s h = Some q"
  shows "fst (Validator_GetQuorum c h s) = Inr (Some q)"
proof (cases "map_of (va_quorumCache s) h")
  case (Some q')
  then have "quorum_map c s h = Some q'" using assms(1) unfolding va_ok_def by (blast intro: coherentD)
  then show ?thesis using Some assms(2) by (simp add: Validator_GetQuorum_def lru_Get_def)
next
  case None
  then show ?thesis using assms(2)
    by (auto simp: Validator_GetQuorum_def lru_Get_def quorum_map_def quorums.load_def split: sum.splits option.splits)
qed

lemma GetTxSet_known:
  assumes "txsets_coherent s" "txset_map s h = Some t"
  shows "fst (GetTxSet h s) = Inr (Some t)"
  using GetTxSet_run [OF assms(1), of h] assms(2) by (cases "fst (GetTxSet h s)") auto

text \<open>
  The validator in its node: statements arrive, the three loops run, downloads come in, the engine takes
  what is ready, and the ledger manager closes ledgers.
\<close>

inductive va_step :: "vcfg \<Rightarrow> txcfg \<Rightarrow> (64 word \<Rightarrow> int) \<Rightarrow> validator \<Rightarrow> validator \<Rightarrow> bool" for c cx now where
  "va_step c cx now s (snd (Validator_Recv c stmt s))"
| "va_step c cx now s (snd (monitor c order s))"
| "va_step c cx now s (snd (dispatchTick c fuel s))"
| "va_step c cx now s (snd (dispatchStmt s))"
| "va_step c cx now s (snd (download_step c s))"
| "va_step c cx now s (snd (RecvQuorum c h q s))"
| "storable_txset t \<Longrightarrow> va_step c cx now s (snd (Validator_RecvTxSet h t s))"
| "va_step c cx now s (snd (Validator_GetQuorum c h s))"
| "va_step c cx now s (snd (Validator_GetTxSet h s))"
| "va_step c cx now s (s\<lparr>va_readyChan := tl (va_readyChan s)\<rparr>)"
| "va_step c cx now s (s\<lparr>va_quorumDownloadChan := q, va_txsetDownloadChan := ts\<rparr>)"
| "va_step c cx now s (snd (onLm (RecvExtVal cx now index val txset) s))"
| "va_step c cx now s (snd (onLm (LedgerMgr_Start_step cx now) s))"
| "tm_untouched (lm_tm (va_lm s)) tm \<Longrightarrow> va_step c cx now s (s\<lparr>va_lm := (va_lm s)\<lparr>lm_tm := tm\<rparr>\<rparr>)"

lemma careful_step:
  "va_step c cx now s t \<Longrightarrow> quorum_codec c \<Longrightarrow> undo_ok cx \<Longrightarrow> careful (\<lambda>_ _. True) (\<lambda>_ _. True) c s t"
proof (induction rule: va_step.induct)
  case (7 t s h)
  then show ?case unfolding Validator_RecvTxSet_def by (intro careful_onLm lm_careful_AddTxSet) simp_all
next
  case (10 s)
  show ?case by (rule careful_same; cases "va_readyChan s") (auto simp: held_def pendingStmts_def)
next
  case (11 s q ts)
  show ?case by (rule careful_same) (auto simp: held_def pendingStmts_def)
next
  case (12 s index val txset)
  show ?case by (intro careful_onLm lm_quiet_careful lm_quiet_RecvExtVal 12)
next
  case (13 s)
  have "lm_quiet l (snd (LedgerMgr_Start_step cx now l))" for l
    using lmq.frame_trans [OF lm_quiet_fields(4) lm_quiet_recvDownloaded [OF 13(2)]]
    by (simp add: LedgerMgr_Start_step_def split: list.splits)
  then show ?case by (intro careful_onLm lm_quiet_careful)
next
  case (14 s tm)
  then have "lm_quiet (va_lm s) ((va_lm s)\<lparr>lm_tm := tm\<rparr>)" unfolding tm_untouched_def lm_quiet_def by (auto intro: untouched_mono)
  then show ?case by (intro careful_lm lm_quiet_careful)
qed (simp_all add: careful_Recv careful_monitor careful_dispatchTick careful_dispatchStmt careful_download careful_RecvQuorum Validator_GetTxSet_def)

text \<open>
  C23.  Only complete statements reach the engine: whatever statements, quorums, transaction sets and
  ledgers arrive in whatever order, the quorum and all the transaction sets that a ready statement
  names can be looked up.
\<close>

theorem ready_complete:
  assumes "quorum_codec c" "undo_ok cx" "txsets_coherent lm"
    and "(va_step c cx now)\<^sup>*\<^sup>* (newValidator lm) s" "stmt \<in> set (va_readyChan s)"
  shows "\<exists>q hashes. fst (Validator_GetQuorum c (extractQuorumHash stmt) s) = Inr (Some q) \<and>
    extractTxSetHash c stmt = Inr hashes \<and> (\<forall>h \<in> set hashes. \<exists>t. fst (Validator_GetTxSet h s) = Inr (Some t))"
proof -
  have "careful (\<lambda>_ _. True) (\<lambda>_ _. True) c (newValidator lm) s" using assms(4)
    by (induction rule: rtranclp_induct) (auto intro: care.frame_trans careful_step [OF _ assms(1,2)])
  moreover have "va_ok c (newValidator lm)" "held (newValidator lm) = {}"
    using assms(3) by (simp_all add: newValidator_def va_ok_def held_def pendingStmts_def)
  moreover have "stmt \<in> held s" using assms(5) by (simp add: held_def)
  ultimately have ok: "va_ok c s" and "complete_stmt c s stmt" by (auto simp: careful_def)
  then obtain q hashes where q: "quorum_map c s (extractQuorumHash stmt) = Some q" "extractTxSetHash c stmt = Inr hashes"
    "\<forall>h \<in> set hashes. sets_of s h \<noteq> None" by (auto simp: complete_stmt_def)
  have "fst (Validator_GetTxSet h s) = Inr (Some t)" if "sets_of s h = Some t" for h t
    using GetTxSet_known [OF _ that] ok by (auto simp: Validator_GetTxSet_def onLm_def va_ok_def split: prod.splits)
  then show ?thesis using q GetQuorum_known [OF ok q(1)] by blast
qed


definition sample_value :: string where
  "sample_value = [CHR 0x0A, CHR 0x01, CHR ''h'']"

definition ready_stmt :: statement where
  "ready_stmt = BallotStmt (BStmt ''n'' 1 (Externalize (Ballot 1 sample_value) 1 ''q''))"

text \<open>The quorum and the transaction set arrive, then the statement, and the dispatcher passes it on.\<close>

theorem ready_complete_witness:
  "let s1 = snd (RecvQuorum sample_vcfg ''q'' solo (newValidator (newLedgerMgr (freshTm (Some [])))));
       s2 = snd (Validator_RecvTxSet ''h'' (TxSet ''p'' []) s1);
       s3 = snd (Validator_Recv sample_vcfg (Some ready_stmt) s2);
       s4 = snd (dispatchStmt s3)
   in va_readyChan s4 = [ready_stmt] \<and> (\<exists>q. fst (Validator_GetQuorum sample_vcfg ''q'' s4) = Inr (Some q)) \<and>
      (\<exists>t. fst (Validator_GetTxSet ''h'' s4) = Inr (Some t))"
proof -
  let ?lm = "newLedgerMgr (freshTm (Some []))"
  let ?s1 = "snd (RecvQuorum sample_vcfg ''q'' solo (newValidator ?lm))"
  let ?s2 = "snd (Validator_RecvTxSet ''h'' (TxSet ''p'' []) ?s1)"
  let ?s3 = "snd (Validator_Recv sample_vcfg (Some ready_stmt) ?s2)"
  let ?s4 = "snd (dispatchStmt ?s3)"
  have c: "quorum_codec sample_vcfg" by (auto simp: quorum_codec_def sample_vcfg_def split: if_splits)
  have u: "undo_ok cfg" by (simp add: undo_ok_def cfg_def)
  have lm: "txsets_coherent ?lm" by (simp add: txsets_coherent_def newLedgerMgr_def freshTm_def opened_def)
  have "length (put_fields (TxSet_fields (TxSet ''p'' []))) < 100" by code_simp
  then have t: "storable_txset (TxSet ''p'' [])"
    by (simp add: storable_txset_def TxSet_utf8_def TxSet_fits_def wire_max_def)
  have st: "va_step sample_vcfg cfg (\<lambda>_. 0) (newValidator ?lm) ?s1" "va_step sample_vcfg cfg (\<lambda>_. 0) ?s1 ?s2"
    "va_step sample_vcfg cfg (\<lambda>_. 0) ?s2 ?s3" "va_step sample_vcfg cfg (\<lambda>_. 0) ?s3 ?s4"
    by (rule va_step.intros t)+
  have run: "(va_step sample_vcfg cfg (\<lambda>_. 0))\<^sup>*\<^sup>* (newValidator ?lm) ?s4"
    using st by (meson rtranclp.rtrancl_into_rtrancl rtranclp.rtrancl_refl)
  have r: "va_readyChan ?s4 = [ready_stmt]" by code_simp
  have x: "extractQuorumHash ready_stmt = ''q''" "extractTxSetHash sample_vcfg ready_stmt = Inr [''h'']" by code_simp+
  from ready_complete [OF c u lm run, of ready_stmt] show ?thesis unfolding Let_def by (auto simp: r x)
qed

end
