(* ===== verification/EngineSpec.thy ===== *)
theory EngineSpec
  imports Engine StmtValidatorSpec
begin

text \<open>
  What the engine does with the components it drives: what it looks up by a hash has that hash, a value
  that is externalized becomes the next ledger, rebroadcasting ends, and two ways in which a node stops:
  the lock that is never given back and the quorum that was never stored.
\<close>


section \<open>Integrity of what is looked up\<close>

abbreviation hashed_quorum :: "ecfg \<Rightarrow> string \<Rightarrow> quorum \<Rightarrow> bool" where
  "hashed_quorum c h q \<equiv> g_hashQuorum c q = Inr h"

abbreviation hashed_txset :: "ecfg \<Rightarrow> string \<Rightarrow> txset \<Rightarrow> bool" where
  "hashed_txset c h t \<equiv> GetTxSetKey (g_crypto c) t = Inr h"

text \<open>The steps of the engine are careful steps of its validator, and keep the hash of its quorum.\<close>

definition en_careful :: "ecfg \<Rightarrow> engine \<Rightarrow> engine \<Rightarrow> bool" where
  "en_careful c e e' \<longleftrightarrow> (hashed_quorum c (en_quorumHash e) (g_quorum c) \<longrightarrow>
     en_quorumHash e' = en_quorumHash e \<and>
     careful (hashed_quorum c) (hashed_txset c) (g_validator c) (en_validator e) (en_validator e'))"

interpretation enf: frame "en_careful c" for c
proof
  fix s t u
  show "en_careful c s s" by (simp add: en_careful_def)
  assume "en_careful c s t" "en_careful c t u"
  then show "en_careful c s u" by (auto simp: en_careful_def intro: care.frame_trans)
qed

lemmas enf_intros = enf.frame_bind enf.frame_then

lemma en_careful_validator:
  "careful (hashed_quorum c) (hashed_txset c) (g_validator c) (en_validator e) v \<Longrightarrow> en_careful c e (e\<lparr>en_validator := v\<rparr>)"
  by (simp add: en_careful_def)

lemma en_careful_onValidator:
  "careful (hashed_quorum c) (hashed_txset c) (g_validator c) (en_validator e) (snd (m (en_validator e)))
   \<Longrightarrow> en_careful c e (snd (onValidator m e))"
  by (cases "m (en_validator e)") (simp add: onValidator_def en_careful_def)

lemma en_careful_same: "en_validator e' = en_validator e \<Longrightarrow> en_quorumHash e' = en_quorumHash e \<Longrightarrow> en_careful c e e'"
  by (simp add: en_careful_def)

lemma onDecree_same [simp]:
  "en_validator (snd (onDecree i m e)) = en_validator e" "en_quorumHash (snd (onDecree i m e)) = en_quorumHash e"
  by (auto simp: onDecree_def split: option.splits prod.splits)

lemma getDecree_same [simp]:
  "en_validator (snd (getDecree c i b e)) = en_validator e" "en_quorumHash (snd (getDecree c i b e)) = en_quorumHash e"
  by (auto simp: getDecree_def split: option.splits sum.splits)

lemma en_careful_plain [simp]:
  "en_careful c e (snd (retA x e))" "en_careful c e (snd (liftA r e))" "en_careful c e (snd (readA g e))" "en_careful c e (snd (failA f e))"
  "en_careful c e (snd (present err p e))" "en_careful c e (snd (onDecree i m e))" "en_careful c e (snd (getDecree c' i b e))"
  by (auto simp: present_def intro!: en_careful_same split: option.splits)

lemma en_careful_nominate [simp]: "en_careful c e (snd (Engine_nominate c' i p v e))" "en_careful c e (snd (renominateStep c' i p v e))"
  unfolding Engine_nominate_def renominateStep_def Let_def by (intro enf_intros; simp)+

lemma en_careful_RecvTxSet: "storable_txset t \<Longrightarrow> hashed_txset c h t \<Longrightarrow> en_careful c e (snd (onValidator (Validator_RecvTxSet h t) e))"
  unfolding Validator_RecvTxSet_def by (intro en_careful_onValidator careful_onLm lm_careful_AddTxSet)

lemma en_careful_RecvQuorum:
  "quorum_codec (g_validator c) \<Longrightarrow> hashed_quorum c h q \<Longrightarrow> en_careful c e (snd (onValidator (RecvQuorum (g_validator c) h q) e))"
  by (intro en_careful_onValidator careful_RecvQuorum)

lemma en_careful_tm:
  assumes "\<And>s. tm_untouched s (snd (m s))"
  shows "en_careful c e (snd (onValidator (onLm (onTm m)) e))"
  by (intro en_careful_onValidator careful_onLm lm_quiet_careful lm_quiet_onTm assms)

lemma tm_untouched_GetTxList: "tm_untouched s (snd (GetTxList c s))"
  by (simp add: GetTxList_def tm_untouched_def)

lemma tm_untouched_DeleteTxList: "tm_untouched s (snd (DeleteTxList c txs s))"
proof -
  have "tm_untouched s (snd (deleteAccounts c txs accs s))" for accs
  proof (induction accs arbitrary: s)
    case (Cons acc accs)
    have f: "tm_untouched s (s\<lparr>tm_locked := b\<rparr>)" "tm_untouched s (s\<lparr>tm_accTxMap := m\<rparr>)" "tm_untouched s (s\<lparr>tm_accTxMap := m, tm_locked := b\<rparr>)" for s b m
      by (simp_all add: tm_untouched_def)
    have "tm_untouched s (snd (case map_of (tm_accTxMap s) acc of None \<Rightarrow> deleteAccounts c txs accs s
       | Some th \<Rightarrow> let th' = TxHistory_DeleteTxList (map (txKeyOf c) (filter (\<lambda>tx. tx_AccountID tx = acc) txs)) th
           in thenA unlockTm (deleteAccounts c txs accs)
                (s\<lparr>tm_accTxMap := (if TxHistory_Size th' = 0 then AList.delete acc (tm_accTxMap s)
                                   else AList.update acc th' (tm_accTxMap s))\<rparr>)))" for s
      using Cons.IH tm_store.frame_trans [OF f(3) Cons.IH]
      by (simp add: Let_def unlockTm_def thenA_def bindA_def split: option.splits)
    then show ?case by (auto intro!: tm_store.frame_then simp: lockTm_def f)
  qed simp
  then show ?thesis by (simp add: DeleteTxList_def)
qed


lemma tm_untouched_AddTx: "tm_untouched s (snd (AddTx c k tx s))"
proof -
  have f: "tm_untouched s (newHistory a s)" "tm_untouched s (addToHistory k tx s)" "tm_untouched s (s\<lparr>tm_txSet := x\<rparr>)" "tm_untouched s (s\<lparr>tm_txChan := y\<rparr>)"
    "tm_untouched s (snd (lockTm s))" "tm_untouched s (snd (unlockTm s))" for s a x y
    by (auto simp: tm_untouched_def newHistory_def addToHistory_def lockTm_def unlockTm_def split: option.splits)
  have p: "tm_untouched s (snd (onStore (Put TX k b) s))" "tm_untouched s (snd (onStore (readA g) s))" for s b g
    by (rule tm_untouched_onStore; simp add: untouched_Put)+
  show ?thesis unfolding AddTx_def bind_read Let_def
    by (auto intro!: tm_store_intros simp: f p)
qed

lemma tm_untouched_Start_step: "tm_untouched s (snd (TxMgr_Start_step c rpc s))"
  by (auto simp: TxMgr_Start_step_def tm_untouched_def snd_act_simps split: list.splits)

text \<open>What a proposal stores can be read back: the pending transactions fit into a message.\<close>

definition proposable :: "ecfg \<Rightarrow> engine \<Rightarrow> bool" where
  "proposable c e \<longleftrightarrow> (\<forall>txs. fst (GetTxList (g_tx c) (en_tm e)) = Inr txs \<longrightarrow>
     storable_txset (TxSet (lm_currLedgerHeaderHash (en_lm e)) txs))"

lemma en_careful_dropA: "en_careful c e (snd (m e)) \<Longrightarrow> en_careful c e (snd (dropA m e))"
  by (cases "m e") (auto simp: dropA_def split: sum.splits failure.splits)

lemma en_careful_errorfA [simp]: "en_careful c e (snd (errorfA p m e)) = en_careful c e (snd (m e))"
  by (simp add: snd_act_simps)

lemma en_careful_fields [simp]:
  "en_careful c e (e\<lparr>en_decrees := ds\<rparr>)" "en_careful c e (e\<lparr>en_lastProposeTime := n\<rparr>)" "en_careful c e (e\<lparr>en_lastExtTime := n\<rparr>)"
  "en_careful c e (e\<lparr>en_externalizeChan := xs\<rparr>)" "en_careful c e (e\<lparr>en_statementChan := ss\<rparr>)" "en_careful c e (e\<lparr>en_timers := ts\<rparr>)"
  by (simp_all add: en_careful_same)

lemma en_careful_RecvStatement: "en_careful c e (snd (RecvStatement c stmt e))"
  unfolding RecvStatement_def by (auto intro!: en_careful_onValidator careful_Recv)

lemma en_careful_handleReady: "en_careful c e (snd (handleReady c e))"
proof (cases "va_readyChan (en_validator e)")
  case (Cons stmt stmts)
  let ?e = "e\<lparr>en_validator := (en_validator e)\<lparr>va_readyChan := stmts\<rparr>\<rparr>"
  have e: "en_careful c e ?e"
    using Cons by (intro en_careful_validator careful_same) (auto simp: held_def pendingStmts_def)
  have "en_careful c ?e (snd (dropA (thenA (getDecree c i True) (onDecree i m)) ?e))" for i m
    by (intro en_careful_dropA enf.frame_then) simp_all
  then show ?thesis using Cons enf.frame_trans [OF e] e by (simp add: handleReady_def Let_def)
qed (simp add: handleReady_def)


lemma queryTxSet_hashed: "queryTxSet c rpc h = Inr t \<Longrightarrow> hashed_txset c h t \<and> (\<exists>sign. rpc h sign = Inr t)"
  unfolding queryTxSet_def
  by (cases "Sign (g_crypto c) (g_seed c) h"; auto simp: errorf_def bindR_def split: sum.splits failure.splits if_splits)

lemma queryQuorum_hashed: "queryQuorum c rpc h = Inr q \<Longrightarrow> hashed_quorum c h q"
  unfolding queryQuorum_def
  by (cases "Sign (g_crypto c) (g_seed c) h"; auto simp: errorf_def bindR_def split: sum.splits failure.splits if_splits)

lemma en_careful_lift:
  "(\<And>x. r = Inr x \<Longrightarrow> en_careful c e (snd (f x e))) \<Longrightarrow> en_careful c e (snd (bindA (liftA r) f e))"
  by (cases r) (simp_all add: bindA_def)

lemma en_careful_handleTxSetDownload:
  assumes "\<And>h sign t. rpc h sign = Inr t \<Longrightarrow> storable_txset t"
  shows "en_careful c e (snd (handleTxSetDownload c rpc e))"
proof (cases "va_txsetDownloadChan (en_validator e)")
  case (Cons h hs)
  let ?e = "e\<lparr>en_validator := (en_validator e)\<lparr>va_txsetDownloadChan := hs\<rparr>\<rparr>"
  have e: "en_careful c e ?e" by (rule en_careful_validator) simp
  have "en_careful c ?e (snd (dropA (bindA (liftA (queryTxSet c rpc h)) (\<lambda>t. onValidator (Validator_RecvTxSet h t))) ?e))"
    by (intro en_careful_dropA en_careful_lift) (auto dest!: queryTxSet_hashed intro!: en_careful_RecvTxSet dest: assms)
  then show ?thesis using Cons enf.frame_trans [OF e] by (simp add: handleTxSetDownload_def)
qed (simp add: handleTxSetDownload_def)

lemma en_careful_handleQuorumDownload:
  assumes "quorum_codec (g_validator c)"
  shows "en_careful c e (snd (handleQuorumDownload c rpc e))"
proof (cases "va_quorumDownloadChan (en_validator e)")
  case (Cons h hs)
  let ?e = "e\<lparr>en_validator := (en_validator e)\<lparr>va_quorumDownloadChan := hs\<rparr>\<rparr>"
  have e: "en_careful c e ?e" by (rule en_careful_validator) simp
  have "en_careful c ?e (snd (dropA (bindA (liftA (queryQuorum c rpc h)) (\<lambda>q. onValidator (RecvQuorum (g_validator c) h q))) ?e))"
    by (intro en_careful_dropA en_careful_lift en_careful_RecvQuorum assms queryQuorum_hashed)
  then show ?thesis using Cons enf.frame_trans [OF e] by (simp add: handleQuorumDownload_def)
qed (simp add: handleQuorumDownload_def)

text \<open>A proposal stores the pending transactions under their key and the quorum under its hash.\<close>

lemma en_careful_pure:
  "m e = (r, e) \<Longrightarrow> (\<And>x. r = Inr x \<Longrightarrow> en_careful c e (snd (f x e))) \<Longrightarrow> en_careful c e (snd (bindA m f e))"
  by (cases r) (simp_all add: bindA_def)

lemma onValidator_GetTxList [simp]:
  "onValidator (onLm (onTm (GetTxList c))) e = (fst (GetTxList c (en_tm e)), e)"
  by (simp add: onValidator_def onLm_def onTm_def GetTxList_def)

lemma en_careful_modify:
  "en_careful c e (f e) \<Longrightarrow> en_careful c (f e) (snd (m (f e))) \<Longrightarrow> en_careful c e (snd (thenA (modifyA f) m e))"
  using enf.frame_trans by (fastforce simp: thenA_def bindA_def modifyA_def)

lemma en_careful_Propose:
  assumes "quorum_codec (g_validator c)" "proposable c e"
  shows "en_careful c e (snd (Propose c now e))"
proof (cases "hashed_quorum c (en_quorumHash e) (g_quorum c)")
  case True
  have q: "en_careful c s (snd (onValidator (RecvQuorum (g_validator c) (en_quorumHash e) (g_quorum c)) s))" for s
    by (rule en_careful_RecvQuorum [OF assms(1) True])
  have st: "storable_txset (TxSet p txs)"
    if "CurrLedgerHeaderHash (en_lm e) = Inr p" "fst (GetTxList (g_tx c) (en_tm e)) = Inr txs" for p txs
    using that assms(2) by (auto simp: proposable_def CurrLedgerHeaderHash_def split: if_splits option.splits)
  show ?thesis unfolding Propose_def Let_def
    by (auto intro!: en_careful_modify en_careful_pure en_careful_lift enf_intros en_careful_RecvTxSet st q simp: readA_def)
qed (simp add: en_careful_def)


lemma en_careful_Externalize:
  assumes "undo_ok (g_tx c)"
  shows "en_careful c e (snd (Externalize_value c idx val e))"
proof -
  have r: "en_careful c s (snd (onValidator (onLm (RecvExtVal (g_tx c) (g_close c) idx val t)) s))" for s t
    by (intro en_careful_onValidator careful_onLm lm_quiet_careful lm_quiet_RecvExtVal assms)
  have g: "en_careful c s (snd (onValidator (Validator_GetTxSet h) s))" for s h
    unfolding Validator_GetTxSet_def by (intro en_careful_onValidator) simp
  have d: "en_careful c s (snd (onValidator (onLm (onTm (DeleteTxList (g_tx c) txs))) s))" for s txs
    by (rule en_careful_tm) (rule tm_untouched_DeleteTxList)
  have m: "en_careful c s (snd (modifyA (\<lambda>e. if b then e\<lparr>en_decrees := f (en_decrees e)\<rparr> else e) s))" for s b f by simp
  show ?thesis unfolding Externalize_value_def bind_read
    by (auto intro!: enf_intros r g d m simp del: en_careful_fields simp: en_careful_same)
qed

lemma en_careful_handleExternalize:
  assumes "quorum_codec (g_validator c)" "undo_ok (g_tx c)"
    and "\<And>idx val exts. en_externalizeChan e = (idx, val) # exts \<Longrightarrow>
      proposable c (snd (Externalize_value c idx val (e\<lparr>en_externalizeChan := exts\<rparr>)))"
  shows "en_careful c e (snd (handleExternalize c now e))"
proof (cases "en_externalizeChan e")
  case (Cons ext exts)
  obtain idx val where ext: "ext = (idx, val)" by force
  obtain r e' where x: "Externalize_value c idx val (e\<lparr>en_externalizeChan := exts\<rparr>) = (r, e')" by force
  have e': "en_careful c e e'"
    using enf.frame_trans [OF en_careful_fields(4) en_careful_Externalize [OF assms(2), of _ idx val]] x by (metis snd_conv)
  have p: "proposable c (e'\<lparr>en_lastExtTime := now\<rparr>)" using assms(3) [of idx val exts] Cons ext x by (simp add: proposable_def)
  have "en_careful c e' (e'\<lparr>en_lastExtTime := now, en_timers := ts\<rparr>)" for ts by (simp add: en_careful_same)
  moreover have "en_careful c e' (snd (dropA (Propose c now) (e'\<lparr>en_lastExtTime := now\<rparr>)))"
    by (rule enf.frame_trans [OF en_careful_fields(3) [where n = now]]) (intro en_careful_dropA en_careful_Propose assms(1) p)
  ultimately show ?thesis using Cons ext x e' enf.frame_trans [OF e']
    by (auto simp: handleExternalize_def Let_def split: sum.splits failure.splits)
qed (simp add: handleExternalize_def)

text \<open>
  The engine in its node.  Answers of the peers are decoded messages, which are encoded again when they
  are stored; the decrees may store a known set again; the transaction manager takes new transactions.
\<close>

inductive en_step :: "ecfg \<Rightarrow> engine \<Rightarrow> engine \<Rightarrow> bool" for c where
  en_statement: "en_step c e (snd (RecvStatement c stmt e))"
| en_ready: "en_step c e (snd (handleReady c e))"
| en_txset: "(\<And>h sign t. rpc h sign = Inr t \<Longrightarrow> storable_txset t) \<Longrightarrow> en_step c e (snd (handleTxSetDownload c rpc e))"
| en_quorum: "en_step c e (snd (handleQuorumDownload c rpc e))"
| en_broadcast: "en_step c e (snd (handleStatement c live send e))"
| en_propose: "proposable c e \<Longrightarrow> en_step c e (snd (Propose c now e))"
| en_externalize: "(\<And>idx val exts. en_externalizeChan e = (idx, val) # exts \<Longrightarrow>
      proposable c (snd (Externalize_value c idx val (e\<lparr>en_externalizeChan := exts\<rparr>)))) \<Longrightarrow>
    en_step c e (snd (handleExternalize c now e))"
| en_renominate: "en_step c e (snd (renominateStep c idx prevValue currValue e))"
| en_combine: "fst (Engine_GetTxSet h e) = Inr (Some t) \<Longrightarrow> storable_txset t \<Longrightarrow> GetTxSetKey (g_crypto c) t = Inr k \<Longrightarrow>
    en_step c e (snd (Engine_RecvTxSet k t e))"
| en_lookup: "en_step c e (snd (Engine_GetTxSet h e))"
| en_lookup_quorum: "en_step c e (snd (Engine_GetQuorum c h e))"
| en_monitor: "en_step c e (snd (onValidator (monitor (g_validator c) order) e))"
| en_tick: "en_step c e (snd (onValidator (dispatchTick (g_validator c) fuel) e))"
| en_dispatch: "en_step c e (snd (onValidator dispatchStmt e))"
| en_download: "en_step c e (snd (onValidator (download_step (g_validator c)) e))"
| en_ledger: "en_step c e (snd (onValidator (onLm (LedgerMgr_Start_step (g_tx c) (g_close c))) e))"
| en_add: "en_step c e (snd (onValidator (onLm (onTm (AddTx (g_tx c) k tx))) e))"
| en_sendTx: "en_step c e (snd (onValidator (onLm (onTm (TxMgr_Start_step (g_tx c) sendTx))) e))"

lemma lm_quiet_Start_step: "undo_ok c \<Longrightarrow> lm_quiet s (snd (LedgerMgr_Start_step c now s))"
  using lmq.frame_trans [OF lm_quiet_fields(4) lm_quiet_recvDownloaded, of c]
  by (simp add: LedgerMgr_Start_step_def split: list.splits)

lemma en_careful_step:
  assumes "en_step c e e'" "quorum_codec (g_validator c)" "undo_ok (g_tx c)"
  shows "en_careful c e e'"
  using assms(1)
proof cases
  case (en_txset rpc)
  then show ?thesis by (auto intro: en_careful_handleTxSetDownload)
next
  case (en_broadcast live send)
  show ?thesis unfolding en_broadcast handleStatement_def
    by (auto intro!: enf.frame_trans [OF en_careful_fields(5)] en_careful_dropA split: list.splits)
next
  case (en_externalize now)
  then show ?thesis by (auto intro: en_careful_handleExternalize assms(2,3))
next
  case (en_combine h t k)
  then show ?thesis by (simp add: Engine_RecvTxSet_def en_careful_RecvTxSet)
next
  case (en_lookup h)
  then show ?thesis by (simp add: Engine_GetTxSet_def Validator_GetTxSet_def en_careful_onValidator)
next
  case (en_ledger)
  then show ?thesis by (auto intro!: en_careful_onValidator careful_onLm lm_quiet_careful lm_quiet_Start_step assms(3))
next
  case (en_add k tx)
  then show ?thesis by (auto intro: en_careful_tm tm_untouched_AddTx)
next
  case (en_sendTx sendTx)
  then show ?thesis by (auto intro: en_careful_tm tm_untouched_Start_step)
qed (auto simp: Engine_GetQuorum_def intro: en_careful_RecvStatement en_careful_handleReady en_careful_handleQuorumDownload
  en_careful_Propose assms(2,3) intro!: en_careful_onValidator simp: careful_monitor careful_dispatchTick careful_dispatchStmt careful_download)


text \<open>Every quorum and every transaction set that can be looked up has the hash it is looked up by.\<close>

definition lookups_hashed :: "ecfg \<Rightarrow> engine \<Rightarrow> bool" where
  "lookups_hashed c e \<longleftrightarrow>
     (\<forall>h q. fst (Engine_GetQuorum c h e) = Inr (Some q) \<longrightarrow> g_hashQuorum c q = Inr h) \<and>
     (\<forall>h t. fst (Engine_GetTxSet h e) = Inr (Some t) \<longrightarrow> GetTxSetKey (g_crypto c) t = Inr h)"

lemma fst_lookups:
  "fst (Engine_GetQuorum c h e) = Inr (Some q) \<longleftrightarrow> fst (Validator_GetQuorum (g_validator c) h (en_validator e)) = Inr (Some q)"
  "fst (Engine_GetTxSet h e) = Inr (Some t) \<longleftrightarrow> fst (GetTxSet h (en_lm e)) = Inr (Some t)"
  by (simp_all add: Engine_GetQuorum_def Engine_GetTxSet_def Validator_GetTxSet_def onValidator_def onLm_def errorfA_def split: prod.splits)

lemma lookups_hashed_iff:
  assumes "va_ok (g_validator c) (en_validator e)"
  shows "lookups_hashed c e \<longleftrightarrow> (\<forall>h q. quorum_map (g_validator c) (en_validator e) h = Some q \<longrightarrow> hashed_quorum c h q) \<and>
    (\<forall>h t. sets_of (en_validator e) h = Some t \<longrightarrow> hashed_txset c h t)"
proof -
  have co: "txsets_coherent (en_lm e)" using assms by (simp add: va_ok_def)
  have q: "fst (Validator_GetQuorum (g_validator c) h (en_validator e)) = Inr (Some q) \<longleftrightarrow> quorum_map (g_validator c) (en_validator e) h = Some q" for h q
    using GetQuorum_run [OF assms, of h] GetQuorum_known [OF assms, of h q] by blast
  have t: "fst (GetTxSet h (en_lm e)) = Inr (Some t) \<longleftrightarrow> sets_of (en_validator e) h = Some t" for h t
    using GetTxSet_run [OF co, of h] GetTxSet_known [OF co, of h t] by auto
  show ?thesis by (simp add: lookups_hashed_def fst_lookups q t)
qed

lemma NewEngine_run:
  "NewEngine c now lm = (Inr e, lm') \<Longrightarrow> en_validator e = newValidator lm \<and> hashed_quorum c (en_quorumHash e) (g_quorum c) \<and> lm' = lm"
  by (auto simp: NewEngine_def NewValidator_def onTm_def onStore_def mustBucket_def NewBucket_def newValidator_def
      thenA_def bindA_def readA_def split: sum.splits)

lemma en_careful_reach:
  assumes "(en_step c)\<^sup>*\<^sup>* e0 e" "quorum_codec (g_validator c)" "undo_ok (g_tx c)"
  shows "en_careful c e0 e"
  using assms(1) by (induction rule: rtranclp_induct) (auto intro: enf.frame_trans en_careful_step [OF _ assms(2,3)])

lemma adds_keeps: "adds P m m' \<Longrightarrow> \<forall>h x. m h = Some x \<longrightarrow> P h x \<Longrightarrow> \<forall>h x. m' h = Some x \<longrightarrow> P h x"
  unfolding adds_def by metis


definition sample_ecfg :: ecfg where
  "sample_ecfg = \<lparr>g_validator = sample_vcfg, g_tx = cfg, g_close = (\<lambda>_. 0), g_networkID = ''net'', g_seed = EncodeKey plain (ULTKey KeyTypeSeed (replicate 32 (CHR ''s''))),
     g_nodeID = ''me'', g_role = ''validator'', g_quorum = solo, g_proposeInterval = 5,
     g_hashQuorum = (\<lambda>q. if q = solo then Inr ''q'' else Inl (Error ''unknown'')),
     g_encodeStmt = (\<lambda>s. Inr (stmt_node s)), g_iter = sorted_list_of_set, g_fuel = 20\<rparr>"


text \<open>A statement arrives, its quorum is asked of a peer, and the answer is stored.\<close>

abbreviation sample_e0 :: engine where
  "sample_e0 \<equiv> \<lparr>en_validator = newValidator (newLedgerMgr (freshTm (Some []))), en_quorumHash = ''q'', en_decrees = [],
     en_statementChan = [], en_externalizeChan = [], en_lastExtTime = 9, en_lastProposeTime = 0, en_timers = []\<rparr>"

lemma sample_NewEngine: "NewEngine sample_ecfg 9 (newLedgerMgr (freshTm (Some []))) = (Inr sample_e0, newLedgerMgr (freshTm (Some [])))"
  by (simp add: NewEngine_def ValidateEngineContext_def sample_ecfg_def sample_vcfg_def NewValidator_def ValidateValidatorContext_def
      onTm_def onStore_def mustBucket_def NewBucket_def newValidator_def thenA_def bindA_def readA_def EncodeKey_def plain_def)



section \<open>Externalizing\<close>

lemma pending_onTm [simp]: "same_pending (lm_tm s) (lm_tm (snd (onTm m s))) = same_pending (lm_tm s) (snd (m (lm_tm s)))"
  by (simp add: onTm_def split: prod.splits)

text \<open>Closing a ledger leaves the pending transactions alone.\<close>

definition lm_pending :: "ledgermgr \<Rightarrow> ledgermgr \<Rightarrow> bool" where
  "lm_pending s t \<longleftrightarrow> same_pending (lm_tm s) (lm_tm t)"

interpretation lmp: frame lm_pending
  by unfold_locales (auto simp: lm_pending_def intro: pending.frame_trans)

lemmas lmp_intros = lmp.frame_bind lmp.frame_then

lemma lm_pending_plain [simp]:
  "lm_pending s (snd (retA x s))" "lm_pending s (snd (liftA r s))" "lm_pending s (snd (readA g s))" "lm_pending s (snd (failA f s))"
  "lm_pending s (snd (onDownloader m s))" "lm_pending s (snd (onLedgerStore n s))"
  by (auto simp: onDownloader_def lm_pending_def onTm_def onStore_def same_pending_def split: prod.splits)

lemma lm_pending_closeLedger: "lm_pending s (snd (closeLedger c now index val txset s))"
proof -
  have a: "lm_pending s (snd (onTm (ApplyTxList c txs n) s))" for txs n s by (simp add: lm_pending_def pending_ApplyTxList)
  have m: "lm_pending s (s\<lparr>lm_headers := a, lm_prevLedgerHeader := x, lm_prevLedgerHeaderHash := y, lm_currLedgerHeader := z,
    lm_currLedgerHeaderHash := w, lm_ledgerHeaderCount := u, lm_lastCloseTime := v\<rparr>)" for s a x y z w u v by (simp add: lm_pending_def)
  have "lm_pending s (snd (saveCheckpoint s))" for s unfolding saveCheckpoint_def Let_def by (intro lmp_intros) simp_all
  then have "lm_pending s (snd (advanceLedger c now seq ph th cv s))" for seq ph th cv s
    unfolding advanceLedger_def Let_def by (intro lmp_intros) (simp_all add: m)
  then show ?thesis unfolding closeLedger_def by (auto intro!: lmp_intros simp: a)
qed

lemma lm_pending_RecvExtVal: "lm_pending s (snd (RecvExtVal c now index val txset s))"
proof -
  have "lm_pending s (s\<lparr>lm_buffer := b\<rparr>)" "lm_pending s (s\<lparr>lm_largestConsensusIndex := n, lm_ledgerState := a\<rparr>)" for s b n a
    by (simp_all add: lm_pending_def)
  then show ?thesis unfolding RecvExtVal_def bind_read Let_def
    by (auto intro!: lmp_intros simp: lm_pending_closeLedger split: LedgerState.splits)
qed

text \<open>A value for the next ledger that is received closes that ledger.\<close>

lemma advanceLedger_header:
  assumes "advanceLedger c now seq ph th cv s = (Inr (), t)"
  shows "lm_currLedgerHeader t = Some (genesisHeader seq ph th cv)"
proof -
  have k: "lm_currLedgerHeader (snd (saveCheckpoint s)) = lm_currLedgerHeader s" for s
    by (auto simp: saveCheckpoint_def Let_def bindA_def onTm_def onStore_def errorfA_def split: sum.splits prod.splits)
  have k': "lm_currLedgerHeader t = lm_currLedgerHeader s" if "saveCheckpoint s = (r, t)" for s t r using k [of s] that by simp
  show ?thesis using assms unfolding advanceLedger_def Let_def
    by (elim bindA_runE thenA_runE) (simp add: modifyA_def, drule k', auto)
qed

lemma closeLedger_header:
  assumes "closeLedger c now index val txset s = (Inr (), t)"
  shows "\<exists>h. lm_currLedgerHeader t = Some h \<and> lh_SeqNum h = index \<and> lh_ConsensusValue h = val \<and> lh_PrevLedgerHash h = ts_PrevLedgerHash txset \<and>
    GetTxSetKey (x_crypto c) txset = Inr (lh_TxSetHash h)"
  using assms unfolding closeLedger_def bind_read
  by (auto elim!: bindA_runE thenA_runE dest!: advanceLedger_header simp: fatalf_def genesisHeader_def split: if_splits sum.splits failure.splits prod.splits)

lemma RecvExtVal_next:
  assumes "RecvExtVal c now index val txset s = (Inr (), t)" "NextLedgerHeaderSeq s = index" "lm_ledgerState s \<noteq> LedgerStateSyncing"
  shows "\<exists>h. lm_currLedgerHeader t = Some h \<and> lh_SeqNum h = index \<and> lh_ConsensusValue h = val \<and>
    CurrLedgerHeaderHash s = Inr (lh_PrevLedgerHash h) \<and> GetTxSetKey (x_crypto c) txset = Inr (lh_TxSetHash h) \<and> LedgerSynced t"
proof -
  obtain h u where u: "CurrLedgerHeaderHash s = Inr h" "h = ts_PrevLedgerHash txset" "closeLedger c now index val txset s = (Inr (), u)"
    "t = u\<lparr>lm_largestConsensusIndex := index, lm_ledgerState := LedgerStateSynced\<rparr>"
    using assms unfolding RecvExtVal_def bind_read Let_def
    by (cases "lm_ledgerState s") (auto elim!: bindA_runE thenA_runE simp: readA_def split: if_splits)
  then show ?thesis using closeLedger_header [OF u(3)] by (auto simp: LedgerSynced_def)
qed

text \<open>What a successful run of \<open>Externalize\<close> did, up to the removal of old decrees.\<close>

lemma Externalize_run:
  assumes "Externalize_value c idx val e = (Inr (), e')" "idx \<ge> NextLedgerHeaderSeq (en_lm e)"
    and "k_b58Decode (g_crypto c) val = Inr b" "DecodeConsensusValue b = Inr cv" "fst (Engine_GetTxSet (TxSetHash cv) e) = Inr (Some txset)"
  shows "\<exists>lm lm' tm. lm_tm lm = en_tm e \<and> lm_currLedgerHeader lm = lm_currLedgerHeader (en_lm e) \<and>
     lm_currLedgerHeaderHash lm = lm_currLedgerHeaderHash (en_lm e) \<and> lm_ledgerState lm = lm_ledgerState (en_lm e) \<and>
     RecvExtVal (g_tx c) (g_close c) idx val txset lm = (Inr (), lm') \<and>
     DeleteTxList (g_tx c) (ts_TxList txset) (lm_tm lm') = (Inr (), tm) \<and> en_lm e' = lm'\<lparr>lm_tm := tm\<rparr>"
proof -
  obtain e1 where g: "onValidator (Validator_GetTxSet (TxSetHash cv)) e = (Inr (Some txset), e1)"
    using assms(5) unfolding fst_lookups
    by (cases "GetTxSet (TxSetHash cv) (en_lm e)") (simp add: Validator_GetTxSet_def onValidator_def onLm_def)
  obtain e2 e3 e4 e5 where s:
    "onValidator (onLm (RecvExtVal (g_tx c) (g_close c) idx val txset)) e1 = (Inr (), e2)"
    "getDecree c idx False e2 = (Inr (), e3)" "onDecree idx (modifyA StopNomination) e3 = (Inr (), e4)"
    "onValidator (onLm (onTm (DeleteTxList (g_tx c) (ts_TxList txset)))) e4 = (Inr (), e5)" "en_validator e' = en_validator e5"
    using assms(1-4) unfolding Externalize_value_def bind_read
    by (auto elim!: bindA_runE thenA_runE simp: g not_less present_def split: if_splits)
  have "en_validator e4 = en_validator e2"
    using getDecree_same(1) [of c idx False e2] onDecree_same(1) [of idx "modifyA StopNomination" e3] s(2,3) by simp
  moreover obtain lm where lm: "GetTxSet (TxSetHash cv) (en_lm e) = (Inr (Some txset), lm)" "en_lm e1 = lm"
    using g by (auto simp: Validator_GetTxSet_def onValidator_def onLm_def split: prod.splits)
  moreover have "lm_tm lm = en_tm e \<and> lm_currLedgerHeader lm = lm_currLedgerHeader (en_lm e) \<and>
     lm_currLedgerHeaderHash lm = lm_currLedgerHeaderHash (en_lm e) \<and> lm_ledgerState lm = lm_ledgerState (en_lm e)"
    using lm(1) by (auto simp: GetTxSet_def split: option.splits sum.splits prod.splits)
  moreover obtain lm' where "RecvExtVal (g_tx c) (g_close c) idx val txset lm = (Inr (), lm')" "en_lm e2 = lm'"
    using s(1) lm(2) by (auto simp: onValidator_def onLm_def split: prod.splits)
  moreover obtain tm where "DeleteTxList (g_tx c) (ts_TxList txset) (en_tm e4) = (Inr (), tm)" "en_lm e5 = (en_lm e4)\<lparr>lm_tm := tm\<rparr>"
    using s(4) by (auto simp: onValidator_def onLm_def onTm_def split: prod.splits)
  ultimately show ?thesis using s(5) by auto
qed

text \<open>
  C16.  When the value of the next ledger is externalized on a node that is not catching up, that ledger is
  closed: the new header has the number, the value, the transaction set of the value and the hash of
  the ledger before it, the node is synced and waits for the number after it.
\<close>

theorem externalize_closes_ledger:
  assumes "Externalize_value c idx val e = (Inr (), e')" "idx = NextLedgerHeaderSeq (en_lm e)" "lm_ledgerState (en_lm e) \<noteq> LedgerStateSyncing"
    and "k_b58Decode (g_crypto c) val = Inr b" "DecodeConsensusValue b = Inr cv" "fst (Engine_GetTxSet (TxSetHash cv) e) = Inr (Some txset)"
  shows "\<exists>h. CurrLedgerHeader (en_lm e') = Inr h \<and> lh_SeqNum h = idx \<and> lh_ConsensusValue h = val \<and>
    CurrLedgerHeaderHash (en_lm e) = Inr (lh_PrevLedgerHash h) \<and> GetTxSetKey (x_crypto (g_tx c)) txset = Inr (lh_TxSetHash h) \<and>
    LedgerSynced (en_lm e') \<and> NextLedgerHeaderSeq (en_lm e') = idx + 1"
proof -
  obtain lm lm' tm where r: "lm_currLedgerHeader lm = lm_currLedgerHeader (en_lm e)" "lm_currLedgerHeaderHash lm = lm_currLedgerHeaderHash (en_lm e)"
    "lm_ledgerState lm = lm_ledgerState (en_lm e)" "RecvExtVal (g_tx c) (g_close c) idx val txset lm = (Inr (), lm')" "en_lm e' = lm'\<lparr>lm_tm := tm\<rparr>"
    using Externalize_run [OF assms(1) _ assms(4-6)] assms(2) by auto
  have "NextLedgerHeaderSeq lm = idx" "CurrLedgerHeaderHash lm = CurrLedgerHeaderHash (en_lm e)"
    using r(1,2) assms(2) by (simp_all add: NextLedgerHeaderSeq_def CurrLedgerHeaderHash_def)
  then show ?thesis using RecvExtVal_next [OF r(4)] r(3) assms(3) unfolding r(5)
    by (auto simp: CurrLedgerHeader_def LedgerSynced_def NextLedgerHeaderSeq_def)
qed

text \<open>
  C17.  A ledger that contains a transaction of an account without pending transactions on this node - one
  that only other nodes had received - is the last one it proposes after: the lock of the transaction
  manager is never given back, and the next proposal waits for it forever.
\<close>

theorem externalize_blocks_proposals:
  assumes "permutes_maps (g_tx c)" "g_role c = ''validator''"
    and "Externalize_value c idx val e = (Inr (), e')" "idx = NextLedgerHeaderSeq (en_lm e)" "lm_ledgerState (en_lm e) \<noteq> LedgerStateSyncing"
    and "k_b58Decode (g_crypto c) val = Inr b" "DecodeConsensusValue b = Inr cv" "fst (Engine_GetTxSet (TxSetHash cv) e) = Inr (Some txset)"
    and "tx \<in> set (ts_TxList txset)" "map_of (tm_accTxMap (en_tm e)) (tx_AccountID tx) = None"
    and "lm_currLedgerHeaderHash (en_lm e') \<noteq> []"
  shows "fst (Propose c now e') = Inl (Blocked ''tm.rwm'')"
proof -
  obtain lm lm' tm where r: "lm_tm lm = en_tm e" "lm_currLedgerHeader lm = lm_currLedgerHeader (en_lm e)"
    "lm_ledgerState lm = lm_ledgerState (en_lm e)" "RecvExtVal (g_tx c) (g_close c) idx val txset lm = (Inr (), lm')"
    "DeleteTxList (g_tx c) (ts_TxList txset) (lm_tm lm') = (Inr (), tm)" "en_lm e' = lm'\<lparr>lm_tm := tm\<rparr>"
    using Externalize_run [OF assms(3) _ assms(6-8)] assms(4) by auto
  have "same_pending (en_tm e) (lm_tm lm')"
    using lm_pending_RecvExtVal [of lm "g_tx c" "g_close c" idx val txset] r(1,4) by (simp add: lm_pending_def)
  then have "map_of (tm_accTxMap (lm_tm lm')) (tx_AccountID tx) = None" using assms(10) by (simp add: same_pending_def)
  moreover have "tx_AccountID tx \<in> set (x_order (g_tx c) (remdups (map tx_AccountID (ts_TxList txset))))"
    using assms(1,9) by (simp add: set_x_order)
  ultimately have "tm_locked tm" using deleteAccounts_unknown r(5) unfolding DeleteTxList_def by (metis snd_conv)
  then have "fst (GetTxList (g_tx c) (en_tm e')) = Inl (Blocked ''tm.rwm'')" using r(6) by (simp add: GetTxList_def)
  moreover have "LedgerSynced (en_lm e')"
    using RecvExtVal_next [OF r(4)] r(2,3,6) assms(4,5) by (auto simp: NextLedgerHeaderSeq_def LedgerSynced_def)
  ultimately show ?thesis using assms(2,11)
    by (simp add: Propose_def thenA_def bindA_def readA_def CurrLedgerHeaderHash_def)
qed

lemma Externalize_ok:
  assumes "idx \<ge> NextLedgerHeaderSeq (en_lm e)" "k_b58Decode (g_crypto c) val = Inr b" "DecodeConsensusValue b = Inr cv"
    and "GetTxSet (TxSetHash cv) (en_lm e) = (Inr (Some txset), lm)" "RecvExtVal (g_tx c) (g_close c) idx val txset lm = (Inr (), lm')"
    and "DeleteTxList (g_tx c) (ts_TxList txset) (lm_tm lm') = (Inr (), tm)" "map_of (en_decrees e) idx = Some d"
  shows "\<exists>e'. Externalize_value c idx val e = (Inr (), e') \<and> en_lm e' = lm'\<lparr>lm_tm := tm\<rparr>"
proof -
  have "\<not> idx < NextLedgerHeaderSeq (en_lm e)" using assms(1) by simp
  then show ?thesis using assms(2-)
    by (simp add: Externalize_value_def bind_read thenA_def bindA_def errorfA_def onValidator_def onLm_def onTm_def Validator_GetTxSet_def
        present_def getDecree_def onDecree_def)
qed

lemma saveCheckpoint_encodes:
  assumes "opened (lm_database s)" "EncodeLedgerCheckpoint (checkpointOf s) = Inr b"
  shows "\<exists>d. saveCheckpoint s = (Inr (), s\<lparr>lm_tm := (lm_tm s)\<lparr>tm_database := d\<rparr>\<rparr>)"
proof -
  obtain d where "Put LEDGER ''CHECKPOINT'' b (lm_database s) = (Inr (), d)" using mem.put_ok [OF assms(1)] by metis
  then show ?thesis using assms(2) unfolding saveCheckpoint_def bind_read Let_def checkpointOf_def [of s, symmetric]
    by (auto simp: bindA_def errorfA_def onTm_def onStore_def)
qed

lemma advanceLedger_ok:
  assumes "opened (lm_database s)" "header = genesisHeader seq ph th cv" "GetLedgerHeaderKey (x_crypto c) (Some header) = Inr h"
    and "LedgerHeader_utf8 header" "utf8_valid h" "utf8_valid (lm_currLedgerHeaderHash s)" "\<And>p. lm_currLedgerHeader s = Some p \<Longrightarrow> LedgerHeader_utf8 p"
  shows "\<exists>t. advanceLedger c now seq ph th cv s = (Inr (), t) \<and> lm_currLedgerHeaderHash t = h"
proof -
  obtain b where b: "EncodeLedgerHeader header = Inr b" using assms(4) by (simp add: EncodeLedgerHeader_def marshal_def)
  let ?a = "advanced now header h (snd (Put LEDGER (dec (unat seq)) b (lm_database s))) s"
  have op: "opened (lm_database ?a)" using mem.put_ok [OF assms(1)] by (auto simp: advanced_def)
  obtain ck where ck: "EncodeLedgerCheckpoint (checkpointOf ?a) = Inr ck"
    using assms(4-7) by (cases "lm_currLedgerHeader s") (auto simp: EncodeLedgerCheckpoint_def marshal_def LedgerCheckpoint_utf8_def checkpointOf_def advanced_def)
  obtain d where "saveCheckpoint ?a = (Inr (), ?a\<lparr>lm_tm := (lm_tm ?a)\<lparr>tm_database := d\<rparr>\<rparr>)" using saveCheckpoint_encodes [OF op ck] by blast
  then show ?thesis using advanceLedger_run [OF assms(1,2) b assms(3), of now] by (simp add: errorfA_def advanced_def)
qed

lemma closeLedger_ok:
  assumes "lm_currLedgerHeader s = Some p" "NextLedgerHeaderSeq s = index" "lm_currLedgerHeaderHash s = ts_PrevLedgerHash txset"
    and "GetTxSetKey (x_crypto c) txset = Inr k" "k_b58Decode (x_crypto c) val = Inr b" "DecodeConsensusValue b = Inr cv" "TxSetHash cv = k"
    and "ApplyTxList c (ts_TxList txset) index (lm_tm s) = (Inr (), tm)" "opened (tm_database tm)"
    and "GetLedgerHeaderKey (x_crypto c) (Some (genesisHeader index (ts_PrevLedgerHash txset) k val)) = Inr h"
    and "utf8_valid (ts_PrevLedgerHash txset)" "utf8_valid k" "utf8_valid val" "utf8_valid h" "LedgerHeader_utf8 p"
  shows "\<exists>t. closeLedger c now index val txset s = (Inr (), t) \<and> lm_currLedgerHeaderHash t = h"
proof -
  let ?s = "s\<lparr>lm_tm := tm\<rparr>"
  obtain t where "advanceLedger c now index (ts_PrevLedgerHash txset) k val ?s = (Inr (), t)" "lm_currLedgerHeaderHash t = h"
    using advanceLedger_ok [OF _ refl assms(10), of ?s now] assms by (auto simp: LedgerHeader_utf8_def genesisHeader_def)
  moreover have "NextLedgerHeaderSeq s = index" by (rule assms(2))
  ultimately show ?thesis using assms(1-8)
    by (simp add: closeLedger_def bind_read thenA_def bindA_def errorfA_def onTm_def fatalf_def)
qed

lemma RecvExtVal_ok:
  assumes "closeLedger c now index val txset s = (Inr (), t)" "NextLedgerHeaderSeq s = index" "lm_ledgerState s \<noteq> LedgerStateSyncing"
    and "lm_currLedgerHeaderHash s = ts_PrevLedgerHash txset" "lm_currLedgerHeaderHash s \<noteq> []"
  shows "RecvExtVal c now index val txset s = (Inr (), t\<lparr>lm_largestConsensusIndex := index, lm_ledgerState := LedgerStateSynced\<rparr>)"
  using assms by (cases "lm_ledgerState s") (simp_all add: RecvExtVal_def bind_read Let_def thenA_def bindA_def errorfA_def readA_def CurrLedgerHeaderHash_def)

text \<open>
  A node at the ledger with hash \<open>p\<close> knows a set with a transaction of an account that has nothing
  pending here, and its value is externalized.
\<close>

definition closing_cfg :: ecfg where
  "closing_cfg = sample_ecfg\<lparr>g_tx := letters, g_validator := sample_vcfg\<lparr>v_crypto := x_crypto letters\<rparr>\<rparr>"

definition closing_key :: string where
  "closing_key = CHR 0x04 # replicate 32 (CHR ''h'')"

definition closing_value :: string where
  "closing_value = CHR 0x0A # CHR 0x21 # closing_key"

definition closing_lm :: ledgermgr where
  "closing_lm = (newLedgerMgr (freshTm two_accounts))\<lparr>lm_currLedgerHeader := Some genesis, lm_currLedgerHeaderHash := ''p'',
     lm_ledgerState := LedgerStateSynced, lm_txsetCache := [(closing_key, TxSet ''p'' [sample_tx])]\<rparr>"

definition closing_engine :: engine where
  "closing_engine = snd (getDecree closing_cfg 2 True (sample_e0\<lparr>en_validator := newValidator closing_lm\<rparr>))"

lemma closing_cfg_simps [simp]:
  "g_tx closing_cfg = letters" "g_crypto closing_cfg = x_crypto letters" "g_role closing_cfg = ''validator''"
  "g_quorum closing_cfg = solo" "g_nodeID closing_cfg = ''me''"
  "g_close closing_cfg = (\<lambda>_. 0)"
  by (simp_all add: closing_cfg_def sample_ecfg_def)

lemma closing_engine_simps:
  "en_lm closing_engine = closing_lm" "\<exists>d. map_of (en_decrees closing_engine) 2 = Some d"
proof -
  obtain d where "NewDecree 2 ''me'' solo ''q'' = Inr d" by (simp add: NewDecree_def solo_tests)
  then show "en_lm closing_engine = closing_lm" "\<exists>d. map_of (en_decrees closing_engine) 2 = Some d"
    by (simp_all add: closing_engine_def getDecree_def newValidator_def)
qed

lemma closing_samples:
  "k_b58Decode (x_crypto letters) closing_value = Inr closing_value"
  "DecodeConsensusValue closing_value = Inr (ConsensusValue closing_key 0)"
  "GetTxSetKey (x_crypto letters) (TxSet ''p'' [sample_tx]) = Inr closing_key"
  "GetTxSet closing_key closing_lm = (Inr (Some (TxSet ''p'' [sample_tx])), closing_lm)"
  "NextLedgerHeaderSeq closing_lm = 2" "lm_ledgerState closing_lm = LedgerStateSynced" "CurrLedgerHeaderHash closing_lm = Inr ''p''"
  "fst (Engine_GetTxSet closing_key closing_engine) = Inr (Some (TxSet ''p'' [sample_tx]))"
proof -
  show g: "GetTxSet closing_key closing_lm = (Inr (Some (TxSet ''p'' [sample_tx])), closing_lm)"
    by (simp add: GetTxSet_def closing_lm_def lru_Get_def)
  then show "fst (Engine_GetTxSet closing_key closing_engine) = Inr (Some (TxSet ''p'' [sample_tx]))"
    by (simp add: fst_lookups closing_engine_simps)
  show "NextLedgerHeaderSeq closing_lm = 2" by (simp add: closing_lm_def NextLedgerHeaderSeq_def genesis_def genesisHeader_def)
  show "lm_ledgerState closing_lm = LedgerStateSynced" "CurrLedgerHeaderHash closing_lm = Inr ''p''"
    by (simp_all add: closing_lm_def CurrLedgerHeaderHash_def)
qed code_simp+

lemma closing_run:
  "\<exists>e'. Externalize_value closing_cfg 2 closing_value closing_engine = (Inr (), e') \<and> lm_currLedgerHeaderHash (en_lm e') \<noteq> []"
proof -
  note g = closing_samples(4) and n = closing_samples(5) and b = closing_samples(1-3)
  have u: "utf8_valid ''p''" "utf8_valid closing_key" "utf8_valid closing_value" "utf8_valid (char_of KeyTypeLedgerHeader # replicate 32 (CHR ''h''))" by code_simp+
  have "fst (ApplyTxList letters [sample_tx] 2 (lm_tm closing_lm)) = Inr ()" "opened (tm_database (snd (ApplyTxList letters [sample_tx] 2 (lm_tm closing_lm))))"
    unfolding opened_def by code_simp+
  then obtain tm where tm: "ApplyTxList letters [sample_tx] 2 (lm_tm closing_lm) = (Inr (), tm)" "opened (tm_database tm)"
    by (metis prod.collapse)
  have h: "GetLedgerHeaderKey (x_crypto letters) (Some (genesisHeader 2 ''p'' closing_key closing_value)) = Inr (char_of KeyTypeLedgerHeader # replicate 32 (CHR ''h''))"
    using u by (simp add: GetLedgerHeaderKey_def hashKey_def EncodeLedgerHeader_def marshal_def LedgerHeader_utf8_def genesisHeader_def EncodeKey_def letters_def plain_def)
  obtain t where t: "closeLedger letters (\<lambda>_. 0) 2 closing_value (TxSet ''p'' [sample_tx]) closing_lm = (Inr (), t)"
    "lm_currLedgerHeaderHash t = char_of KeyTypeLedgerHeader # replicate 32 (CHR ''h'')"
    using closeLedger_ok [OF _ n _ b(3,1,2) _ _ tm(2), of genesis _ "\<lambda>_. 0"] tm(1) h u
    by (auto simp: closing_lm_def LedgerHeader_utf8_def genesis_def genesisHeader_def)
  let ?t = "t\<lparr>lm_largestConsensusIndex := 2, lm_ledgerState := LedgerStateSynced\<rparr>"
  have r: "RecvExtVal letters (\<lambda>_. 0) 2 closing_value (TxSet ''p'' [sample_tx]) closing_lm = (Inr (), ?t)"
    by (rule RecvExtVal_ok [OF t(1) n]) (simp_all add: closing_lm_def)
  have "same_pending (lm_tm closing_lm) (lm_tm ?t)"
    using lm_pending_RecvExtVal [of closing_lm letters "\<lambda>_. 0" 2 closing_value "TxSet ''p'' [sample_tx]"] r by (simp add: lm_pending_def)
  then have "tm_accTxMap (lm_tm ?t) = []" "\<not> tm_locked (lm_tm ?t)"
    by (simp_all add: same_pending_def closing_lm_def newLedgerMgr_def freshTm_def)
  then obtain tm' where "DeleteTxList letters [sample_tx] (lm_tm ?t) = (Inr (), tm')"
    by (simp add: DeleteTxList_def letters_def cfg_def thenA_def bindA_def lockTm_def)
  moreover obtain d where "map_of (en_decrees closing_engine) 2 = Some d" using closing_engine_simps(2) by blast
  ultimately have "\<exists>e'. Externalize_value closing_cfg 2 closing_value closing_engine = (Inr (), e') \<and> en_lm e' = ?t\<lparr>lm_tm := tm'\<rparr>"
    using n b(1) g r
    by (intro Externalize_ok [OF _ _ b(2), where txset = "TxSet ''p'' [sample_tx]" and lm = closing_lm and lm' = ?t and d = d])
      (simp_all add: closing_engine_simps)
  then show ?thesis using t(2) by auto
qed

theorem externalize_closes_ledger_witness:
  "\<exists>e' h. Externalize_value closing_cfg 2 closing_value closing_engine = (Inr (), e') \<and>
     CurrLedgerHeader (en_lm e') = Inr h \<and> lh_ConsensusValue h = closing_value \<and> lh_PrevLedgerHash h = ''p'' \<and>
     lh_TxSetHash h = closing_key \<and> NextLedgerHeaderSeq (en_lm e') = 3"
proof -
  obtain e' where e': "Externalize_value closing_cfg 2 closing_value closing_engine = (Inr (), e')" using closing_run by blast
  show ?thesis using externalize_closes_ledger [OF e' _ _ _ closing_samples(2)] closing_samples e' by (auto simp: closing_engine_simps)
qed

theorem externalize_blocks_proposals_witness:
  "\<exists>e'. Externalize_value closing_cfg 2 closing_value closing_engine = (Inr (), e') \<and>
     fst (Propose closing_cfg 7 e') = Inl (Blocked ''tm.rwm'')"
proof -
  obtain e' where e': "Externalize_value closing_cfg 2 closing_value closing_engine = (Inr (), e')" "lm_currLedgerHeaderHash (en_lm e') \<noteq> []"
    using closing_run by blast
  have "permutes_maps letters" by (simp add: permutes_maps_def letters_def cfg_def)
  moreover have "map_of (tm_accTxMap (lm_tm closing_lm)) (tx_AccountID sample_tx) = None" by (simp add: closing_lm_def newLedgerMgr_def freshTm_def)
  ultimately show ?thesis
    using externalize_blocks_proposals [OF _ _ e'(1) _ _ _ closing_samples(2) _ _ _ e'(2), of _ sample_tx 7] closing_samples e'
    by (auto simp: closing_engine_simps)
qed


section \<open>Rebroadcasting\<close>

text \<open>The latest statements of the decree with a number.\<close>

definition latest :: "engine \<Rightarrow> 64 word \<Rightarrow> statement list" where
  "latest e i = (case map_of (en_decrees e) i of None \<Rightarrow> [] | Some d \<Rightarrow> map (resolve d) (GetLatestStatements d))"

lemma rebroadcastFrom_run:
  "(\<exists>k < fuel. rebroadcastFrom fuel e lower seq = Inr (concat (map (\<lambda>i. latest e (seq - of_nat i)) [0..<k])) \<and>
      (\<forall>i < k. lower \<le> seq - of_nat i \<and> latest e (seq - of_nat i) \<noteq> []) \<and>
      (seq - of_nat k < lower \<or> latest e (seq - of_nat k) = [])) \<or>
   (\<forall>i < fuel. latest e (seq - of_nat i) \<noteq> [])"
proof (induction fuel arbitrary: seq)
  case (Suc fuel)
  show ?case
  proof (cases "lower \<le> seq \<and> latest e seq \<noteq> []")
    case False
    then show ?thesis by (intro disjI1 exI [of _ 0]) (auto simp: latest_def split: option.splits)
  next
    case True
    then have r: "rebroadcastFrom (Suc fuel) e lower seq = bindR (rebroadcastFrom fuel e lower (seq - 1)) (\<lambda>rest. Inr (latest e seq @ rest))"
      by (auto simp: latest_def split: option.splits)
    have s: "seq - 1 - of_nat i = seq - of_nat (Suc i)" for i by simp
    from Suc.IH [of "seq - 1"] show ?thesis
    proof
      assume "\<exists>k < fuel. rebroadcastFrom fuel e lower (seq - 1) = Inr (concat (map (\<lambda>i. latest e (seq - 1 - of_nat i)) [0..<k])) \<and>
        (\<forall>i < k. lower \<le> seq - 1 - of_nat i \<and> latest e (seq - 1 - of_nat i) \<noteq> []) \<and>
        (seq - 1 - of_nat k < lower \<or> latest e (seq - 1 - of_nat k) = [])"
      then obtain k where k: "k < fuel" "rebroadcastFrom fuel e lower (seq - 1) = Inr (concat (map (\<lambda>i. latest e (seq - of_nat (Suc i))) [0..<k]))"
        "\<forall>i < k. lower \<le> seq - of_nat (Suc i) \<and> latest e (seq - of_nat (Suc i)) \<noteq> []"
        "seq - of_nat (Suc k) < lower \<or> latest e (seq - of_nat (Suc k)) = []" unfolding s by blast
      have "map (\<lambda>i. latest e (seq - of_nat i)) [0..<Suc k] = latest e seq # map (\<lambda>i. latest e (seq - of_nat (Suc i))) [0..<k]"
        by (simp add: upt_conv_Cons map_Suc_upt [symmetric] del: upt_Suc)
      then have "rebroadcastFrom (Suc fuel) e lower seq = Inr (concat (map (\<lambda>i. latest e (seq - of_nat i)) [0..<Suc k]))"
        unfolding r k(2) by simp
      moreover have "\<forall>i < Suc k. lower \<le> seq - of_nat i \<and> latest e (seq - of_nat i) \<noteq> []"
        using True k(3) by (simp add: All_less_Suc2 del: of_nat_Suc)
      ultimately show ?thesis using k(1,4) by blast
    next
      assume "\<forall>i < fuel. latest e (seq - 1 - of_nat i) \<noteq> []"
      then show ?thesis using True unfolding s by (simp add: All_less_Suc2 del: of_nat_Suc)
    qed
  qed
qed simp




section \<open>The quorum of the node itself\<close>

text \<open>The first ballot of its own that a decree sends looks up the quorum of the node.\<close>

lemma first_ballot_fatal:
  assumes "checkBallotInvariants d = Inr ()" "d_currentPhase d = BallotPhasePrepare" "d_currentBallot d = Some r"
    and "map_of (d_ballots d) (d_nodeID d) = None" "d_quorumHash d \<noteq> []" "e_GetQuorum env (d_quorumHash d) = None"
  shows "fst (sendBallot (Suc n) env d) = Inl (Fatal ''failed to get quorum of hash'')"
proof -
  obtain stmt where s: "make_ballot_stmt d = Inr (Some stmt)" "s_NodeID stmt = d_nodeID d" "s_Index stmt = d_index d"
    "pl_QuorumHash (s_Stmt (vst d stmt)) = d_quorumHash d" "getStatementQuorum env d (vst d stmt) = Inl (Fatal ''failed to get quorum of hash'')"
    using assms(2,3,5,6) by (simp add: make_ballot_stmt_def Let_def vst_def getStatementQuorum_def)
  then have "validateBallot env d (vst d stmt) = Inl (Fatal ''failed to get quorum of hash'')" by (simp add: validateBallot_def)
  then have "recv_body n env (sendBallot n env) stmt d = (Inl (Fatal ''failed to get quorum of hash''), d)"
    using s(2,3) assms(4) by (simp add: recv_body_def errorf_def)
  then show ?thesis using s(1,2) assms(1,4) by (simp add: send_body_def thenA_def bindA_def errorfA_def errorf_def)
qed

text \<open>
  C21.  Only a proposal stores the quorum of the node.  A node that is not a validator, or not synced, goes
  through the motions of a proposal without storing it, and when its quorum is not known from a peer it
  exits the process at the first ballot of its own that any of its decrees sends.
\<close>

theorem unstored_quorum_exits:
  assumes "g_role c \<noteq> ''validator'' \<or> \<not> LedgerSynced (en_lm e)" "fst (Engine_GetQuorum c (en_quorumHash e) e) = Inr None"
    and "d_quorumHash d = en_quorumHash e" "en_quorumHash e \<noteq> []" "checkBallotInvariants d = Inr ()"
    and "d_currentPhase d = BallotPhasePrepare" "d_currentBallot d = Some r" "map_of (d_ballots d) (d_nodeID d) = None" "g_fuel c = Suc n"
  shows "fst (sendBallotOf c (decreeEnv c (en_validator (snd (Propose c now e)))) d) = Inl (Fatal ''failed to get quorum of hash'')"
proof -
  have "en_validator (snd (Propose c now e)) = en_validator e"
    using assms(1) by (auto simp: Propose_def thenA_def bindA_def)
  moreover have "e_GetQuorum (decreeEnv c (en_validator e)) (d_quorumHash d) = None"
    using assms(2,3) by (simp add: decreeEnv_def found_def Engine_GetQuorum_def onValidator_def errorfA_def split: prod.splits sum.splits)
  ultimately show ?thesis
    unfolding sendBallotOf_def assms(9) using assms(3-8) by (intro first_ballot_fatal) (simp_all add: denv.truncate_def)
qed

theorem unstored_quorum_exits_witness:
  "\<exists>d. NewDecree 2 ''me'' solo ''q'' = Inr d \<and>
     fst (sendBallotOf sample_ecfg (decreeEnv sample_ecfg (en_validator (snd (Propose sample_ecfg 7 sample_e0))))
       (d\<lparr>d_heap := [Ballot 1 ''v''], d_currentBallot := Some 0\<rparr>)) = Inl (Fatal ''failed to get quorum of hash'')"
proof -
  obtain d where d: "NewDecree 2 ''me'' solo ''q'' = Inr d" by (simp add: NewDecree_def)
  let ?d = "d\<lparr>d_heap := [Ballot 1 ''v''], d_currentBallot := Some 0\<rparr>"
  have "\<not> LedgerSynced (en_lm sample_e0)" by (simp add: LedgerSynced_def newValidator_def newLedgerMgr_def)
  moreover have "fst (Engine_GetQuorum sample_ecfg (en_quorumHash sample_e0) sample_e0) = Inr None" by code_simp
  moreover have "d_quorumHash ?d = en_quorumHash sample_e0" "en_quorumHash sample_e0 \<noteq> []" "checkBallotInvariants ?d = Inr ()"
    "d_currentPhase ?d = BallotPhasePrepare" "d_currentBallot ?d = Some 0" "map_of (d_ballots ?d) (d_nodeID ?d) = None"
    using d by (auto simp: NewDecree_def checkBallotInvariants_def bal_def deref_def Let_def)
  moreover have "g_fuel sample_ecfg = Suc 19" by (simp add: sample_ecfg_def)
  ultimately show ?thesis using unstored_quorum_exits [of sample_ecfg sample_e0 ?d 0 19 7] d by blast
qed

end
