(* ===== verification/NodeSpec.thy ===== *)
theory NodeSpec
  imports Node ClientTx EngineSpec
begin

text \<open>
  What the server of a node lets in, how client and server fit together, how two nodes exchange what one
  of them misses, and how a node starts.
\<close>


section \<open>Submitting transactions\<close>

lemma checkSubmit_Inr:
  "checkSubmit c req = Inr tx \<longleftrightarrow> sv_networkID c = sr_NetworkID req \<and> DecodeTx (sr_Data req) = Inr tx \<and>
    (\<exists>accKey. DecodeKey (sv_crypto c) (tx_AccountID tx) = Inr accKey \<and> key_Code accKey = KeyTypeAccountID \<and>
       VerifyByKey (sv_crypto c) accKey (sr_Signature req) (sr_Data req)) \<and>
    (\<exists>txKey b. DecodeKey (sv_crypto c) (sr_TxKey req) = Inr txKey \<and> EncodeTx tx = Inr b \<and> k_sha256 (sv_crypto c) b = key_Hash txKey)"
  by (auto simp: checkSubmit_def split: sum.splits)

lemma SubmitTx_checked:
  "checkSubmit c req = Inr tx \<Longrightarrow> SubmitTx c req n = errorfA ''submit tx failed: '' (handleTx c (sr_TxKey req) tx) n"
  by (simp add: SubmitTx_def bindA_def)

text \<open>
  C9.  A submission that changes anything at all is authentic: the data decode to a transaction of a valid
  account, the signature is that account's over these very data, and the key has the hash of the
  transaction.
\<close>

theorem submit_authentic:
  assumes "SubmitTx c req n = (r, n')" "n' \<noteq> n"
  shows "\<exists>tx accKey txKey b. DecodeTx (sr_Data req) = Inr tx \<and>
    DecodeKey (sv_crypto c) (tx_AccountID tx) = Inr accKey \<and> key_Code accKey = KeyTypeAccountID \<and>
    VerifyByKey (sv_crypto c) accKey (sr_Signature req) (sr_Data req) \<and>
    DecodeKey (sv_crypto c) (sr_TxKey req) = Inr txKey \<and> EncodeTx tx = Inr b \<and> key_Hash txKey = k_sha256 (sv_crypto c) b \<and>
    no_tm n' = snd (AddTx (sv_tx c) (sr_TxKey req) tx (no_tm n))"
proof (cases "checkSubmit c req")
  case (Inl f)
  then show ?thesis using assms by (simp add: SubmitTx_def bindA_def)
next
  case (Inr tx)
  then have "no_tm n' = snd (AddTx (sv_tx c) (sr_TxKey req) tx (no_tm n))"
    using assms(1) by (auto simp: SubmitTx_checked handleTx_def onEngine_def onValidator_def onLm_def onTm_def errorfA_def split: prod.splits)
  then show ?thesis using Inr unfolding checkSubmit_Inr by metis
qed

text \<open>Keys of a seed, as the key pairs are made.\<close>

abbreviation accountOf :: "crypto \<Rightarrow> string \<Rightarrow> string" where
  "accountOf c seed \<equiv> EncodeKey c (ULTKey KeyTypeAccountID (k_public c seed))"

abbreviation nodeOf :: "crypto \<Rightarrow> string \<Rightarrow> string" where
  "nodeOf c seed \<equiv> EncodeKey c (ULTKey KeyTypeNodeID (k_public c seed))"

abbreviation seedOf :: "crypto \<Rightarrow> string \<Rightarrow> string" where
  "seedOf c seed \<equiv> EncodeKey c (ULTKey KeyTypeSeed seed)"

text \<open>Digests have 32 bytes.\<close>

definition digests :: "crypto \<Rightarrow> bool" where
  "digests c \<longleftrightarrow> (\<forall>b. length (k_sha256 c b) = 32)"

lemma Sign_seed:
  assumes "b58_inverts c" "length seed = 32"
  shows "DecodeKey c (seedOf c seed) = Inr (ULTKey KeyTypeSeed seed)" "Sign c (seedOf c seed) data = Inr (k_b58Encode c (k_sign c seed data))"
proof -
  show d: "DecodeKey c (seedOf c seed) = Inr (ULTKey KeyTypeSeed seed)" using DecodeKey_EncodeKey [OF assms, of KeyTypeSeed] by simp
  have "seedOf c seed \<noteq> []" using assms(1) by (simp add: EncodeKey_def b58_inverts_def)
  then show "Sign c (seedOf c seed) data = Inr (k_b58Encode c (k_sign c seed data))" using d by (simp add: Sign_def getPrivateKey_def)
qed

lemma Verify_seed:
  assumes "b58_inverts c" "signatures_verify c" "key_Hash k = k_public c seed"
  shows "VerifyByKey c k (k_b58Encode c (k_sign c seed data)) data"
  using assms by (simp add: VerifyByKey_def b58_inverts_def signatures_verify_def)

lemma public_key:
  assumes "b58_inverts c" "signatures_verify c" "length seed = 32" "n \<in> {KeyTypeAccountID, KeyTypeNodeID}"
  shows "DecodeKey c (EncodeKey c (ULTKey n (k_public c seed))) = Inr (ULTKey n (k_public c seed))"
  using DecodeKey_EncodeKey [OF assms(1), of "k_public c seed" n] assms(2-4) by (auto simp: signatures_verify_def)

text \<open>A transaction that survives the way through its encoding.\<close>

definition sendable :: "tx \<Rightarrow> bool" where
  "sendable t \<longleftrightarrow> (\<exists>b. EncodeTx t = Inr b \<and> DecodeTx b = Inr t)"


text \<open>What the filter and the pending transactions are after an admission.\<close>

definition same_txs :: "txmgr \<Rightarrow> txmgr \<Rightarrow> bool" where
  "same_txs s t \<longleftrightarrow> tm_txSet t = tm_txSet s \<and> tm_accTxMap t = tm_accTxMap s"

interpretation kept: frame same_txs
  by unfold_locales (auto simp: same_txs_def)

lemma storeTx_pending: "same_txs s (snd (storeTx k tx s))"
proof -
  have p: "same_pending s t \<Longrightarrow> same_txs s t" for s t by (simp add: same_pending_def same_txs_def)
  have "same_txs s (s\<lparr>tm_txChan := x\<rparr>)" for s x by (simp add: same_txs_def)
  then show ?thesis unfolding storeTx_def by (intro kept.frame_bind kept.frame_then) (simp_all add: p)
qed

lemma AddTx_refused:
  assumes "k \<notin> tm_txSet s" "GetAccount (tx_AccountID tx) (tm_database s) = Inr (Some acc)" "\<not> admissible c tx acc s"
  shows "fst (AddTx c k tx s) \<noteq> Inr ()"
proof -
  have m: "MaxUint64 x y \<le> x \<longleftrightarrow> y \<le> x" for x y by (auto simp: MaxUint64_def)
  show ?thesis using assms unfolding AddTx_def bind_read
    by (auto simp: bindA_def thenA_def errorfA_def present_def Let_def m admissible_def
        pendingOf_def spendable_def NewTxHistory_def ErrInvalidSeqNum_def not_less split: option.splits)
qed

lemma AddTx_pends:
  assumes "k \<notin> tm_txSet s" "AddTx c k tx s = (Inr (), t)"
  shows "tm_txSet t = insert k (tm_txSet s) \<and> h_txMap (pendingOf (tx_AccountID tx) t) = AList.update k tx (h_txMap (pendingOf (tx_AccountID tx) s))"
proof -
  let ?e = "enterTx k tx ((newHistory (tx_AccountID tx) s)\<lparr>tm_locked := True\<rparr>)"
  note run = AddTx_cases [OF assms(1), of c tx, unfolded assms(2)]
  obtain acc where acc: "GetAccount (tx_AccountID tx) (tm_database s) = Inr (Some acc)"
    using run by (cases "GetAccount (tx_AccountID tx) (tm_database s)") (auto split: option.splits)
  have adm: "admissible c tx acc s" using AddTx_refused [OF assms(1) acc, of c] assms(2) by auto
  then have "t = snd (storeTx k tx ?e)" using run acc by (cases "tm_locked s") (simp_all add: Let_def, metis snd_conv)
  then have "tm_txSet t = tm_txSet ?e" "tm_accTxMap t = tm_accTxMap ?e" using storeTx_pending [of ?e k tx] by (simp_all add: same_txs_def)
  moreover have "h_MaxSeqNum (pendingOf (tx_AccountID tx) s) \<le> tx_SeqNum tx" using adm by (simp add: admissible_def)
  ultimately show ?thesis
    by (cases "map_of (tm_accTxMap s) (tx_AccountID tx)")
      (auto simp: enterTx_def Let_def addToHistory_def newHistory_def pendingOf_def TxHistory_AddTx_def NewTxHistory_def AList.update_conv' not_less)
qed

lemma SubmitTx_AddTx:
  assumes "checkSubmit c req = Inr tx" "SubmitTx c req n = (Inr (), n')"
  shows "AddTx (sv_tx c) (sr_TxKey req) tx (no_tm n) = (Inr (), no_tm n')"
  using assms(2) unfolding SubmitTx_checked [OF assms(1)]
  by (auto simp: handleTx_def onEngine_def onValidator_def onLm_def onTm_def split: prod.splits)

text \<open>
  The key under which a transaction is submitted is not checked for its type: under the key of any
  other type with the same hash the same transaction passes the checks again.  The filter of duplicates
  does not know that key, and when the account can pay for both the transaction is pending twice.
\<close>

theorem submit_key_alias:
  assumes "b58_inverts (sv_crypto c)" "digests (sv_crypto c)" "checkSubmit c req = Inr tx" "DecodeKey (sv_crypto c) (sr_TxKey req) = Inr key"
    and "code \<in> {KeyTypeAccountID, KeyTypeSeed, KeyTypeTx, KeyTypeTxSet, KeyTypeNodeID, KeyTypeLedgerHeader}"
    and "other = EncodeKey (sv_crypto c) (ULTKey code (key_Hash key))"
    and "sr_TxKey req \<notin> tm_txSet (no_tm n)" "other \<notin> tm_txSet (no_tm n)" "other \<noteq> sr_TxKey req"
  shows "checkSubmit c (req\<lparr>sr_TxKey := other\<rparr>) = Inr tx \<and>
    (\<forall>n1 n2. SubmitTx c req n = (Inr (), n1) \<and> SubmitTx c (req\<lparr>sr_TxKey := other\<rparr>) n1 = (Inr (), n2) \<longrightarrow>
      (let pending = h_txMap (pendingOf (tx_AccountID tx) (no_tm n2))
       in map_of pending (sr_TxKey req) = Some tx \<and> map_of pending other = Some tx))"
proof -
  have "length (key_Hash key) = 32" using assms(2,3,4) unfolding checkSubmit_Inr digests_def by (metis sum.inject(2))
  then have "DecodeKey (sv_crypto c) other = Inr (ULTKey code (key_Hash key))"
    using DecodeKey_EncodeKey [OF assms(1), of "key_Hash key" code] assms(5,6) by auto
  then have a: "checkSubmit c (req\<lparr>sr_TxKey := other\<rparr>) = Inr tx" using assms(3,4) unfolding checkSubmit_Inr by auto
  have "map_of (h_txMap (pendingOf (tx_AccountID tx) (no_tm n2))) (sr_TxKey req) = Some tx \<and>
      map_of (h_txMap (pendingOf (tx_AccountID tx) (no_tm n2))) other = Some tx"
    if r: "SubmitTx c req n = (Inr (), n1)" "SubmitTx c (req\<lparr>sr_TxKey := other\<rparr>) n1 = (Inr (), n2)" for n1 n2
  proof -
    note p1 = AddTx_pends [OF assms(7) SubmitTx_AddTx [OF assms(3) r(1)]]
    have "other \<notin> tm_txSet (no_tm n1)" using p1 assms(8,9) by simp
    then show ?thesis using AddTx_pends [OF _ SubmitTx_AddTx [OF a r(2)]] p1 assms(9) by (simp add: AList.update_conv')
  qed
  then show ?thesis using a by (auto simp: Let_def)
qed


text \<open>A node with an account in its store, and a transaction of that account with its submission.\<close>

definition sample_scfg :: scfg where
  "sample_scfg = \<lparr>sv_engine = sample_ecfg, sv_addr = ''here'', sv_decodeStmt = (\<lambda>_. Inl (Error ''none''))\<rparr>"

abbreviation sample_seed :: string where
  "sample_seed \<equiv> replicate 32 (CHR ''a'')"

definition owner :: string where
  "owner = accountOf plain sample_seed"

definition sample_node :: node where
  "sample_node = \<lparr>no_engine = sample_e0\<lparr>en_validator := newValidator (newLedgerMgr (freshTm (snd (CreateAccount 1 owner 100 owner 1 (Some [])))))\<rparr>,
     no_pm = Peer_NewManager [] ''net'' ''here'' ''me'' 5, no_nodeKey = [], no_master = None\<rparr>"

definition owner_tx :: tx where
  "owner_tx = \<lparr>tx_AccountID = owner, tx_Fee = 10, tx_Note = [], tx_SeqNum = 1, tx_OpList = []\<rparr>"

definition owner_data :: string where
  "owner_data = (case EncodeTx owner_tx of Inr b \<Rightarrow> b | Inl _ \<Rightarrow> [])"

definition owner_key :: string where
  "owner_key = EncodeKey plain (ULTKey KeyTypeTx (k_sha256 plain owner_data))"

definition owner_req :: submitTxRequest where
  "owner_req = \<lparr>sr_NetworkID = ''net'', sr_Data = owner_data, sr_TxKey = owner_key, sr_Signature = k_sign plain sample_seed owner_data\<rparr>"

lemma sample_scfg_simps [simp]: "sv_crypto sample_scfg = plain" "sv_networkID sample_scfg = ''net''" "sv_tx sample_scfg = cfg"
  by (simp_all add: sample_scfg_def sample_ecfg_def sample_vcfg_def)

lemma digests_plain: "digests plain"
  by (auto simp: digests_def plain_def)

lemma owner_tx_encodes: "EncodeTx owner_tx = Inr owner_data" "DecodeTx owner_data = Inr owner_tx"
  by code_simp+

theorem submit_authentic_witness:
  "\<exists>n' accKey. SubmitTx sample_scfg owner_req sample_node = (Inr (), n') \<and> DecodeKey plain owner = Inr accKey \<and>
     VerifyByKey plain accKey (sr_Signature owner_req) owner_data"
proof -
  have "fst (SubmitTx sample_scfg owner_req sample_node) = Inr ()" "tm_txSet (no_tm (snd (SubmitTx sample_scfg owner_req sample_node))) = {owner_key}"
    by code_simp+
  moreover have "tm_txSet (no_tm sample_node) = {}" by code_simp
  ultimately obtain n' where n': "SubmitTx sample_scfg owner_req sample_node = (Inr (), n')" "n' \<noteq> sample_node"
    by (metis insert_not_empty prod.collapse)
  have "sr_Data owner_req = owner_data" "tx_AccountID owner_tx = owner" by (simp_all add: owner_req_def owner_tx_def)
  then show ?thesis using submit_authentic [OF n'] n'(1) owner_tx_encodes(2) by auto
qed


theorem submit_key_alias_witness:
  "let other = EncodeKey plain (ULTKey KeyTypeSeed (k_sha256 plain owner_data));
       n1 = snd (SubmitTx sample_scfg owner_req sample_node);
       n2 = snd (SubmitTx sample_scfg (owner_req\<lparr>sr_TxKey := other\<rparr>) n1);
       pending = h_txMap (pendingOf owner (no_tm n2))
   in map_of pending owner_key = Some owner_tx \<and> map_of pending other = Some owner_tx"
proof -
  let ?other = "EncodeKey plain (ULTKey KeyTypeSeed (k_sha256 plain owner_data))"
  let ?n1 = "snd (SubmitTx sample_scfg owner_req sample_node)"
  let ?n2 = "snd (SubmitTx sample_scfg (owner_req\<lparr>sr_TxKey := ?other\<rparr>) ?n1)"
  have k: "sr_TxKey owner_req = owner_key" "tx_AccountID owner_tx = owner" by (simp_all add: owner_req_def owner_tx_def)
  have c: "checkSubmit sample_scfg owner_req = Inr owner_tx" by code_simp
  have d: "DecodeKey plain owner_key = Inr (ULTKey KeyTypeTx (k_sha256 plain owner_data))"
    using DecodeKey_EncodeKey [OF plain_ok(1), of "k_sha256 plain owner_data" KeyTypeTx] digests_plain by (simp add: owner_key_def digests_def)
  have "fst (SubmitTx sample_scfg owner_req sample_node) = Inr ()" "fst (SubmitTx sample_scfg (owner_req\<lparr>sr_TxKey := ?other\<rparr>) ?n1) = Inr ()"
    by code_simp+
  then have r: "SubmitTx sample_scfg owner_req sample_node = (Inr (), ?n1)" "SubmitTx sample_scfg (owner_req\<lparr>sr_TxKey := ?other\<rparr>) ?n1 = (Inr (), ?n2)"
    by (metis prod.collapse)+
  have e: "tm_txSet (no_tm sample_node) = {}" "?other \<noteq> owner_key" by code_simp+
  show ?thesis
    using submit_key_alias [of sample_scfg owner_req owner_tx "ULTKey KeyTypeTx (k_sha256 plain owner_data)" KeyTypeSeed ?other sample_node]
      plain_ok(1) digests_plain c d k e r by (simp add: Let_def)
qed


section \<open>Transactions from peers\<close>

text \<open>
  C18.  Any peer can pay from any account.  Somebody with a node key of their own says hello and then sends
  any transaction at all, signed with that node key: the signature of the account is never asked for, and
  the transaction is handed to the transaction manager like one its owner submitted.
\<close>

theorem peer_forges_transaction:
  assumes "b58_inverts (sv_crypto c)" "signatures_verify (sv_crypto c)" "length seed = 32"
    and "EncodeTx tx = Inr data" "DecodeTx data = Inr tx"
    and "ctx = Some \<lparr>md_addr = [addr], md_nodeid = [nodeOf (sv_crypto c) seed]\<rparr>"
  shows "\<exists>header n1 signature key. Hello c ctx (sv_networkID c) n = (Inr header, n1) \<and> no_tm n1 = no_tm n \<and>
    Sign (sv_crypto c) (seedOf (sv_crypto c) seed) data = Inr signature \<and> GetTxKey (sv_crypto c) tx = Inr key \<and>
    Notify c ctx \<lparr>nr_NetworkID = sv_networkID c, nr_MsgType = TX_MSG, nr_Data = data, nr_Signature = signature\<rparr> n1 =
      errorfA ''add tx failed: '' (handleTx c key tx) n1"
proof -
  let ?c = "sv_crypto c" and ?k = "ULTKey KeyTypeNodeID (k_public (sv_crypto c) seed)"
  let ?n1 = "n\<lparr>no_nodeKey := AList.update addr ?k (no_nodeKey n), no_pm := AddPeerAddr addr (no_pm n)\<rparr>"
  let ?sg = "k_b58Encode ?c (k_sign ?c seed data)"
  have "DecodeKey ?c (nodeOf ?c seed) = Inr ?k" using public_key [OF assms(1-3), of KeyTypeNodeID] by simp
  then have h: "Hello c ctx (sv_networkID c) n = (Inr \<lparr>md_addr = [sv_addr c], md_nodeid = [g_nodeID (sv_engine c)]\<rparr>, ?n1)"
    using assms(6) by (simp add: Hello_def thenA_def bindA_def dropA_def handlePeer_def)
  have "VerifyByKey ?c ?k ?sg data" by (rule Verify_seed [OF assms(1,2)]) simp
  then have v: "Server_validate c ctx data ?sg (sv_networkID c) ?n1 = Inr ()"
    using assms(6) by (simp add: Server_validate_def AList.update_conv')
  obtain key where key: "GetTxKey ?c tx = Inr key" using assms(4) by (simp add: GetTxKey_def hashKey_def)
  have "Notify c ctx \<lparr>nr_NetworkID = sv_networkID c, nr_MsgType = TX_MSG, nr_Data = data, nr_Signature = ?sg\<rparr> ?n1 =
      errorfA ''add tx failed: '' (handleTx c key tx) ?n1"
    using v key assms(5) by (simp add: Notify_def bindA_def readA_def)
  then show ?thesis using h key Sign_seed(2) [OF assms(1,3)] by fastforce
qed

theorem peer_forges_transaction_witness:
  "let ctx = Some \<lparr>md_addr = [''evil''], md_nodeid = [nodeOf plain (replicate 32 (CHR ''e''))]\<rparr>
   in \<exists>header n1 signature. Hello sample_scfg ctx ''net'' sample_node = (Inr header, n1) \<and>
     Notify sample_scfg ctx \<lparr>nr_NetworkID = ''net'', nr_MsgType = TX_MSG, nr_Data = owner_data, nr_Signature = signature\<rparr> n1 =
       errorfA ''add tx failed: '' (handleTx sample_scfg owner_key owner_tx) n1"
proof -
  have "GetTxKey plain owner_tx = Inr owner_key" using owner_tx_encodes(1) by (simp add: GetTxKey_def hashKey_def owner_key_def)
  then show ?thesis
    using peer_forges_transaction [of sample_scfg "replicate 32 (CHR ''e'')" owner_tx owner_data _ "''evil''" sample_node]
      plain_ok owner_tx_encodes by (auto simp: Let_def)
qed


section \<open>Asking a peer for a transaction set\<close>

text \<open>The calls of \<open>QueryTxSet\<close> that the engine makes: the live clients, the metadata and the network id are fixed.\<close>

abbreviation askTxSet :: "ecfg \<Rightarrow> nat list \<Rightarrow> queryClient list \<Rightarrow> md \<Rightarrow> string \<Rightarrow> string \<Rightarrow> txset res" where
  "askTxSet c indices clients m payload signature \<equiv>
     QueryTxSet (v_decodeQuorum (g_validator c)) indices clients m payload signature (g_networkID c)"

abbreviation txsetRequest :: "ecfg \<Rightarrow> string \<Rightarrow> string \<Rightarrow> queryRequest" where
  "txsetRequest c h sg \<equiv> \<lparr>qr_NetworkID = g_networkID c, qr_MsgType = TXSET_MSG, qr_Data = h, qr_Signature = sg\<rparr>"

text \<open>The connection to another node: its answers to the queries of this one.\<close>

definition clientOf :: "scfg \<Rightarrow> node \<Rightarrow> queryClient" where
  "clientOf c n m req = fst (Query c (Some m) req n)"

lemma clientOf_TxSet:
  assumes "Server_validate c (Some m) (qr_Data req) (qr_Signature req) (qr_NetworkID req) n = Inr ()" "qr_MsgType req = TXSET_MSG"
    and "fst (Engine_GetTxSet (qr_Data req) (no_engine n)) = Inr (Some t)" "EncodeTxSet t = Inr b"
  shows "clientOf c n m req = Inr b"
proof -
  obtain e where "Engine_GetTxSet (qr_Data req) (no_engine n) = (Inr (Some t), e)" using assms(3) by (metis prod.collapse)
  then show ?thesis using assms(1,2,4)
    by (simp add: clientOf_def Query_def bindA_def readA_def handleTxSet_def onEngine_def errorfA_def present_def encoded_def)
qed

lemma queryTxSet_found:
  assumes "mset indices = mset [0..<length clients]" "clients \<noteq> []" "g_networkID c \<noteq> []" "h \<noteq> []" "Sign (g_crypto c) (g_seed c) h = Inr sg" "sg \<noteq> []"
    and "\<And>cl. cl \<in> set clients \<Longrightarrow> cl m (txsetRequest c h sg) = Inr b \<or> (\<exists>f. cl m (txsetRequest c h sg) = Inl f)"
    and "\<exists>cl \<in> set clients. cl m (txsetRequest c h sg) = Inr b" "b \<noteq> []" "DecodeTxSet b = Inr t" "GetTxSetKey (g_crypto c) t = Inr h"
  shows "queryTxSet c (askTxSet c indices clients m) h = Inr t"
proof -
  let ?dq = "v_decodeQuorum (g_validator c)" and ?req = "txsetRequest c h sg"
  have "set indices = {0..<length clients}" using assms(1) by (metis set_mset_mset atLeastLessThan_upt)
  then have s: "set (map (\<lambda>i. clients ! i) indices) = set clients" by (auto simp: in_set_conv_nth)
  have q: "queryFrom ?dq (map (\<lambda>i. clients ! i) indices) m ?req = Inr (TxSetMsg t)"
    using queryFrom_iff [of ?dq ?req "map (\<lambda>i. clients ! i) indices" m] assms(7-10) unfolding s
    by (fastforce simp: answers_def isOk_def split: sum.splits)
  then have "askTxSet c indices clients m h sg = Inr t"
    using assms(2-4,6) by (simp add: QueryTxSet_def checkRequest_def query_def)
  then show ?thesis using assms(5,11) by (simp add: queryTxSet_def)
qed



definition empty_set :: txset where
  "empty_set = TxSet ''p'' []"

definition empty_key :: string where
  "empty_key = (case GetTxSetKey plain empty_set of Inr k \<Rightarrow> k | Inl _ \<Rightarrow> [])"

definition asking :: engine where
  "asking = sample_e0\<lparr>en_validator := (en_validator sample_e0)\<lparr>va_txsetDownloadChan := [empty_key]\<rparr>\<rparr>"

definition having :: node where
  "having = \<lparr>no_engine = sample_e0\<lparr>en_validator := newValidator ((newLedgerMgr (freshTm (Some [])))\<lparr>lm_txsetCache := [(empty_key, empty_set)]\<rparr>)\<rparr>,
     no_pm = Peer_NewManager [] ''net'' ''here'' ''me'' 5, no_nodeKey = [(''there'', ULTKey KeyTypeNodeID (replicate 32 (CHR ''s'')))], no_master = None\<rparr>"

lemma asking_samples:
  "va_txsetDownloadChan (en_validator asking) = [empty_key]" "txsets_coherent (en_lm asking)" "storable_txset empty_set"
  "GetTxSetKey plain empty_set = Inr empty_key" "empty_key \<noteq> []" "g_crypto sample_ecfg = plain" "g_networkID sample_ecfg = ''net''"
  "\<exists>sg. Sign plain (g_seed sample_ecfg) empty_key = Inr sg \<and> sg \<noteq> [] \<and>
     Server_validate sample_scfg (Some \<lparr>md_addr = [''there''], md_nodeid = [''me'']\<rparr>) empty_key sg ''net'' having = Inr ()"
proof -
  have "length (put_fields (TxSet_fields (TxSet ''p'' []))) < 100" by code_simp
  then show "storable_txset empty_set" by (simp add: empty_set_def storable_txset_def TxSet_utf8_def TxSet_fits_def wire_max_def)
  show "txsets_coherent (en_lm asking)" by (simp add: asking_def newValidator_def txsets_coherent_def newLedgerMgr_def freshTm_def opened_def)
  have s: "g_seed sample_ecfg = seedOf plain (replicate 32 (CHR ''s''))" by (simp add: sample_ecfg_def)
  let ?sg = "k_b58Encode plain (k_sign plain (replicate 32 (CHR ''s'')) empty_key)"
  have "Server_validate sample_scfg (Some \<lparr>md_addr = [''there''], md_nodeid = [''me'']\<rparr>) empty_key ?sg ''net'' having = Inr ()" by code_simp
  moreover have "?sg \<noteq> []" by (simp add: plain_def)
  ultimately show "\<exists>sg. Sign plain (g_seed sample_ecfg) empty_key = Inr sg \<and> sg \<noteq> [] \<and>
     Server_validate sample_scfg (Some \<lparr>md_addr = [''there''], md_nodeid = [''me'']\<rparr>) empty_key sg ''net'' having = Inr ()"
    unfolding s using Sign_seed(2) [OF plain_ok(1), of "replicate 32 (CHR ''s'')" empty_key] by auto
qed (simp_all add: asking_def sample_ecfg_def sample_vcfg_def, code_simp+)


text \<open>The monitor does not touch the requests for transaction sets.\<close>

definition same_requests :: "validator \<Rightarrow> validator \<Rightarrow> bool" where
  "same_requests s t \<longleftrightarrow> va_txsetDownloadChan t = va_txsetDownloadChan s"

interpretation asked: frame same_requests
  by unfold_locales (simp_all add: same_requests_def)

lemma same_requests_validate: "same_requests s (snd (validate c stmt s))"
proof -
  have q: "same_requests s (snd (Validator_GetQuorum c h s))" for h s
    by (auto simp: same_requests_def Validator_GetQuorum_def split: prod.splits option.splits sum.splits)
  have l: "same_requests s (snd (onLm m s))" for m :: "(ledgermgr, 'a) act" and s
    by (simp add: same_requests_def onLm_def split: prod.splits)
  have h: "same_requests s (snd (haveTxSets hs s))" for hs s
    by (induction hs arbitrary: s) (auto intro!: asked.frame_bind simp: l)
  show ?thesis unfolding validate_def by (auto intro!: asked.frame_bind simp: q h)
qed

lemma same_requests_monitor: "same_requests s (snd (monitor c order s))"
proof -
  have t: "same_requests s (snd (tryAgain c h s))" for h s
    using same_requests_validate [of s c]
    by (auto simp: tryAgain_def same_requests_def split: option.splits prod.splits sum.splits failure.splits bool.splits)
      (metis snd_conv)+
  have "same_requests s (snd (monitorAll c hs s))" for hs
    by (induction hs arbitrary: s) (auto intro!: asked.frame_then simp: t)
  then show ?thesis by (simp add: monitor_def bind_read)
qed

text \<open>
  C19.  One bad answer is enough to lose a request.  The first answer that decodes ends the query, and the
  hash is compared only afterwards: when a peer that is asked first sends another set, the request is
  dropped although the other peers have the set.  The monitor, which tries the waiting statements again,
  never asks again.
\<close>

theorem bad_answer_loses_request:
  assumes "va_txsetDownloadChan (en_validator e) = h # hs" "Sign (g_crypto c) (g_seed c) h = Inr sg"
    and "(clients ! i) m (txsetRequest c h sg) = Inr b" "b \<noteq> []" "DecodeTxSet b = Inr t" "GetTxSetKey (g_crypto c) t = Inr k" "k \<noteq> h"
    and "e' = e\<lparr>en_validator := (en_validator e)\<lparr>va_txsetDownloadChan := hs\<rparr>\<rparr>"
  shows "handleTxSetDownload c (askTxSet c (i # indices) clients m) e = (Inr (), e') \<and>
    (\<forall>order. va_txsetDownloadChan (snd (monitor (g_validator c) order (en_validator e'))) = hs)"
proof -
  have "\<exists>msg. queryTxSet c (askTxSet c (i # indices) clients m) h = Inl (Error msg)"
    using assms(2-7)
    by (auto simp: queryTxSet_def QueryTxSet_def checkRequest_def query_def queryPeer_def ErrEmptyNetworkID_def ErrEmptyPayload_def ErrEmptySignature_def
        bindR_def errorf_def)
  then have "handleTxSetDownload c (askTxSet c (i # indices) clients m) e = (Inr (), e')"
    using assms(1,8) by (auto simp: handleTxSetDownload_def bindA_def dropA_def)
  moreover have "va_txsetDownloadChan (snd (monitor (g_validator c) order (en_validator e'))) = hs" for order
    using same_requests_monitor [of "en_validator e'" "g_validator c" order] assms(8) by (simp add: same_requests_def)
  ultimately show ?thesis by simp
qed

text \<open>The peer that is asked first has another set to offer; the second one has the right set.\<close>

theorem bad_answer_loses_request_witness:
  "\<exists>e'. handleTxSetDownload sample_ecfg
     (askTxSet sample_ecfg [0, 1] [\<lambda>_ _. Inr [CHR 0x0A, CHR 0x01, CHR ''q''], clientOf sample_scfg having] \<lparr>md_addr = [''there''], md_nodeid = [''me'']\<rparr>) asking =
       (Inr (), e') \<and> va_txsetDownloadChan (snd (monitor (g_validator sample_ecfg) rev (en_validator e'))) = []"
proof -
  obtain sg where sg: "Sign plain (g_seed sample_ecfg) empty_key = Inr sg" using asking_samples(8) by blast
  have b: "DecodeTxSet [CHR 0x0A, CHR 0x01, CHR ''q''] = Inr (TxSet ''q'' [])" by code_simp
  obtain k where k: "GetTxSetKey plain (TxSet ''q'' []) = Inr k" "k \<noteq> empty_key"
  proof -
    have "case GetTxSetKey plain (TxSet ''q'' []) of Inr k \<Rightarrow> k \<noteq> empty_key | Inl _ \<Rightarrow> False" by code_simp
    then show thesis using that by (auto split: sum.splits)
  qed
  show ?thesis
    using bad_answer_loses_request [OF asking_samples(1), of sample_ecfg sg "[\<lambda>_ _. Inr [CHR 0x0A, CHR 0x01, CHR ''q''], clientOf sample_scfg having]" 0
        "\<lparr>md_addr = [''there''], md_nodeid = [''me'']\<rparr>", OF _ _ _ b _ _ refl, of k "[1]"] sg k
    by (auto simp: asking_samples(6))
qed


section \<open>Starting a node\<close>

lemma fatalA_no_error: "fatalA p m s \<noteq> (Inl (Error e), t)"
  by (auto simp: fatalA_def split: prod.splits sum.splits failure.splits)

text \<open>
  Only a validator can be started as a new node.  Whatever the state and the configuration, the
  start of a new node that has another role does not succeed: it proposes a value at its end, which
  only a validator may do, and the error exits the process.
\<close>

theorem watcher_cannot_start:
  assumes "g_role (sv_engine c) \<noteq> ''validator''"
  shows "\<exists>f. fst (Node_Start c True now n) = Inl f \<and> (\<forall>e. f \<noteq> Error e)"
proof -
  have p: "\<exists>f. fst (fatalA p (onEngine (Propose (sv_engine c) now)) s) = Inl (Fatal f)" for p s
    using assms by (simp add: fatalA_def onEngine_def Propose_def thenA_def bindA_def)
  obtain f t where r: "Node_Start c True now n = (Inl f, t)"
    using p by (cases "Node_Start c True now n") (auto simp: Node_Start_def thenA_def bindA_def split: prod.splits sum.splits; metis fst_conv sum.distinct(1))
  moreover have "f \<noteq> Error e" for e
    using r by (auto simp: Node_Start_def thenA_def bindA_def fatalA_no_error split: prod.splits sum.splits)
  ultimately show ?thesis by simp
qed

theorem watcher_cannot_start_witness:
  "\<exists>f. fst (Node_Start (sample_scfg\<lparr>sv_engine := (sv_engine sample_scfg)\<lparr>g_role := ''watcher''\<rparr>\<rparr>) True 7 sample_node) = Inl f \<and> (\<forall>e. f \<noteq> Error e)"
  by (rule watcher_cannot_start) simp

text \<open>
  C20.  A restarted node cannot create test accounts.  The master account is known only to the run that
  created it: once a node has been built on its store and has recovered from the checkpoint, no request
  for a test account succeeds, and one for a new account dereferences nil.
\<close>

theorem no_test_account_after_restart:
  assumes "NewNode c peers maxPeers now d = (Inr n, d')" "Node_Start c False now' n = (Inr (), n')"
  shows "\<not> isOk (fst (CreateTestAccount c net acc n')) \<and>
    (sv_networkID c = net \<and> IsValidAccountKey (sv_crypto c) acc \<and> fst (handleAccount acc n') = Inr None \<longrightarrow>
      (\<exists>w. fst (CreateTestAccount c net acc n') = Inl (Panic w)))"
proof -
  have "no_master n = None"
    using assms(1) by (auto simp: NewNode_def thenA_def bindA_def liftA_def bindR_def split: prod.splits sum.splits)
  moreover have "no_master n' = no_master n"
    using assms(2) by (auto simp: Node_Start_def fatalA_def onEngine_def split: prod.splits sum.splits failure.splits)
  ultimately have m: "no_master n' = None" by simp
  have a: "no_master (snd (handleAccount acc n')) = no_master n'"
    by (simp add: handleAccount_def onEngine_def split: prod.splits)
  show ?thesis
    using m a by (auto simp: CreateTestAccount_def bindA_def errorfA_def derefR_def isOk_def readA_def split: prod.splits sum.splits failure.splits)
qed

text \<open>The node closes the genesis ledger, restarts on its store, and is asked for a test account.\<close>

definition restart_scfg :: scfg where
  "restart_scfg = sample_scfg\<lparr>sv_engine := sample_ecfg\<lparr>g_tx := letters\<rparr>\<rparr>"

lemma restart_NewNode:
  "\<exists>n. NewNode restart_scfg [] 5 9 d = (Inr n, d) \<and> en_lm (no_engine n) = newLedgerMgr (freshTm d)"
proof -
  have t: "TxMgr_NewManager d = (Inr (freshTm d), d)" by (rule TxMgr_NewManager_fresh)
  have l: "fst (LedgerMgr_NewManager (freshTm d)) = Inr (newLedgerMgr (freshTm d))"
    by (simp add: LedgerMgr_NewManager_def onStore_def mustBucket_def NewBucket_def thenA_def bindA_def readA_def freshTm_def)
  have "\<exists>e. fst (NewEngine (sv_engine restart_scfg) 9 lm) = Inr e \<and> en_lm e = lm" for lm
    by (simp add: restart_scfg_def NewEngine_def ValidateEngineContext_def ValidateValidatorContext_def sample_ecfg_def sample_vcfg_def
        NewValidator_def onTm_def onStore_def mustBucket_def NewBucket_def newValidator_def thenA_def bindA_def readA_def solo_def EncodeKey_def plain_def)
  then obtain e where e: "fst (NewEngine (sv_engine restart_scfg) 9 (newLedgerMgr (freshTm d))) = Inr e" "en_lm e = newLedgerMgr (freshTm d)" by blast
  have "ValidateServerContext restart_scfg = Inr ()" by code_simp
  then show ?thesis
    using t l e by (simp add: NewNode_def NewManager_def ExchangeMgr_NewManager_def mustBucket_def NewBucket_def thenA_def bindA_def)
qed

theorem no_test_account_after_restart_witness:
  "\<exists>d n n' w. NewNode restart_scfg [] 5 9 d = (Inr n, d) \<and> Node_Start restart_scfg False 9 n = (Inr (), n') \<and>
     fst (CreateTestAccount restart_scfg ''net'' (accountOf plain (replicate 32 (CHR ''b''))) n') = Inl (Panic w)"
proof -
  let ?s = "newLedgerMgr (freshTm (Some []))" and ?acc = "accountOf plain (replicate 32 (CHR ''b''))"
  have op: "opened (lm_database ?s)" "lm_currLedgerHeaderHash ?s = []" by (simp_all add: newLedgerMgr_def freshTm_def opened_def)
  obtain s' where s': "advanceLedger letters (\<lambda>_. 5) 1 (lm_currLedgerHeaderHash ?s) [] [] ?s = (Inr (), s')" "storable_checkpoint (checkpointOf s')"
    and g: "\<And>k. Get ACCOUNT k (lm_database s') = Inr None"
    using genesis_closed op(2) by auto
  let ?d = "lm_database s'"
  obtain n where n: "NewNode restart_scfg [] 5 9 ?d = (Inr n, ?d)" "en_lm (no_engine n) = newLedgerMgr (freshTm ?d)" using restart_NewNode by blast
  obtain t' where t': "RecoverFromCheckpoint letters 9 (newLedgerMgr (freshTm ?d)) = (Inr (), t')" "lm_tm t' = freshTm ?d"
    using recovers_closed_ledger [OF op(1) s', of 9 "newLedgerMgr (freshTm ?d)"]
    by (auto simp: newLedgerMgr_def freshTm_def i64_def)
  obtain n' where n': "Node_Start restart_scfg False 9 n = (Inr (), n')" "lm_database (en_lm (no_engine n')) = ?d"
    using n(2) t' by (simp add: Node_Start_def fatalA_def onEngine_def onValidator_def onLm_def restart_scfg_def sample_scfg_def freshTm_def)
  have "fst (handleAccount ?acc n') = Inr None"
    using n'(2) g [of ?acc] by (simp add: handleAccount_def onEngine_def onValidator_def onLm_def onTm_def onStore_def readA_def GetAccount_def)
  moreover have "IsValidAccountKey (sv_crypto restart_scfg) ?acc" "sv_networkID restart_scfg = ''net''" by code_simp+
  ultimately show ?thesis using no_test_account_after_restart [OF n(1) n'(1), of "''net''" ?acc] n(1) n'(1) by blast
qed

end
